(* ===== verification/Prelude.thy ===== *)
theory Prelude
  imports Main "HOL-Library.AList" "HOL-Library.Word"
begin

text \<open>
  Shared vocabulary of the development: the hint collections, Go's 64-bit signed integers,
  HTTP headers, time, the generic list and association-list lemmas that the components use, and
  the interface through which invariants reach all states of a step relation.

  Conventions. A Go \<open>string\<close> or \<open>[]byte\<close> is a \<open>string\<close> (a list of bytes). A Go \<open>int\<close> or
  \<open>int64\<close> is an \<open>int\<close>; where an operation of the source can overflow, the model applies
  \<open>wrap64\<close> to the exact result, which is the two's complement value the machine computes
  (\<open>wrap64_sint\<close>). \<open>time.Time\<close> is an \<open>int\<close> (nanoseconds on one time line; \<open>Time.Add\<close> is exact
  because Go keeps seconds and nanoseconds apart), \<open>time.Duration\<close> is an \<open>int\<close> of
  nanoseconds held in 64 bits. A call of \<open>time.Now\<close> is an argument of the operation.
\<close>

named_theorems record_defs \<open>definitions that only assemble or update records\<close>
named_theorems inv_pres \<open>an operation preserves its component's invariant\<close>
named_theorems frame \<open>what an operation leaves unchanged\<close>

type_synonym bytes = string
type_synonym time = int
type_synonym duration = int

section \<open>Go's int64\<close>

definition int64 :: "int \<Rightarrow> bool" where
  "int64 x \<longleftrightarrow> - (2 ^ 63) \<le> x \<and> x < 2 ^ 63"

definition wrap64 :: "int \<Rightarrow> int" where
  "wrap64 x = (x + 2 ^ 63) mod 2 ^ 64 - 2 ^ 63"

lemma wrap64_id [simp]: "int64 x \<Longrightarrow> wrap64 x = x"
  by (simp add: int64_def wrap64_def)

lemma wrap64_range [simp]: "int64 (wrap64 x)"
proof -
  have "0 \<le> (x + 2 ^ 63) mod 2 ^ 64" and "(x + 2 ^ 63) mod 2 ^ 64 < (2 ^ 64 :: int)"
    by simp_all
  then show ?thesis by (simp add: int64_def wrap64_def)
qed

lemma wrap64_sint: "wrap64 x = sint (word_of_int x :: 64 word)"
  by (simp add: wrap64_def sint_sbintrunc' signed_take_bit_eq_take_bit_shift take_bit_eq_mod)

text \<open>Go's integer division truncates towards zero.\<close>

definition go_div :: "int \<Rightarrow> int \<Rightarrow> int" where
  "go_div a b = sgn a * sgn b * (\<bar>a\<bar> div \<bar>b\<bar>)"

lemma go_div_nonneg [simp]: "0 \<le> a \<Longrightarrow> 0 < b \<Longrightarrow> go_div a b = a div b"
  by (cases "a = 0") (simp_all add: go_div_def)

text \<open>\<open>Time.Sub\<close> and \<open>time.Until\<close> saturate at the ends of the 64-bit range.\<close>

definition time_sub :: "time \<Rightarrow> time \<Rightarrow> duration" where
  "time_sub t u = max (- (2 ^ 63)) (min (2 ^ 63 - 1) (t - u))"

lemma time_sub_int64 [simp]: "int64 (time_sub t u)"
  by (simp add: time_sub_def int64_def)

definition second :: duration where "second = 1000000000"
definition minute :: duration where "minute = 60 * second"
definition hour :: duration where "hour = 60 * minute"

lemmas duration_defs = second_def minute_def hour_def

text \<open>Seconds beyond 64 bits of nanoseconds (292 to 584 years) wrap to a negative duration.\<close>

lemma wrap64_over:
  assumes "2 ^ 63 \<le> x" and "x < 2 ^ 63 + 2 ^ 64"
  shows "wrap64 x = x - 2 ^ 64"
proof -
  have "(x + 2 ^ 63) mod 2 ^ 64 = ((x + 2 ^ 63 - 2 ^ 64) + 2 ^ 64) mod 2 ^ 64"
    by (simp add: algebra_simps)
  also have "\<dots> = (x + 2 ^ 63 - 2 ^ 64) mod 2 ^ 64" by (rule mod_add_self2)
  also have "\<dots> = x + 2 ^ 63 - 2 ^ 64"
    using assms by (intro mod_pos_pos_trivial) simp_all
  finally show ?thesis unfolding wrap64_def by simp
qed

lemma wrap64_seconds:
  assumes "9223372037 \<le> n" and "n \<le> 18446744073"
  shows "wrap64 (n * second) < 0"
  using assms wrap64_over [of "n * second"] by (simp add: second_def)

section \<open>HTTP headers\<close>

text \<open>
  \<open>http.Header\<close> is a map from canonical names to value lists; the model keeps it as an
  association list. \<open>Get\<close> returns the first value, or the empty string.
\<close>

type_synonym header = "(string \<times> string list) list"

definition header_get :: "header \<Rightarrow> string \<Rightarrow> string" where
  "header_get h k = (case map_of h k of Some (v # _) \<Rightarrow> v | _ \<Rightarrow> [])"

definition header_set :: "header \<Rightarrow> string \<Rightarrow> string \<Rightarrow> header" where
  "header_set h k v = AList.update k [v] h"

definition header_del :: "header \<Rightarrow> string \<Rightarrow> header" where
  "header_del h k = AList.delete k h"

lemma header_get_set [simp]:
  "header_get (header_set h k v) k' = (if k' = k then v else header_get h k')"
  by (simp add: header_get_def header_set_def update_conv')

lemma header_get_del [simp]:
  "header_get (header_del h k) k' = (if k' = k then [] else header_get h k')"
  by (simp add: header_get_def header_del_def delete_conv')

section \<open>Lists\<close>

lemma filter_neq_inj:
  assumes "distinct (map f xs)" and "x \<in> set xs"
  shows "filter (\<lambda>y. f y \<noteq> f x) xs = filter (\<lambda>y. y \<noteq> x) xs"
proof (rule filter_cong [OF refl])
  fix y assume "y \<in> set xs"
  with assms show "(f y \<noteq> f x) = (y \<noteq> x)"
    by (auto simp: distinct_map dest: inj_onD)
qed

lemma filter_neq_absent [simp]: "x \<notin> set xs \<Longrightarrow> filter (\<lambda>y. y \<noteq> x) xs = xs"
  by (induction xs) auto

lemma length_remove1_Suc: "x \<in> set xs \<Longrightarrow> Suc (length (remove1 x xs)) = length xs"
  by (induction xs) auto

lemma distinct_map_remove1: "distinct (map f xs) \<Longrightarrow> distinct (map f (remove1 x xs))"
  using set_remove1_subset [of x] by (induction xs) auto

lemma sum_list_filter_neq:
  fixes g :: "'a \<Rightarrow> int"
  assumes "distinct xs" and "x \<in> set xs"
  shows "sum_list (map g (filter (\<lambda>y. y \<noteq> x) xs)) = sum_list (map g xs) - g x"
  using assms by (induction xs) auto

lemma length_filter_neq:
  assumes "distinct xs" and "x \<in> set xs"
  shows "int (length (filter (\<lambda>y. y \<noteq> x) xs)) = int (length xs) - 1"
  using assms by (induction xs) auto

lemma sum_list_take_mono:
  fixes xs :: "int list"
  assumes "\<And>x. x \<in> set xs \<Longrightarrow> 0 \<le> x" and "m \<le> n"
  shows "sum_list (take m xs) \<le> sum_list (take n xs)"
proof -
  have "take n xs = take m xs @ take (n - m) (drop m xs)"
    using assms(2) by (metis le_add_diff_inverse take_add)
  moreover have "0 \<le> sum_list (take (n - m) (drop m xs))"
    by (intro sum_list_nonneg) (use assms(1) in \<open>auto dest: in_set_takeD in_set_dropD\<close>)
  ultimately show ?thesis by simp
qed

lemma sum_fun_upd:
  fixes g :: "'a \<Rightarrow> int" and i n :: nat
  assumes "i < n"
  shows "(\<Sum>j<n. g ((f(i := x)) j)) = (\<Sum>j<n. g (f j)) - g (f i) + g x"
proof -
  have *: "{..<n} = insert i ({..<n} - {i})" using assms by auto
  have "(\<Sum>j<n. g ((f(i := x)) j)) = g x + (\<Sum>j\<in>{..<n} - {i}. g (f j))"
    by (subst *, subst sum.insert) auto
  moreover have "(\<Sum>j<n. g (f j)) = g (f i) + (\<Sum>j\<in>{..<n} - {i}. g (f j))"
    by (subst *, subst sum.insert) auto
  ultimately show ?thesis by simp
qed

section \<open>Systems of steps\<close>

text \<open>
  What a component owes for its invariant to hold in every reachable state: each step keeps it.
  A component of which something only grows also says in which order.
\<close>

locale step_invariant =
  fixes step :: "'s \<Rightarrow> 's \<Rightarrow> bool"
    and inv :: "'s \<Rightarrow> bool"
  assumes step_inv: "step s s' \<Longrightarrow> inv s \<Longrightarrow> inv s'"
begin

lemma steps_inv: "step\<^sup>*\<^sup>* s s' \<Longrightarrow> inv s \<Longrightarrow> inv s'"
  by (induction rule: rtranclp_induct) (auto intro: step_inv)

end

locale growing_steps = step_invariant step inv
  for step :: "'s \<Rightarrow> 's \<Rightarrow> bool" and inv :: "'s \<Rightarrow> bool" +
  fixes le :: "'s \<Rightarrow> 's \<Rightarrow> bool"
  assumes step_le: "step s s' \<Longrightarrow> inv s \<Longrightarrow> le s s'"
    and le_refl: "le s s"
    and le_trans: "le s s' \<Longrightarrow> le s' s'' \<Longrightarrow> le s s''"
begin

lemma steps_le:
  assumes "step\<^sup>*\<^sup>* s s'" and "inv s"
  shows "le s s'"
  using assms
proof (induction rule: rtranclp_induct)
  case base
  show ?case by (rule le_refl)
next
  case (step y z)
  have "inv y" using step.hyps(1) step.prems by (rule steps_inv)
  then show ?case using step.IH [OF step.prems] step_le [OF step.hyps(2)] by (blast intro: le_trans)
qed

end

end
