(* ===== verification/CacheKey.thy ===== *)
theory CacheKey
  imports GoStrings
begin

text \<open>
  \<open>internal/cache/cache.go\<close>: how a request becomes a cache key (\<open>Key\<close>) and a key selects its
  shard (\<open>shardFor\<close>, \<open>hexByte\<close>). SHA-256 is an argument \<open>sha\<close> of the model: the only fact used
  of it is that the inputs at hand do not collide. Indexing outside the key or the shard array,
  a run-time panic in Go, is \<open>None\<close>.
\<close>

unbundle bit_operations_syntax

definition shardCount :: nat where
  "shardCount = 256"

section \<open>Hexadecimal encoding\<close>

definition hex_digit :: "nat \<Rightarrow> char" where
  "hex_digit n = (if n < 10 then char_of (48 + n) else char_of (87 + n))"

definition hex_encode :: "bytes \<Rightarrow> string" where
  "hex_encode bs = concat (map (\<lambda>b. [hex_digit (byte b div 16), hex_digit (byte b mod 16)]) bs)"

definition hexByte :: "char \<Rightarrow> nat" where
  "hexByte b = (if 97 \<le> byte b then (byte b - 97) + 10 else (byte b + 256 - 48) mod 256)"

lemma byte_char_of [simp]: "n < 256 \<Longrightarrow> byte (char_of n :: char) = n"
  by (simp add: of_char_of take_bit_eq_mod)

lemma byte_less_256 [simp]: "byte c < 256"
  by (simp add: nat_of_char_less_256)

lemma hexByte_digit [simp]: "n < 16 \<Longrightarrow> hexByte (hex_digit n) = n"
  by (simp add: hexByte_def hex_digit_def)

lemma hex_encode_Cons:
  "hex_encode (b # bs) = hex_digit (byte b div 16) # hex_digit (byte b mod 16) # hex_encode bs"
  by (simp add: hex_encode_def)

lemma hexByte_div [simp]: "hexByte (hex_digit (byte b div 16)) = byte b div 16"
  by (rule hexByte_digit) (use byte_less_256 [of b] in linarith)

lemma hexByte_mod [simp]: "hexByte (hex_digit (byte b mod 16)) = byte b mod 16"
  by (rule hexByte_digit) simp

lemma hex_pair_inj:
  assumes "hex_digit (byte b div 16) = hex_digit (byte c div 16)"
    and "hex_digit (byte b mod 16) = hex_digit (byte c mod 16)"
  shows "b = c"
proof -
  have "byte b div 16 = byte c div 16" "byte b mod 16 = byte c mod 16"
    using arg_cong [OF assms(1), of hexByte] arg_cong [OF assms(2), of hexByte]
    by (simp_all only: hexByte_div hexByte_mod)
  then have "byte b = byte c" by (metis div_mult_mod_eq)
  then show ?thesis by simp
qed

lemma hex_encode_inj: "hex_encode bs = hex_encode cs \<Longrightarrow> bs = cs"
proof (induction bs arbitrary: cs)
  case Nil
  then show ?case by (cases cs) (simp_all add: hex_encode_def)
next
  case (Cons b bs)
  then obtain c cs' where cs: "cs = c # cs'" by (cases cs) (simp_all add: hex_encode_def)
  from Cons.prems have *: "hex_digit (byte b div 16) = hex_digit (byte c div 16)"
      "hex_digit (byte b mod 16) = hex_digit (byte c mod 16)" "hex_encode bs = hex_encode cs'"
    unfolding cs hex_encode_Cons list.inject by blast+
  then have "b = c" by (blast intro: hex_pair_inj)
  moreover have "bs = cs'" using *(3) by (rule Cons.IH)
  ultimately show ?case by (simp add: cs)
qed

section \<open>Keys\<close>

definition key_preimage :: "string \<Rightarrow> string \<Rightarrow> string \<Rightarrow> string \<Rightarrow> bytes" where
  "key_preimage host method uri acceptEncoding =
     host @ [CHR 0x00] @ method @ [CHR 0x00] @ uri @ [CHR 0x00] @ acceptEncoding"

definition Key :: "(bytes \<Rightarrow> bytes) \<Rightarrow> string \<Rightarrow> string \<Rightarrow> string \<Rightarrow> string \<Rightarrow> string" where
  "Key sha host method uri acceptEncoding =
     hex_encode (sha (key_preimage host method uri acceptEncoding))"

lemma append_sep_inj:
  fixes c :: char
  assumes "c \<notin> set a" and "c \<notin> set a'" and "a @ c # b = a' @ c # b'"
  shows "a = a' \<and> b = b'"
proof -
  have "cut c (a @ c # b) = cut c (a' @ c # b')" by (rule arg_cong [OF assms(3)])
  then show ?thesis
    unfolding cut_append [OF assms(1)] cut_append [OF assms(2)] by blast
qed

lemma key_preimage_inj:
  assumes "CHR 0x00 \<notin> set host \<union> set method \<union> set uri"
    and "CHR 0x00 \<notin> set host' \<union> set method' \<union> set uri'"
    and "key_preimage host method uri enc = key_preimage host' method' uri' enc'"
  shows "host = host' \<and> method = method' \<and> uri = uri' \<and> enc = enc'"
proof -
  have nul: "CHR 0x00 \<notin> set host" "CHR 0x00 \<notin> set method" "CHR 0x00 \<notin> set uri"
      "CHR 0x00 \<notin> set host'" "CHR 0x00 \<notin> set method'" "CHR 0x00 \<notin> set uri'"
    using assms(1,2) by blast+
  have "host @ CHR 0x00 # method @ CHR 0x00 # uri @ CHR 0x00 # enc =
      host' @ CHR 0x00 # method' @ CHR 0x00 # uri' @ CHR 0x00 # enc'"
    using assms(3) unfolding key_preimage_def append_Cons append_Nil .
  from append_sep_inj [OF nul(1,4) this] have host: "host = host'"
    and rest: "method @ CHR 0x00 # uri @ CHR 0x00 # enc = method' @ CHR 0x00 # uri' @ CHR 0x00 # enc'"
    by blast+
  from append_sep_inj [OF nul(2,5) rest] have meth: "method = method'"
    and rest: "uri @ CHR 0x00 # enc = uri' @ CHR 0x00 # enc'"
    by blast+
  from append_sep_inj [OF nul(3,6) rest] host meth show ?thesis by blast
qed

section \<open>Shards\<close>

definition shardFor :: "string \<Rightarrow> nat option" where
  "shardFor key =
     (case key of
        a # b # _ \<Rightarrow>
          (let i = push_bit 4 (hexByte a) OR hexByte b
           in if i < shardCount then Some i else None)
      | _ \<Rightarrow> None)"

lemma nibbles_join: "a < 16 \<Longrightarrow> b < 16 \<Longrightarrow> push_bit 4 a OR b = 16 * a + (b :: nat)"
proof -
  assume "a < 16" "b < 16"
  moreover have "\<forall>a \<in> set [0..<16]. \<forall>b \<in> set [0..<16]. push_bit 4 a OR b = 16 * a + (b :: nat)"
    by code_simp
  ultimately show ?thesis by simp
qed

lemma shardFor_hex: "shardFor (hex_encode (b # bs)) = Some (byte b)"
  using byte_less_256 [of b]
  by (simp add: shardFor_def hex_encode_Cons nibbles_join shardCount_def less_mult_imp_div_less)

lemma shardFor_less: "shardFor key = Some i \<Longrightarrow> i < shardCount"
  by (auto simp: shardFor_def Let_def split: list.splits if_splits)

end
