(* ===== verification/Cache.thy ===== *)
theory Cache
  imports CacheKey
begin

text \<open>
  \<open>internal/cache/cache.go\<close>: the sharded, byte-accounted LRU cache. The state keeps both
  structures of a shard, the map \<open>items\<close> and the recency list \<open>lru\<close>, as the code does. An entry
  is known by its pointer, so that \<open>list.Remove\<close> and the comparison with \<open>protect\<close> go by
  identity. Every operation is the sequence of steps of its Go method, and the counters move at
  the same places. The clock is the argument \<open>now\<close>.
\<close>

section \<open>Objects\<close>

record object =
  o_status :: int
  o_header :: header
  o_body :: bytes
  o_storedAt :: time
  o_ttl :: duration
  o_staleFor :: duration

datatype freshness = Miss | Fresh | Stale

definition Object_Expired :: "object \<Rightarrow> time \<Rightarrow> bool" where
  "Object_Expired obj now \<longleftrightarrow> now > o_storedAt obj + o_ttl obj"

definition Object_evictable :: "object \<Rightarrow> time \<Rightarrow> bool" where
  "Object_evictable obj now \<longleftrightarrow> now > o_storedAt obj + wrap64 (o_ttl obj + o_staleFor obj)"

definition Object_Age :: "object \<Rightarrow> time \<Rightarrow> duration" where
  "Object_Age obj now = time_sub now (o_storedAt obj)"

definition header_size :: "header \<Rightarrow> int" where
  "header_size h =
     (\<Sum>(k, vs) \<leftarrow> h. int (length k) + (\<Sum>v \<leftarrow> vs. int (length v)))"

definition Object_size :: "object \<Rightarrow> int" where
  "Object_size obj = int (length (o_body obj)) + 256 + header_size (o_header obj)"

lemma header_size_nonneg: "0 \<le> header_size h"
  unfolding header_size_def by (intro sum_list_nonneg) (auto intro!: add_nonneg_nonneg sum_list_nonneg)

lemma Object_size_ge: "256 \<le> Object_size obj"
  by (simp add: Object_size_def header_size_nonneg)

section \<open>State\<close>

record entry =
  e_ptr :: nat
  e_key :: string
  e_obj :: object
  e_size :: int

record shard =
  s_items :: "string \<Rightarrow> entry option"
  s_lru :: "entry list"
  s_bytes :: int

record cache =
  c_shards :: "nat \<Rightarrow> shard"
  c_budget :: int
  c_entries :: int
  c_bytes :: int
  c_hits :: "64 word"
  c_misses :: "64 word"
  c_evictions :: "64 word"
  c_next :: nat

record stats =
  st_entries :: int
  st_bytes :: int
  st_budget :: int
  st_hits :: "64 word"
  st_misses :: "64 word"
  st_evictions :: "64 word"

definition empty_shard :: shard where
  "empty_shard = \<lparr>s_items = (\<lambda>_. None), s_lru = [], s_bytes = 0\<rparr>"

definition Cache_New :: "int \<Rightarrow> cache" where
  "Cache_New b =
     \<lparr>c_shards = (\<lambda>_. empty_shard), c_budget = b, c_entries = 0, c_bytes = 0,
      c_hits = 0, c_misses = 0, c_evictions = 0, c_next = 0\<rparr>"

definition Cache_Budget :: "cache \<Rightarrow> int" where
  "Cache_Budget c = c_budget c"

definition Cache_Stats :: "cache \<Rightarrow> stats" where
  "Cache_Stats c =
     \<lparr>st_entries = c_entries c, st_bytes = c_bytes c, st_budget = c_budget c,
      st_hits = c_hits c, st_misses = c_misses c, st_evictions = c_evictions c\<rparr>"

definition put_shard :: "nat \<Rightarrow> shard \<Rightarrow> cache \<Rightarrow> cache" where
  "put_shard i s c = c\<lparr>c_shards := (c_shards c)(i := s)\<rparr>"

text \<open>The paired updates \<open>c.entries.Add(-1); c.bytes.Add(-e.size)\<close> of the code.\<close>

definition uncount :: "entry \<Rightarrow> cache \<Rightarrow> cache" where
  "uncount e c = c\<lparr>c_entries := c_entries c - 1, c_bytes := c_bytes c - e_size e\<rparr>"

section \<open>Operations\<close>

definition removeLocked :: "shard \<Rightarrow> entry \<Rightarrow> shard" where
  "removeLocked s e =
     s\<lparr>s_items := (s_items s)(e_key e := None),
       s_lru := filter (\<lambda>x. e_ptr x \<noteq> e_ptr e) (s_lru s),
       s_bytes := s_bytes s - e_size e\<rparr>"

definition moveToFront :: "shard \<Rightarrow> entry \<Rightarrow> shard" where
  "moveToFront s e = s\<lparr>s_lru := e # filter (\<lambda>x. e_ptr x \<noteq> e_ptr e) (s_lru s)\<rparr>"

function evictOverLocked :: "cache \<Rightarrow> nat \<Rightarrow> int \<Rightarrow> nat option \<Rightarrow> cache" where
  "evictOverLocked c i shardBudget protect =
     (let s = c_shards c i in
      if s_bytes s > shardBudget then
        (if s_lru s = [] then c
         else let e = last (s_lru s) in
           if protect = Some (e_ptr e) then c
           else
             let c1 = uncount e (put_shard i (removeLocked s e) c);
                 c2 = c1\<lparr>c_evictions := c_evictions c1 + 1\<rparr>
             in evictOverLocked c2 i shardBudget protect)
      else c)"
  by pat_completeness auto
termination
proof (relation "measure (\<lambda>(c, i, _, _). length (s_lru (c_shards c i)))", goal_cases)
  case (2 c i b p s e c1 c2)
  have "length (filter (\<lambda>x. e_ptr x \<noteq> e_ptr e) (s_lru s)) < length (s_lru s)"
    by (rule length_filter_less [of e]) (use 2 in auto)
  with 2 show ?case by (simp add: uncount_def put_shard_def removeLocked_def)
qed simp

declare evictOverLocked.simps [simp del]

definition Cache_Get :: "cache \<Rightarrow> string \<Rightarrow> time \<Rightarrow> (cache \<times> object option \<times> freshness) option" where
  "Cache_Get c key now =
     (case shardFor key of
        None \<Rightarrow> None
      | Some i \<Rightarrow>
          (let s = c_shards c i in
           case s_items s key of
             None \<Rightarrow> Some (c\<lparr>c_misses := c_misses c + 1\<rparr>, None, Miss)
           | Some e \<Rightarrow>
               if Object_evictable (e_obj e) now then
                 let c1 = uncount e (put_shard i (removeLocked s e) c)
                 in Some (c1\<lparr>c_misses := c_misses c1 + 1\<rparr>, None, Miss)
               else
                 let c1 = put_shard i (moveToFront s e) c;
                     c2 = c1\<lparr>c_hits := c_hits c1 + 1\<rparr>
                 in Some (c2, Some (e_obj e), if Object_Expired (e_obj e) now then Stale else Fresh)))"

definition Cache_Set :: "cache \<Rightarrow> string \<Rightarrow> object \<Rightarrow> cache option" where
  "Cache_Set c key obj =
     (let size = Object_size obj; budget = c_budget c in
      if budget \<le> 0 \<or> size > budget then Some c
      else
        let shardBudget = go_div budget (int shardCount) in
        case shardFor key of
          None \<Rightarrow> None
        | Some i \<Rightarrow>
            (let s = c_shards c i;
                 c1 = (case s_items s key of
                         None \<Rightarrow> c
                       | Some old \<Rightarrow> uncount old (put_shard i (removeLocked s old) c));
                 e = \<lparr>e_ptr = c_next c1, e_key = key, e_obj = obj, e_size = size\<rparr>;
                 s1 = c_shards c1 i;
                 s2 = s1\<lparr>s_lru := e # s_lru s1, s_items := (s_items s1)(key \<mapsto> e),
                         s_bytes := s_bytes s1 + size\<rparr>;
                 c2 = (put_shard i s2 c1)
                        \<lparr>c_next := Suc (c_next c1), c_entries := c_entries c1 + 1,
                         c_bytes := c_bytes c1 + size\<rparr>
             in Some (evictOverLocked c2 i shardBudget (Some (e_ptr e)))))"

definition Cache_Delete :: "cache \<Rightarrow> string \<Rightarrow> cache option" where
  "Cache_Delete c key =
     (case shardFor key of
        None \<Rightarrow> None
      | Some i \<Rightarrow>
          (let s = c_shards c i in
           case s_items s key of
             None \<Rightarrow> Some c
           | Some e \<Rightarrow> Some (uncount e (put_shard i (removeLocked s e) c))))"

definition Cache_SetBudget :: "cache \<Rightarrow> int \<Rightarrow> cache" where
  "Cache_SetBudget c b =
     (let budget = (if b < 0 then 0 else b);
          shardBudget = go_div budget (int shardCount)
      in foldl (\<lambda>c i. evictOverLocked c i shardBudget None)
           (c\<lparr>c_budget := budget\<rparr>) [0..<shardCount])"

end
