(* ===== verification/CacheInv.thy ===== *)
theory CacheInv
  imports Cache
begin

text \<open>
  What keeps the cache consistent. A well-formed shard is determined by its recency list
  (\<open>mk_shard\<close>): the map holds exactly the listed entries, the byte count is the sum of their
  sizes, and pointers and keys are unique. \<open>cache_wf\<close> adds that every entry sits in the shard
  its key selects and that the global counters are the totals over the shards.

  The eviction loop has a closed form (\<open>evict_closed\<close>): it keeps the longest prefix of the
  recency list that fits the share (\<open>fit\<close>), and the protected entry in any case.
\<close>

section \<open>Well-formed shards\<close>

definition items_of :: "entry list \<Rightarrow> string \<Rightarrow> entry option" where
  "items_of l = map_of (map (\<lambda>e. (e_key e, e)) l)"

definition total_size :: "entry list \<Rightarrow> int" where
  "total_size l = sum_list (map e_size l)"

definition mk_shard :: "entry list \<Rightarrow> shard" where
  "mk_shard l = \<lparr>s_items = items_of l, s_lru = l, s_bytes = total_size l\<rparr>"

definition lru_ok :: "entry list \<Rightarrow> bool" where
  "lru_ok l \<longleftrightarrow> distinct (map e_ptr l) \<and> distinct (map e_key l) \<and>
     (\<forall>e \<in> set l. e_size e = Object_size (e_obj e))"

definition shard_wf :: "nat \<Rightarrow> nat \<Rightarrow> shard \<Rightarrow> bool" where
  "shard_wf i n s \<longleftrightarrow> s = mk_shard (s_lru s) \<and> lru_ok (s_lru s) \<and>
     (\<forall>e \<in> set (s_lru s). shardFor (e_key e) = Some i \<and> e_ptr e < n)"

definition cache_wf :: "cache \<Rightarrow> bool" where
  "cache_wf c \<longleftrightarrow>
     (\<forall>i < shardCount. shard_wf i (c_next c) (c_shards c i)) \<and>
     c_entries c = (\<Sum>i < shardCount. int (length (s_lru (c_shards c i)))) \<and>
     c_bytes c = (\<Sum>i < shardCount. s_bytes (c_shards c i))"

lemma mk_shard_simps [simp]:
  "s_items (mk_shard l) = items_of l" "s_lru (mk_shard l) = l" "s_bytes (mk_shard l) = total_size l"
  by (simp_all add: mk_shard_def)

lemma mk_shard_Nil: "mk_shard [] = empty_shard"
  by (simp add: mk_shard_def empty_shard_def items_of_def total_size_def)

lemma total_size_simps [simp]:
  "total_size [] = 0" "total_size (e # l) = e_size e + total_size l"
  "total_size (l @ l') = total_size l + total_size l'"
  by (simp_all add: total_size_def)

lemma lru_ok_Nil [simp]: "lru_ok []"
  by (simp add: lru_ok_def)

lemma lru_ok_size: "lru_ok l \<Longrightarrow> e \<in> set l \<Longrightarrow> 0 < e_size e"
  using Object_size_ge [of "e_obj e"] by (auto simp: lru_ok_def)

lemma lru_ok_appendD: "lru_ok (l @ l') \<Longrightarrow> lru_ok l"
  by (auto simp: lru_ok_def)

lemma lru_ok_distinct: "lru_ok l \<Longrightarrow> distinct l"
  by (auto simp: lru_ok_def distinct_map)

lemma total_size_nonneg: "lru_ok l \<Longrightarrow> 0 \<le> total_size l"
  unfolding total_size_def by (intro sum_list_nonneg) (auto dest: lru_ok_size)

lemma total_size_member: "lru_ok l \<Longrightarrow> e \<in> set l \<Longrightarrow> e_size e \<le> total_size l"
  unfolding total_size_def
  by (rule member_le_sum_list) (auto dest: lru_ok_size intro: less_imp_le)

lemma items_of_Some:
  "lru_ok l \<Longrightarrow> items_of l k = Some e \<longleftrightarrow> e \<in> set l \<and> e_key e = k"
  by (auto simp: items_of_def lru_ok_def comp_def map_of_eq_Some_iff)

lemma items_of_None: "items_of l k = None \<longleftrightarrow> k \<notin> e_key ` set l"
  by (auto simp: items_of_def map_of_eq_None_iff image_iff)

section \<open>Removing an entry\<close>

abbreviation drop_entry :: "entry \<Rightarrow> entry list \<Rightarrow> entry list" where
  "drop_entry e l \<equiv> filter (\<lambda>x. x \<noteq> e) l"

lemma lru_ok_filter: "lru_ok l \<Longrightarrow> lru_ok (filter P l)"
  by (auto simp: lru_ok_def distinct_map inj_on_def)

lemma filter_ptr: "lru_ok l \<Longrightarrow> e \<in> set l \<Longrightarrow> filter (\<lambda>x. e_ptr x \<noteq> e_ptr e) l = drop_entry e l"
  by (rule filter_neq_inj) (auto simp: lru_ok_def)

lemma total_size_drop:
  "lru_ok l \<Longrightarrow> e \<in> set l \<Longrightarrow> total_size (drop_entry e l) = total_size l - e_size e"
  unfolding total_size_def by (rule sum_list_filter_neq) (auto dest: lru_ok_distinct)

lemma length_drop:
  "lru_ok l \<Longrightarrow> e \<in> set l \<Longrightarrow> int (length (drop_entry e l)) = int (length l) - 1"
  by (rule length_filter_neq) (auto dest: lru_ok_distinct)

lemma items_of_drop:
  assumes "lru_ok l" and "e \<in> set l"
  shows "items_of (drop_entry e l) = (items_of l)(e_key e := None)"
proof
  fix k
  note ok = lru_ok_filter [OF assms(1), of "\<lambda>x. x \<noteq> e"]
  show "items_of (drop_entry e l) k = ((items_of l)(e_key e := None)) k"
  proof (cases "k = e_key e")
    case True
    with assms have "k \<notin> e_key ` set (drop_entry e l)"
      by (auto simp: lru_ok_def distinct_map dest: inj_onD)
    with True show ?thesis by (simp add: items_of_None [THEN iffD2])
  next
    case False
    have "items_of (drop_entry e l) k = Some x \<longleftrightarrow> items_of l k = Some x" for x
      using False by (auto simp: items_of_Some [OF ok] items_of_Some [OF assms(1)])
    with False show ?thesis by (metis fun_upd_other not_None_eq)
  qed
qed

lemma removeLocked_mk:
  "lru_ok l \<Longrightarrow> e \<in> set l \<Longrightarrow> removeLocked (mk_shard l) e = mk_shard (drop_entry e l)"
  by (simp add: removeLocked_def mk_shard_def items_of_drop total_size_drop filter_ptr)

lemma lru_ok_front:
  "lru_ok l \<Longrightarrow> e \<in> set l \<Longrightarrow> lru_ok (e # drop_entry e l)"
  by (auto simp: lru_ok_def distinct_map inj_on_def)

lemma moveToFront_mk:
  assumes "lru_ok l" and "e \<in> set l"
  shows "moveToFront (mk_shard l) e = mk_shard (e # drop_entry e l)"
proof -
  have "items_of (e # drop_entry e l) = (items_of (drop_entry e l))(e_key e \<mapsto> e)"
    by (simp add: items_of_def)
  also have "\<dots> = (items_of l)(e_key e \<mapsto> e)"
    using assms by (simp add: items_of_drop)
  also have "\<dots> = items_of l"
    using assms by (intro fun_upd_idem) (simp add: items_of_Some)
  finally show ?thesis
    using assms by (simp add: moveToFront_def mk_shard_def filter_ptr total_size_drop)
qed

section \<open>The eviction loop\<close>

text \<open>The entries that stay: in recency order, as long as they fit.\<close>

primrec fit :: "int \<Rightarrow> entry list \<Rightarrow> entry list" where
  "fit sb [] = []"
| "fit sb (e # l) = (if e_size e \<le> sb then e # fit (sb - e_size e) l else [])"

definition kept :: "int \<Rightarrow> nat option \<Rightarrow> entry list \<Rightarrow> entry list" where
  "kept sb p l =
     (case l of
        [] \<Rightarrow> []
      | e # l' \<Rightarrow> if p = Some (e_ptr e) then e # fit (sb - e_size e) l' else fit sb l)"

lemma fit_all: "lru_ok l \<Longrightarrow> total_size l \<le> sb \<Longrightarrow> fit sb l = l"
proof (induction l arbitrary: sb)
  case (Cons e l)
  have "lru_ok l" using Cons.prems(1) by (auto simp: lru_ok_def)
  with Cons show ?case using total_size_nonneg [of l] by auto
qed simp

lemma fit_snoc: "lru_ok (l @ [e]) \<Longrightarrow> sb < total_size (l @ [e]) \<Longrightarrow> fit sb (l @ [e]) = fit sb l"
  by (induction l arbitrary: sb) (auto simp: lru_ok_def)

lemma fit_prefix: "\<exists>n. fit sb l = take n l"
proof (induction l arbitrary: sb)
  case (Cons e l)
  then obtain n where n: "fit (sb - e_size e) l = take n l" by blast
  show ?case
  proof (cases "e_size e \<le> sb")
    case True
    with n have "fit sb (e # l) = take (Suc n) (e # l)" by simp
    then show ?thesis by blast
  next
    case False
    then have "fit sb (e # l) = take 0 (e # l)" by simp
    then show ?thesis by blast
  qed
qed simp

lemma fit_total: "0 \<le> sb \<Longrightarrow> total_size (fit sb l) \<le> sb"
proof (induction l arbitrary: sb)
  case (Cons e l)
  have "e_size e \<le> sb \<Longrightarrow> total_size (fit (sb - e_size e) l) \<le> sb - e_size e"
    by (rule Cons.IH) simp
  then show ?case using Cons.prems by auto
qed simp

lemma fit_negative: "lru_ok l \<Longrightarrow> sb \<le> 0 \<Longrightarrow> fit sb l = []"
  by (cases l) (auto dest: lru_ok_size [of _ "hd l"])

lemma fit_longest:
  "lru_ok l \<Longrightarrow> length (fit sb l) < n \<Longrightarrow> n \<le> length l \<Longrightarrow> sb < total_size (take n l)"
proof (induction l arbitrary: sb n)
  case (Cons e l)
  have ok: "lru_ok l" using Cons.prems(1) by (auto simp: lru_ok_def)
  from Cons.prems obtain m where n: "n = Suc m" by (cases n) auto
  show ?case
  proof (cases "e_size e \<le> sb")
    case True
    then have "sb - e_size e < total_size (take m l)"
      using Cons.prems n ok by (intro Cons.IH) auto
    then show ?thesis by (simp add: n)
  next
    case False
    have "0 \<le> total_size (take m l)"
      using lru_ok_appendD [of "take m l" "drop m l"] ok by (intro total_size_nonneg) simp
    with False show ?thesis by (simp add: n)
  qed
qed simp

lemma kept_all: "lru_ok l \<Longrightarrow> total_size l \<le> sb \<Longrightarrow> kept sb p l = l"
proof (cases l)
  case (Cons e l')
  assume *: "lru_ok l" "total_size l \<le> sb"
  then have "lru_ok l'" using Cons by (auto simp: lru_ok_def)
  with * Cons show ?thesis using fit_all [of l' "sb - e_size e"] fit_all [of l sb]
    by (simp add: kept_def)
qed (simp add: kept_def)

lemma kept_snoc:
  assumes "lru_ok (l @ [e])" and "sb < total_size (l @ [e])" and "p \<noteq> Some (e_ptr e)"
  shows "kept sb p (l @ [e]) = kept sb p l"
proof (cases l)
  case Nil
  with assms show ?thesis by (auto simp: kept_def)
next
  case (Cons x l')
  have "lru_ok (l' @ [e])" using assms(1) Cons by (auto simp: lru_ok_def)
  then have "fit (sb - e_size x) (l' @ [e]) = fit (sb - e_size x) l'"
    using assms(2) Cons by (intro fit_snoc) auto
  moreover have "fit sb (l @ [e]) = fit sb l" using assms by (intro fit_snoc) auto
  ultimately show ?thesis by (simp add: kept_def Cons)
qed

lemma kept_protected:
  assumes "lru_ok (l @ [e])" and "p = Some (e_ptr e)" and "p = None \<or> p = Some (e_ptr (hd (l @ [e])))"
  shows "l = []"
  using assms by (cases l) (auto simp: lru_ok_def)

lemma kept_prefix: "\<exists>n. kept sb p l = take n l"
proof (cases l)
  case (Cons e l')
  obtain n where n: "fit (sb - e_size e) l' = take n l'" using fit_prefix by blast
  show ?thesis
  proof (cases "p = Some (e_ptr e)")
    case True
    with n Cons have "kept sb p l = take (Suc n) l" by (simp add: kept_def)
    then show ?thesis by blast
  next
    case False
    with Cons fit_prefix [of sb l] show ?thesis by (simp add: kept_def)
  qed
qed (simp add: kept_def)

definition shrink_to :: "nat \<Rightarrow> entry list \<Rightarrow> cache \<Rightarrow> cache" where
  "shrink_to i k c =
     (let l = s_lru (c_shards c i) in
      (put_shard i (mk_shard k) c)
        \<lparr>c_entries := c_entries c - (int (length l) - int (length k)),
         c_bytes := c_bytes c - (total_size l - total_size k),
         c_evictions := c_evictions c + of_nat (length l - length k)\<rparr>)"

lemma evict_closed:
  assumes "c_shards c i = mk_shard l" and "lru_ok l"
    and "l = [] \<or> p = None \<or> p = Some (e_ptr (hd l))"
  shows "evictOverLocked c i sb p = shrink_to i (kept sb p l) c"
  using assms
proof (induction l arbitrary: c rule: rev_induct)
  case Nil
  then have "shrink_to i [] c = c"
    by (simp add: shrink_to_def put_shard_def fun_upd_idem)
  with Nil show ?case by (simp add: evictOverLocked.simps [of c] kept_def Let_def)
next
  case (snoc e l)
  note ok = \<open>lru_ok (l @ [e])\<close> and sh = \<open>c_shards c i = mk_shard (l @ [e])\<close>
  have triv: "shrink_to i (l @ [e]) c = c"
    by (simp add: shrink_to_def put_shard_def sh fun_upd_idem)
  consider (fits) "total_size (l @ [e]) \<le> sb"
    | (stop) "sb < total_size (l @ [e])" "p = Some (e_ptr e)"
    | (evict) "sb < total_size (l @ [e])" "p \<noteq> Some (e_ptr e)" by linarith
  then show ?case
  proof cases
    case fits
    with ok triv show ?thesis
      by (simp add: evictOverLocked.simps [of c] sh kept_all)
  next
    case stop
    with ok snoc.prems(3) have "l = []" by (intro kept_protected) auto
    with stop triv show ?thesis
      by (simp add: evictOverLocked.simps [of c] sh kept_def)
  next
    case evict
    have notin: "drop_entry e (l @ [e]) = l"
      using lru_ok_distinct [OF ok] by simp
    define c1 where "c1 = uncount e (put_shard i (mk_shard l) c)"
    define c2 where "c2 = c1\<lparr>c_evictions := c_evictions c1 + 1\<rparr>"
    have sh2: "c_shards c2 i = mk_shard l"
      by (simp add: c2_def c1_def uncount_def put_shard_def)
    have "evictOverLocked c i sb p = evictOverLocked c2 i sb p"
      using evict removeLocked_mk [OF ok, of e] notin
      by (simp add: evictOverLocked.simps [of c] sh c2_def c1_def Let_def)
    also have "\<dots> = shrink_to i (kept sb p l) c2"
      using snoc.prems(3) evict lru_ok_appendD [OF ok]
      by (intro snoc.IH sh2) (auto simp: hd_append)
    also have "\<dots> = shrink_to i (kept sb p l) c"
    proof -
      obtain n where n: "kept sb p l = take n l" using kept_prefix by blast
      have "int (length (kept sb p l)) \<le> int (length l)" by (simp add: n)
      then show ?thesis
        by (simp add: shrink_to_def sh2 sh Let_def)
          (simp add: c2_def c1_def uncount_def put_shard_def Suc_diff_le)
    qed
    also have "kept sb p l = kept sb p (l @ [e])"
      using ok evict by (rule kept_snoc [symmetric])
    finally show ?thesis .
  qed
qed

end
