(* ===== verification/CacheOps.thy ===== *)
theory CacheOps
  imports CacheInv
begin

text \<open>
  Each cache operation on a well-formed cache: its closed form on the recency list of the one
  shard it touches, the invariant, and the frame. The simulation of an abstract per-shard
  recency list, the functional behaviour and the capacity bound rest on these.
\<close>

section \<open>Well-formedness through one shard update\<close>

lemma shard_wfD:
  assumes "cache_wf c" and "i < shardCount"
  shows "c_shards c i = mk_shard (s_lru (c_shards c i))" and "lru_ok (s_lru (c_shards c i))"
    and "e \<in> set (s_lru (c_shards c i)) \<Longrightarrow> shardFor (e_key e) = Some i \<and> e_ptr e < c_next c"
  using assms by (auto simp: cache_wf_def shard_wf_def)

lemma cache_wf_New: "cache_wf (Cache_New b)"
  by (simp add: cache_wf_def Cache_New_def shard_wf_def empty_shard_def mk_shard_def items_of_def
      total_size_def)

lemma cache_wf_update:
  assumes "cache_wf c" and "i < shardCount" and "c_next c \<le> c_next c'"
    and "c_shards c' = (c_shards c)(i := mk_shard l)" and "lru_ok l"
    and "\<And>e. e \<in> set l \<Longrightarrow> shardFor (e_key e) = Some i \<and> e_ptr e < c_next c'"
    and "c_entries c' = c_entries c - int (length (s_lru (c_shards c i))) + int (length l)"
    and "c_bytes c' = c_bytes c - total_size (s_lru (c_shards c i)) + total_size l"
  shows "cache_wf c'"
proof -
  have len: "(\<Sum>j < shardCount. int (length (s_lru (((c_shards c)(i := mk_shard l)) j)))) =
      (\<Sum>j < shardCount. int (length (s_lru (c_shards c j)))) - int (length (s_lru (c_shards c i)))
      + int (length l)"
    using sum_fun_upd [OF assms(2), of "\<lambda>s. int (length (s_lru s))" "c_shards c" "mk_shard l"]
    by simp
  have byt: "(\<Sum>j < shardCount. s_bytes (((c_shards c)(i := mk_shard l)) j)) =
      (\<Sum>j < shardCount. s_bytes (c_shards c j)) - s_bytes (c_shards c i) + total_size l"
    using sum_fun_upd [OF assms(2), of s_bytes "c_shards c" "mk_shard l"] by simp
  have bi: "s_bytes (c_shards c i) = total_size (s_lru (c_shards c i))"
    using shard_wfD(1) [OF assms(1,2)] by (metis mk_shard_simps(3))
  have "shard_wf j (c_next c') (c_shards c' j)" if "j < shardCount" for j
  proof (cases "j = i")
    case True
    then show ?thesis using assms(4-6) by (simp add: shard_wf_def)
  next
    case False
    with that assms(1,3,4) show ?thesis by (fastforce simp: cache_wf_def shard_wf_def)
  qed
  with assms(1) len byt bi show ?thesis
    unfolding cache_wf_def assms(4,7,8) by simp
qed

lemma cache_wf_fields:
  "c_shards c' = c_shards c \<Longrightarrow> c_next c' = c_next c \<Longrightarrow> c_entries c' = c_entries c \<Longrightarrow>
   c_bytes c' = c_bytes c \<Longrightarrow> cache_wf c' = cache_wf c"
  by (simp add: cache_wf_def)

section \<open>Lookup\<close>

definition peek :: "cache \<Rightarrow> string \<Rightarrow> object option" where
  "peek c key =
     (case shardFor key of
        None \<Rightarrow> None
      | Some i \<Rightarrow> map_option e_obj (s_items (c_shards c i) key))"

text \<open>\<open>drop_from i e c\<close>: the cache without the entry \<open>e\<close> of shard \<open>i\<close>.\<close>

abbreviation drop_from :: "nat \<Rightarrow> entry \<Rightarrow> cache \<Rightarrow> cache" where
  "drop_from i e c \<equiv> uncount e (put_shard i (removeLocked (c_shards c i) e) c)"

lemma items_member:
  assumes "cache_wf c" and "i < shardCount"
  shows "s_items (c_shards c i) key = Some e \<longleftrightarrow> e \<in> set (s_lru (c_shards c i)) \<and> e_key e = key"
  using shard_wfD(1,2) [OF assms] items_of_Some by (metis mk_shard_simps(1))

lemma drop_from_wf:
  assumes "cache_wf c" and "i < shardCount" and "s_items (c_shards c i) key = Some e"
  shows "cache_wf (drop_from i e c)"
    and "s_lru (c_shards (drop_from i e c) i) = drop_entry e (s_lru (c_shards c i))"
proof -
  let ?l = "s_lru (c_shards c i)"
  note wf = shard_wfD [OF assms(1,2)]
  have e: "e \<in> set ?l" using assms by (simp add: items_member)
  have rm: "removeLocked (c_shards c i) e = mk_shard (drop_entry e ?l)"
    using removeLocked_mk [OF wf(2) e] wf(1) by metis
  show "cache_wf (drop_from i e c)"
    by (rule cache_wf_update [OF assms(1,2), where l = "drop_entry e ?l"])
      (use wf e in \<open>auto simp: uncount_def put_shard_def rm lru_ok_filter length_drop total_size_drop\<close>)
  show "s_lru (c_shards (drop_from i e c) i) = drop_entry e ?l"
    by (simp add: uncount_def put_shard_def rm)
qed

lemma front_wf:
  assumes "cache_wf c" and "i < shardCount" and "s_items (c_shards c i) key = Some e"
  shows "cache_wf (put_shard i (moveToFront (c_shards c i) e) c)"
proof -
  let ?l = "s_lru (c_shards c i)"
  note wf = shard_wfD [OF assms(1,2)]
  have e: "e \<in> set ?l" using assms by (simp add: items_member)
  have mv: "moveToFront (c_shards c i) e = mk_shard (e # drop_entry e ?l)"
    using moveToFront_mk [OF wf(2) e] wf(1) by metis
  show ?thesis
    by (rule cache_wf_update [OF assms(1,2), where l = "e # drop_entry e ?l"])
      (use wf e in \<open>auto simp: put_shard_def mv lru_ok_front length_drop total_size_drop\<close>)
qed

lemma cache_wf_counters [simp]:
  "cache_wf (c\<lparr>c_hits := h\<rparr>) = cache_wf c" "cache_wf (c\<lparr>c_misses := m\<rparr>) = cache_wf c"
  "cache_wf (c\<lparr>c_evictions := v\<rparr>) = cache_wf c" "cache_wf (c\<lparr>c_budget := b\<rparr>) = cache_wf c"
  by (simp_all add: cache_wf_def)

text \<open>The three outcomes of \<open>Get\<close>, as one case rule.\<close>

lemma Get_cases:
  assumes "Cache_Get c key now = Some (c', r, f)"
  obtains (absent) i where "shardFor key = Some i" "s_items (c_shards c i) key = None"
      "c' = c\<lparr>c_misses := c_misses c + 1\<rparr>" "r = None" "f = Miss"
  | (expired) i e where "shardFor key = Some i" "s_items (c_shards c i) key = Some e"
      "Object_evictable (e_obj e) now"
      "c' = (drop_from i e c)\<lparr>c_misses := c_misses c + 1\<rparr>" "r = None" "f = Miss"
  | (found) i e where "shardFor key = Some i" "s_items (c_shards c i) key = Some e"
      "\<not> Object_evictable (e_obj e) now"
      "c' = (put_shard i (moveToFront (c_shards c i) e) c)\<lparr>c_hits := c_hits c + 1\<rparr>"
      "r = Some (e_obj e)" "f = (if Object_Expired (e_obj e) now then Stale else Fresh)"
proof (cases "shardFor key")
  case None
  with assms show ?thesis by (simp add: Cache_Get_def)
next
  case (Some i)
  note i = this
  show ?thesis
  proof (cases "s_items (c_shards c i) key")
    case None
    with i assms show ?thesis by (intro absent) (simp_all add: Cache_Get_def)
  next
    case (Some e)
    show ?thesis
    proof (cases "Object_evictable (e_obj e) now")
      case True
      with i Some assms show ?thesis
        by (intro expired) (auto simp: Cache_Get_def Let_def uncount_def put_shard_def)
    next
      case False
      with i Some assms show ?thesis
        by (intro found) (auto simp: Cache_Get_def Let_def put_shard_def)
    qed
  qed
qed

lemma Get_wf [inv_pres]: "cache_wf c \<Longrightarrow> Cache_Get c key now = Some (c', r, f) \<Longrightarrow> cache_wf c'"
  by (erule Get_cases) (simp_all add: drop_from_wf front_wf shardFor_less)

lemma Delete_wf [inv_pres]: "cache_wf c \<Longrightarrow> Cache_Delete c key = Some c' \<Longrightarrow> cache_wf c'"
  by (auto simp: Cache_Delete_def Let_def split: option.splits intro!: drop_from_wf
      dest: shardFor_less)

section \<open>Eviction\<close>

lemma evict_wf_closed:
  assumes "cache_wf c" and "i < shardCount"
  shows "evictOverLocked c i sb None = shrink_to i (fit sb (s_lru (c_shards c i))) c"
proof -
  have "kept sb None l = fit sb l" for l by (cases l) (simp_all add: kept_def)
  then show ?thesis using evict_closed [OF shard_wfD(1,2) [OF assms], of None sb] by simp
qed

lemma shrink_to_wf:
  assumes "cache_wf c" and "i < shardCount" and "k = take n (s_lru (c_shards c i))"
  shows "cache_wf (shrink_to i k c)"
proof -
  note wf = shard_wfD [OF assms(1,2)]
  have "lru_ok k"
    using lru_ok_appendD [of k "drop n (s_lru (c_shards c i))"] wf(2) assms(3) by simp
  then show ?thesis
    by (intro cache_wf_update [OF assms(1,2), where l = k])
      (use wf(3) assms(3) in \<open>auto simp: shrink_to_def put_shard_def Let_def dest: in_set_takeD\<close>)
qed

lemma evict_wf: "cache_wf c \<Longrightarrow> i < shardCount \<Longrightarrow> cache_wf (evictOverLocked c i sb None)"
  using fit_prefix by (metis evict_wf_closed shrink_to_wf)

lemma shrink_to_simps [simp]:
  "c_shards (shrink_to i k c) = (c_shards c)(i := mk_shard k)"
  "c_budget (shrink_to i k c) = c_budget c" "c_next (shrink_to i k c) = c_next c"
  "c_hits (shrink_to i k c) = c_hits c" "c_misses (shrink_to i k c) = c_misses c"
  by (simp_all add: shrink_to_def put_shard_def Let_def)

section \<open>SetBudget\<close>

text \<open>The loop over the shards, in closed form: every shard keeps what fits its share.\<close>

lemma SetBudget_loop:
  assumes "cache_wf c" and "n \<le> shardCount"
  shows "let c' = foldl (\<lambda>c i. evictOverLocked c i sb None) c [0..<n] in
    cache_wf c' \<and> c_budget c' = c_budget c \<and>
    (\<forall>j. s_lru (c_shards c' j) =
       (if j < n then fit sb (s_lru (c_shards c j)) else s_lru (c_shards c j)))"
  using assms(2)
proof (induction n)
  case 0
  then show ?case using assms(1) by simp
next
  case (Suc n)
  define c1 where "c1 = foldl (\<lambda>c i. evictOverLocked c i sb None) c [0..<n]"
  have IH: "cache_wf c1" "c_budget c1 = c_budget c"
      "s_lru (c_shards c1 j) = (if j < n then fit sb (s_lru (c_shards c j)) else s_lru (c_shards c j))"
    for j using Suc unfolding c1_def by (simp_all add: Let_def)
  have "evictOverLocked c1 n sb None = shrink_to n (fit sb (s_lru (c_shards c n))) c1"
    using evict_wf_closed [OF IH(1), of n] Suc.prems IH(3) [of n] by simp
  moreover have "cache_wf (evictOverLocked c1 n sb None)"
    using IH(1) Suc.prems by (intro evict_wf) simp_all
  moreover have "foldl (\<lambda>c i. evictOverLocked c i sb None) c [0..<Suc n] =
      evictOverLocked c1 n sb None"
    by (simp add: c1_def)
  ultimately show ?case using IH by (auto simp: Let_def less_Suc_eq)
qed

abbreviation shard_share :: "int \<Rightarrow> int" where
  "shard_share b \<equiv> go_div b (int shardCount)"

lemma SetBudget_closed:
  assumes "cache_wf c"
  shows "cache_wf (Cache_SetBudget c b)" and "c_budget (Cache_SetBudget c b) = max 0 b"
    and "i < shardCount \<Longrightarrow> s_lru (c_shards (Cache_SetBudget c b) i) =
      fit (shard_share (max 0 b)) (s_lru (c_shards c i))"
proof -
  let ?c0 = "c\<lparr>c_budget := max 0 b\<rparr>"
  have "cache_wf ?c0" using assms by (simp add: cache_wf_def)
  note loop = SetBudget_loop [OF this order_refl, of "shard_share (max 0 b)", unfolded Let_def]
  have "(if b < 0 then 0 else b) = max 0 b" by simp
  then have eq: "Cache_SetBudget c b =
      foldl (\<lambda>c i. evictOverLocked c i (shard_share (max 0 b)) None) ?c0 [0..<shardCount]"
    by (simp only: Cache_SetBudget_def Let_def)
  show "cache_wf (Cache_SetBudget c b)" and "c_budget (Cache_SetBudget c b) = max 0 b"
    and "i < shardCount \<Longrightarrow> s_lru (c_shards (Cache_SetBudget c b) i) =
      fit (shard_share (max 0 b)) (s_lru (c_shards c i))"
    unfolding eq using loop by simp_all
qed

lemmas SetBudget_wf [inv_pres] = SetBudget_closed(1)

section \<open>Set\<close>

text \<open>
  \<open>Set\<close> puts the new entry in front of the other keys of its shard and keeps what fits behind it.
\<close>

definition others :: "string \<Rightarrow> entry list \<Rightarrow> entry list" where
  "others key l = filter (\<lambda>e. e_key e \<noteq> key) l"

lemma drop_entry_others:
  assumes "lru_ok l" and "e \<in> set l"
  shows "drop_entry e l = others (e_key e) l"
  unfolding others_def using assms filter_neq_inj [of e_key l e] by (simp add: lru_ok_def)

lemma others_absent: "k \<notin> e_key ` set l \<Longrightarrow> others k l = l"
  by (auto simp: others_def intro!: filter_True)

text \<open>\<open>Set\<close> first takes out the entry the key has, then puts the new one in front.\<close>

lemma displace_closed:
  assumes wf: "cache_wf c" and i: "i < shardCount"
    and c1: "c1 = (case s_items (c_shards c i) key of None \<Rightarrow> c | Some old \<Rightarrow> drop_from i old c)"
  shows "cache_wf c1" and "s_lru (c_shards c1 i) = others key (s_lru (c_shards c i))"
    and "c_next c1 = c_next c" "\<And>j. j \<noteq> i \<Longrightarrow> c_shards c1 j = c_shards c j"
    and "c_budget c1 = c_budget c" "c_hits c1 = c_hits c" "c_misses c1 = c_misses c"
proof -
  let ?l = "s_lru (c_shards c i)"
  note wfi = shard_wfD [OF wf i]
  have items: "s_items (c_shards c i) = items_of ?l" using wfi(1) by (metis mk_shard_simps(1))
  have "cache_wf c1 \<and> s_lru (c_shards c1 i) = others key ?l \<and> c_next c1 = c_next c \<and>
      (\<forall>j. j \<noteq> i \<longrightarrow> c_shards c1 j = c_shards c j) \<and> c_budget c1 = c_budget c \<and>
      c_hits c1 = c_hits c \<and> c_misses c1 = c_misses c"
  proof (cases "s_items (c_shards c i) key")
    case None
    then have "key \<notin> e_key ` set ?l" by (simp add: items items_of_None)
    then have "others key ?l = ?l" by (rule others_absent)
    with None wf show ?thesis by (simp add: c1)
  next
    case (Some old)
    then have "old \<in> set ?l" "e_key old = key" using wf i by (simp_all add: items_member)
    with Some drop_from_wf [OF wf i Some] drop_entry_others [OF wfi(2)]
    show ?thesis by (simp add: c1 uncount_def put_shard_def)
  qed
  then show "cache_wf c1" and "s_lru (c_shards c1 i) = others key ?l"
    and "c_next c1 = c_next c" "\<And>j. j \<noteq> i \<Longrightarrow> c_shards c1 j = c_shards c j"
    and "c_budget c1 = c_budget c" "c_hits c1 = c_hits c" "c_misses c1 = c_misses c"
    by blast+
qed

lemma push_closed:
  assumes wf: "cache_wf c" and i: "shardFor (e_key e) = Some i" and e: "e_ptr e = c_next c"
    and size: "e_size e = Object_size (e_obj e)"
    and absent: "e_key e \<notin> e_key ` set (s_lru (c_shards c i))"
    and s2: "s2 = (c_shards c i)\<lparr>s_lru := e # s_lru (c_shards c i),
      s_items := (s_items (c_shards c i))(e_key e \<mapsto> e), s_bytes := s_bytes (c_shards c i) + e_size e\<rparr>"
    and c2: "c2 = (put_shard i s2 c)\<lparr>c_next := Suc (c_next c),
      c_entries := c_entries c + 1, c_bytes := c_bytes c + e_size e\<rparr>"
  shows "cache_wf c2" and "c_shards c2 = (c_shards c)(i := mk_shard (e # s_lru (c_shards c i)))"
    and "lru_ok (e # s_lru (c_shards c i))"
proof -
  let ?l = "s_lru (c_shards c i)"
  have i': "i < shardCount" using i by (rule shardFor_less)
  note wfi = shard_wfD [OF wf i']
  have s2': "s2 = mk_shard (e # ?l)"
    unfolding s2 by (subst (1 2 3) wfi(1)) (simp add: mk_shard_def items_of_def)
  have "e_ptr e \<notin> e_ptr ` set ?l" using wfi(3) e by fastforce
  then show ok: "lru_ok (e # ?l)"
    using wfi(2) absent size by (auto simp: lru_ok_def)
  show "c_shards c2 = (c_shards c)(i := mk_shard (e # ?l))"
    by (simp add: c2 put_shard_def s2')
  show "cache_wf c2"
    by (rule cache_wf_update [OF wf i', where l = "e # ?l"])
      (use wfi ok i s2' e in \<open>auto simp: c2 put_shard_def less_Suc_eq\<close>)
qed

lemma Set_closed:
  assumes wf: "cache_wf c" and i: "shardFor key = Some i"
    and adm: "0 < c_budget c" "Object_size obj \<le> c_budget c"
  obtains c' e where "Cache_Set c key obj = Some c'" and "cache_wf c'"
    and "e_key e = key" and "e_obj e = obj" and "e_size e = Object_size obj"
    and "s_lru (c_shards c' i) = e # fit (shard_share (c_budget c) - Object_size obj)
           (others key (s_lru (c_shards c i)))"
    and "\<And>j. j \<noteq> i \<Longrightarrow> c_shards c' j = c_shards c j"
    and "c_budget c' = c_budget c" "c_hits c' = c_hits c" "c_misses c' = c_misses c"
proof -
  let ?o = "others key (s_lru (c_shards c i))" and ?sb = "shard_share (c_budget c)"
  have i': "i < shardCount" using i by (rule shardFor_less)
  define c1 where "c1 = (case s_items (c_shards c i) key of
      None \<Rightarrow> c | Some old \<Rightarrow> drop_from i old c)"
  note c1 = displace_closed [OF wf i' c1_def]
  define e where "e = \<lparr>e_ptr = c_next c1, e_key = key, e_obj = obj, e_size = Object_size obj\<rparr>"
  define s2 where "s2 = (c_shards c1 i)\<lparr>s_lru := e # s_lru (c_shards c1 i),
      s_items := (s_items (c_shards c1 i))(e_key e \<mapsto> e), s_bytes := s_bytes (c_shards c1 i) + e_size e\<rparr>"
  define c2 where "c2 = (put_shard i s2 c1)\<lparr>c_next := Suc (c_next c1),
      c_entries := c_entries c1 + 1, c_bytes := c_bytes c1 + e_size e\<rparr>"
  have e: "e_key e = key" "e_obj e = obj" "e_size e = Object_size obj" "e_ptr e = c_next c1"
    by (simp_all add: e_def)
  have "e_key e \<notin> e_key ` set (s_lru (c_shards c1 i))" by (auto simp: c1(2) e others_def)
  note push = push_closed [OF c1(1) _ e(4) _ this s2_def c2_def, unfolded e c1(2), OF i refl]
  let ?c' = "evictOverLocked c2 i ?sb (Some (e_ptr e))" and ?k = "e # fit (?sb - Object_size obj) ?o"
  have sh2: "c_shards c2 i = mk_shard (e # ?o)" by (simp add: push(2))
  have k: "kept ?sb (Some (e_ptr e)) (e # ?o) = ?k" by (simp add: kept_def e)
  then have ev: "?c' = shrink_to i ?k c2"
    using evict_closed [OF sh2 push(3), of "Some (e_ptr e)" ?sb] by simp
  obtain n where n: "?k = take n (e # ?o)"
    using kept_prefix [of ?sb "Some (e_ptr e)" "e # ?o"] k by metis
  have wf': "cache_wf ?c'"
    unfolding ev by (rule shrink_to_wf [OF push(1) i', of _ n]) (simp add: n sh2)
  have set: "Cache_Set c key obj = Some ?c'"
    using adm unfolding Cache_Set_def
    by (simp add: i Let_def c2_def s2_def c1_def [symmetric] e_def)
  have "c_budget c2 = c_budget c" "c_hits c2 = c_hits c" "c_misses c2 = c_misses c"
    using c1 by (simp_all add: c2_def put_shard_def)
  then show ?thesis
    by (intro that [of ?c' e, OF set wf' e(1-3)]) (simp_all add: ev push(2) c1)
qed

lemma Set_rejected:
  "c_budget c \<le> 0 \<or> c_budget c < Object_size obj \<Longrightarrow> Cache_Set c key obj = Some c"
  by (auto simp: Cache_Set_def Let_def)

lemma Set_wf [inv_pres]:
  assumes "cache_wf c" and "Cache_Set c key obj = Some c'"
  shows "cache_wf c'"
proof (cases "0 < c_budget c \<and> Object_size obj \<le> c_budget c")
  case True
  then obtain i where "shardFor key = Some i"
    using assms(2) by (auto simp: Cache_Set_def Let_def split: option.splits)
  with True assms show ?thesis by (auto elim: Set_closed)
next
  case False
  with assms Set_rejected [of c obj key] show ?thesis by auto
qed

end
