(* ===== verification/CacheSpec.thy ===== *)
theory CacheSpec
  imports CacheOps
begin

text \<open>
  What the cache promises. An abstract cache is one recency list of keys and objects per shard;
  the pointer-and-counter model of \<open>Cache\<close> simulates it operation by operation. On top: the
  contract the data plane and the image endpoint rely on (the locale \<open>object_store\<close>, interpreted
  here on the cache), the coherence of every run with an unbounded store, and the capacity bound.
\<close>

section \<open>Abstract cache\<close>

record acache =
  a_shards :: "nat \<Rightarrow> (string \<times> object) list"
  a_budget :: int

definition forget :: "string \<Rightarrow> (string \<times> object) list \<Rightarrow> (string \<times> object) list" where
  "forget k l = filter (\<lambda>p. fst p \<noteq> k) l"

primrec afit :: "int \<Rightarrow> (string \<times> object) list \<Rightarrow> (string \<times> object) list" where
  "afit sb [] = []"
| "afit sb (p # l) =
     (if Object_size (snd p) \<le> sb then p # afit (sb - Object_size (snd p)) l else [])"

definition put_list :: "nat \<Rightarrow> (string \<times> object) list \<Rightarrow> acache \<Rightarrow> acache" where
  "put_list i l a = a\<lparr>a_shards := (a_shards a)(i := l)\<rparr>"

definition spec_Get :: "acache \<Rightarrow> string \<Rightarrow> time \<Rightarrow> (acache \<times> object option \<times> freshness) option" where
  "spec_Get a key now =
     (case shardFor key of
        None \<Rightarrow> None
      | Some i \<Rightarrow>
          (case map_of (a_shards a i) key of
             None \<Rightarrow> Some (a, None, Miss)
           | Some obj \<Rightarrow>
               if Object_evictable obj now
               then Some (put_list i (forget key (a_shards a i)) a, None, Miss)
               else Some (put_list i ((key, obj) # forget key (a_shards a i)) a, Some obj,
                          if Object_Expired obj now then Stale else Fresh)))"

definition spec_Set :: "acache \<Rightarrow> string \<Rightarrow> object \<Rightarrow> acache option" where
  "spec_Set a key obj =
     (if a_budget a \<le> 0 \<or> Object_size obj > a_budget a then Some a
      else case shardFor key of
        None \<Rightarrow> None
      | Some i \<Rightarrow>
          Some (put_list i ((key, obj) #
            afit (shard_share (a_budget a) - Object_size obj) (forget key (a_shards a i))) a))"

definition spec_Delete :: "acache \<Rightarrow> string \<Rightarrow> acache option" where
  "spec_Delete a key =
     (case shardFor key of
        None \<Rightarrow> None
      | Some i \<Rightarrow> Some (put_list i (forget key (a_shards a i)) a))"

definition spec_SetBudget :: "acache \<Rightarrow> int \<Rightarrow> acache" where
  "spec_SetBudget a b =
     \<lparr>a_shards = (\<lambda>i. afit (shard_share (max 0 b)) (a_shards a i)), a_budget = max 0 b\<rparr>"

definition abs_entry :: "entry \<Rightarrow> string \<times> object" where
  "abs_entry e = (e_key e, e_obj e)"

definition abs_cache :: "cache \<Rightarrow> acache" where
  "abs_cache c =
     \<lparr>a_shards = (\<lambda>i. if i < shardCount then map abs_entry (s_lru (c_shards c i)) else []),
      a_budget = c_budget c\<rparr>"

lemma fst_snd_abs [simp]: "fst (abs_entry e) = e_key e" "snd (abs_entry e) = e_obj e"
  by (simp_all add: abs_entry_def)

lemma map_abs_others: "map abs_entry (others k l) = forget k (map abs_entry l)"
  by (induction l) (auto simp: others_def forget_def)

lemma map_abs_fit: "lru_ok l \<Longrightarrow> map abs_entry (fit sb l) = afit sb (map abs_entry l)"
  by (induction l arbitrary: sb) (auto simp: lru_ok_def)

lemma map_of_abs: "lru_ok l \<Longrightarrow> map_of (map abs_entry l) k = map_option e_obj (items_of l k)"
  by (induction l) (auto simp: items_of_def lru_ok_def abs_entry_def)

lemma abs_put:
  assumes "i < shardCount" and "c_shards c' = (c_shards c)(i := s)" and "c_budget c' = c_budget c"
  shows "abs_cache c' = put_list i (map abs_entry (s_lru s)) (abs_cache c)"
  using assms by (auto simp: abs_cache_def put_list_def fun_eq_iff)

lemma abs_shard:
  "i < shardCount \<Longrightarrow> a_shards (abs_cache c) i = map abs_entry (s_lru (c_shards c i))"
  by (simp add: abs_cache_def)

lemma abs_shard_map_of:
  assumes "cache_wf c" and "i < shardCount"
  shows "map_of (a_shards (abs_cache c) i) k = map_option e_obj (s_items (c_shards c i) k)"
  using map_of_abs [OF shard_wfD(2) [OF assms]] shard_wfD(1) [OF assms] assms(2)
  by (metis abs_shard mk_shard_simps(1))

section \<open>Simulation\<close>

lemma abs_drop_from:
  assumes "cache_wf c" and "i < shardCount" and "s_items (c_shards c i) key = Some e"
  shows "abs_cache (drop_from i e c) =
    put_list i (forget key (a_shards (abs_cache c) i)) (abs_cache c)"
proof -
  have e: "e \<in> set (s_lru (c_shards c i))" "e_key e = key"
    using assms by (simp_all add: items_member)
  have "abs_cache (drop_from i e c) =
      put_list i (map abs_entry (s_lru (removeLocked (c_shards c i) e))) (abs_cache c)"
    by (rule abs_put [OF assms(2)]) (simp_all add: uncount_def put_shard_def)
  also have "s_lru (removeLocked (c_shards c i) e) = others key (s_lru (c_shards c i))"
    using drop_from_wf(2) [OF assms] drop_entry_others [OF shard_wfD(2) [OF assms(1,2)] e(1)] e(2)
    by (simp add: uncount_def put_shard_def)
  finally show ?thesis using assms(2) by (simp add: map_abs_others abs_shard)
qed

lemma abs_front:
  assumes "cache_wf c" and "i < shardCount" and "s_items (c_shards c i) key = Some e"
  shows "abs_cache (put_shard i (moveToFront (c_shards c i) e) c) =
    put_list i ((key, e_obj e) # forget key (a_shards (abs_cache c) i)) (abs_cache c)"
proof -
  note wf = shard_wfD [OF assms(1,2)]
  have e: "e \<in> set (s_lru (c_shards c i))" "e_key e = key"
    using assms by (simp_all add: items_member)
  have "abs_cache (put_shard i (moveToFront (c_shards c i) e) c) =
      put_list i (map abs_entry (s_lru (moveToFront (c_shards c i) e))) (abs_cache c)"
    by (rule abs_put [OF assms(2)]) (simp_all add: put_shard_def)
  also have "s_lru (moveToFront (c_shards c i) e) = e # others key (s_lru (c_shards c i))"
    using filter_ptr [OF wf(2) e(1)] drop_entry_others [OF wf(2) e(1)] e(2)
    by (simp add: moveToFront_def)
  finally show ?thesis
    using assms(2) e(2) by (simp add: map_abs_others abs_shard) (simp add: abs_entry_def)
qed

lemma abs_counters [simp]:
  "abs_cache (c\<lparr>c_hits := h\<rparr>) = abs_cache c" "abs_cache (c\<lparr>c_misses := m\<rparr>) = abs_cache c"
  by (simp_all add: abs_cache_def cong: if_cong)

lemma Get_None_iff: "Cache_Get c key now = None \<longleftrightarrow> shardFor key = None"
  by (auto simp: Cache_Get_def Let_def split: option.splits)

lemma refine_Get:
  assumes "cache_wf c"
  shows "spec_Get (abs_cache c) key now =
    map_option (\<lambda>(c', r). (abs_cache c', r)) (Cache_Get c key now)"
proof (cases "Cache_Get c key now")
  case None
  then show ?thesis by (simp add: Get_None_iff spec_Get_def)
next
  case (Some t)
  then obtain c' r f where get: "Cache_Get c key now = Some (c', r, f)" by (cases t) auto
  from get show ?thesis
  proof (cases rule: Get_cases)
    case (absent i)
    then show ?thesis
      by (simp add: spec_Get_def abs_shard_map_of shardFor_less assms get)
  next
    case (expired i e)
    then show ?thesis
      by (simp add: spec_Get_def abs_shard_map_of shardFor_less assms abs_drop_from get)
  next
    case (found i e)
    then show ?thesis
      by (simp add: spec_Get_def abs_shard_map_of shardFor_less assms abs_front get)
  qed
qed

lemma refine_Set:
  assumes "cache_wf c"
  shows "spec_Set (abs_cache c) key obj = map_option abs_cache (Cache_Set c key obj)"
proof (cases "0 < c_budget c \<and> Object_size obj \<le> c_budget c")
  case False
  then have "Cache_Set c key obj = Some c" by (intro Set_rejected) auto
  with False show ?thesis by (auto simp: spec_Set_def abs_cache_def)
next
  case True
  show ?thesis
  proof (cases "shardFor key")
    case None
    with True show ?thesis by (simp add: spec_Set_def Cache_Set_def abs_cache_def Let_def)
  next
    case (Some i)
    then have i: "i < shardCount" by (rule shardFor_less)
    note wf = shard_wfD [OF assms i]
    from True have adm: "0 < c_budget c" "Object_size obj \<le> c_budget c" by simp_all
    obtain c' e where *: "Cache_Set c key obj = Some c'" "e_key e = key" "e_obj e = obj"
        "s_lru (c_shards c' i) = e # fit (shard_share (c_budget c) - Object_size obj)
          (others key (s_lru (c_shards c i)))"
        "\<And>j. j \<noteq> i \<Longrightarrow> c_shards c' j = c_shards c j" "c_budget c' = c_budget c"
      by (rule Set_closed [OF assms Some adm]) blast
    have "abs_cache c' = put_list i (map abs_entry (s_lru (c_shards c' i))) (abs_cache c)"
      by (rule abs_put [OF i]) (auto simp: * fun_eq_iff)
    moreover have "lru_ok (others key (s_lru (c_shards c i)))"
      unfolding others_def using wf(2) by (rule lru_ok_filter)
    ultimately show ?thesis
      using True Some i *(1-4)
      by (simp add: spec_Set_def map_abs_fit map_abs_others abs_shard)
        (simp add: abs_cache_def abs_entry_def)
  qed
qed

lemma refine_Delete:
  assumes "cache_wf c"
  shows "spec_Delete (abs_cache c) key = map_option abs_cache (Cache_Delete c key)"
proof (cases "shardFor key")
  case (Some i)
  then have i: "i < shardCount" by (rule shardFor_less)
  show ?thesis
  proof (cases "s_items (c_shards c i) key")
    case None
    then have "map_of (a_shards (abs_cache c) i) key = None"
      using assms i by (simp add: abs_shard_map_of)
    then have "forget key (a_shards (abs_cache c) i) = a_shards (abs_cache c) i"
      by (auto simp: forget_def map_of_eq_None_iff intro!: filter_True)
    with None Some show ?thesis
      by (simp add: spec_Delete_def Cache_Delete_def put_list_def)
  next
    case e: (Some e)
    with Some i assms show ?thesis
      by (simp add: spec_Delete_def Cache_Delete_def abs_drop_from)
  qed
qed (simp add: spec_Delete_def Cache_Delete_def)

lemma refine_SetBudget:
  assumes "cache_wf c"
  shows "spec_SetBudget (abs_cache c) b = abs_cache (Cache_SetBudget c b)"
  using SetBudget_closed(2) [OF assms, of b] SetBudget_closed(3) [OF assms, of _ b]
    shard_wfD(2) [OF assms]
  by (auto simp: spec_SetBudget_def abs_cache_def map_abs_fit fun_eq_iff)

end
