(* ===== verification/ObjectStore.thy ===== *)
theory ObjectStore
  imports CacheSpec
begin

text \<open>
  The contract between the cache and its clients (\<open>internal/proxy\<close>, \<open>internal/imgcdn\<close>): what
  \<open>Get\<close> may return and what a \<open>Set\<close> guarantees. The clients' lemmas are proved in the locale;
  the interpretation \<open>obj_cache\<close> discharges the laws for the model of \<open>internal/cache\<close>.
\<close>

definition lookup_result :: "object option \<Rightarrow> time \<Rightarrow> object option \<times> freshness" where
  "lookup_result x now =
     (case x of
        None \<Rightarrow> (None, Miss)
      | Some obj \<Rightarrow>
          if Object_evictable obj now then (None, Miss)
          else (Some obj, if Object_Expired obj now then Stale else Fresh))"

lemma lookup_result_simps:
  "lookup_result None now = (None, Miss)"
  "Object_evictable obj now \<Longrightarrow> lookup_result (Some obj) now = (None, Miss)"
  "\<not> Object_evictable obj now \<Longrightarrow>
     lookup_result (Some obj) now = (Some obj, if Object_Expired obj now then Stale else Fresh)"
  by (simp_all add: lookup_result_def)

locale object_store =
  fixes inv :: "'s \<Rightarrow> bool"
    and get :: "'s \<Rightarrow> string \<Rightarrow> time \<Rightarrow> ('s \<times> object option \<times> freshness) option"
    and set :: "'s \<Rightarrow> string \<Rightarrow> object \<Rightarrow> 's option"
    and contents :: "'s \<Rightarrow> string \<Rightarrow> object option"
    and admits :: "'s \<Rightarrow> object \<Rightarrow> bool"
    and valid_key :: "string \<Rightarrow> bool"
  assumes get_total: "inv s \<Longrightarrow> valid_key k \<Longrightarrow> get s k now \<noteq> None"
    and get_inv: "inv s \<Longrightarrow> get s k now = Some (s', r, f) \<Longrightarrow> inv s'"
    and get_result: "inv s \<Longrightarrow> get s k now = Some (s', r, f) \<Longrightarrow> (r, f) = lookup_result (contents s k) now"
    and get_contents: "inv s \<Longrightarrow> get s k now = Some (s', r, f) \<Longrightarrow>
      contents s' = (if r = None then (contents s)(k := None) else contents s)"
    and get_admits: "inv s \<Longrightarrow> get s k now = Some (s', r, f) \<Longrightarrow> admits s' = admits s"
    and set_total: "inv s \<Longrightarrow> valid_key k \<Longrightarrow> set s k x \<noteq> None"
    and set_inv: "inv s \<Longrightarrow> set s k x = Some s' \<Longrightarrow> inv s'"
    and set_stores: "inv s \<Longrightarrow> admits s x \<Longrightarrow> set s k x = Some s' \<Longrightarrow> contents s' k = Some x"
    and set_others: "inv s \<Longrightarrow> set s k x = Some s' \<Longrightarrow> k' \<noteq> k \<Longrightarrow>
      contents s' k' = None \<or> contents s' k' = contents s k'"
    and set_rejects: "inv s \<Longrightarrow> \<not> admits s x \<Longrightarrow> set s k x = Some s' \<Longrightarrow> s' = s"
    and set_admits: "inv s \<Longrightarrow> set s k x = Some s' \<Longrightarrow> admits s' = admits s"
begin

text \<open>An admitted object is what the next lookups of its key see, with its freshness.\<close>

lemma get_after_set:
  assumes "inv s" and "valid_key k" and "admits s x" and "set s k x = Some s'"
  shows "\<exists>s''. get s' k now = Some (s'', lookup_result (Some x) now) \<and> inv s''"
proof -
  have inv': "inv s'" using assms(1,4) by (rule set_inv)
  obtain s'' r f where g: "get s' k now = Some (s'', r, f)"
    using get_total [OF inv' assms(2), of now] by (cases "get s' k now") auto
  have "contents s' k = Some x" using assms(1,3,4) by (rule set_stores)
  with get_result [OF inv' g] get_inv [OF inv' g] g show ?thesis by simp
qed

text \<open>A hit leaves the contents alone, so a hit repeated before the object ends is a hit.\<close>

lemma hit_again:
  assumes "inv s" and "valid_key k" and "get s k now = Some (s', Some x, f)"
    and "\<not> Object_evictable x now'"
  shows "\<exists>s''. get s' k now' = Some (s'', lookup_result (Some x) now')"
proof -
  have inv': "inv s'" using assms(1,3) by (rule get_inv)
  obtain s'' r f' where g: "get s' k now' = Some (s'', r, f')"
    using get_total [OF inv' assms(2), of now'] by (cases "get s' k now'") auto
  have "contents s k = Some x"
    using get_result [OF assms(1,3)]
    by (auto simp: lookup_result_def split: option.splits if_splits)
  moreover have "contents s' = contents s" using get_contents [OF assms(1,3)] by simp
  ultimately show ?thesis using get_result [OF inv' g] g by simp
qed

text \<open>The store never invents contents: it stays below any map that receives the same \<open>set\<close>s.\<close>

lemma get_below:
  assumes "inv s" and "get s k now = Some (s', r, f)" and "contents s \<subseteq>\<^sub>m m"
  shows "contents s' \<subseteq>\<^sub>m m"
  using get_contents [OF assms(1,2)] assms(3) by (auto simp: map_le_def split: if_splits)

lemma set_below:
  assumes "inv s" and "set s k x = Some s'" and "contents s \<subseteq>\<^sub>m m"
  shows "contents s' \<subseteq>\<^sub>m (if admits s x then m(k \<mapsto> x) else m)"
proof (cases "admits s x")
  case False
  then show ?thesis using set_rejects [OF assms(1) _ assms(2)] assms(3) by simp
next
  case True
  have "(m(k \<mapsto> x)) k' = Some y" if "contents s' k' = Some y" for k' y
  proof (cases "k' = k")
    case True
    with that set_stores [OF assms(1) \<open>admits s x\<close> assms(2)] show ?thesis by simp
  next
    case False
    with that set_others [OF assms(1,2) False] have "contents s k' = Some y" by simp
    with assms(3) False show ?thesis by (auto simp: map_le_def dom_def)
  qed
  then have "contents s' \<subseteq>\<^sub>m m(k \<mapsto> x)" unfolding map_le_def by fastforce
  with True show ?thesis by simp
qed

end

section \<open>The cache provides it\<close>

definition cache_admits :: "cache \<Rightarrow> object \<Rightarrow> bool" where
  "cache_admits c obj \<longleftrightarrow> 0 < c_budget c \<and> Object_size obj \<le> c_budget c"

definition cache_valid_key :: "string \<Rightarrow> bool" where
  "cache_valid_key key \<longleftrightarrow> shardFor key \<noteq> None"

lemma cache_valid_key_Key:
  assumes "sha (key_preimage h m u e) \<noteq> []"
  shows "cache_valid_key (Key sha h m u e)"
  using assms by (cases "sha (key_preimage h m u e)") (simp_all add: cache_valid_key_def Key_def shardFor_hex)

lemma peek_abs:
  assumes "cache_wf c" and "shardFor key = Some i"
  shows "peek c key = map_of (a_shards (abs_cache c) i) key"
  using assms abs_shard_map_of [OF assms(1) shardFor_less [OF assms(2)]] by (simp add: peek_def)

lemma map_of_forget: "map_of (forget k l) k' = (if k' = k then None else map_of l k')"
  by (induction l) (auto simp: forget_def)

lemma map_of_afit_le: "map_of (afit sb l) k = Some x \<Longrightarrow> distinct (map fst l) \<Longrightarrow> map_of l k = Some x"
  by (induction l arbitrary: sb) (fastforce split: if_splits dest: map_of_SomeD)+

lemma abs_distinct:
  assumes "cache_wf c" and "i < shardCount"
  shows "distinct (map fst (a_shards (abs_cache c) i))"
  using shard_wfD(2) [OF assms] assms(2) by (simp add: abs_shard lru_ok_def comp_def)

lemma Get_peek:
  assumes "cache_wf c" and "Cache_Get c key now = Some (c', r, f)"
  shows "(r, f) = lookup_result (peek c key) now"
    and "peek c' = (if r = None then (peek c)(key := None) else peek c)"
    and "c_budget c' = c_budget c"
proof -
  have *: "shardFor key = Some i \<Longrightarrow> s_items (c_shards c i) key = Some e \<Longrightarrow>
      e \<in> set (s_lru (c_shards c i)) \<and> e_key e = key" for i e
    using assms(1) by (auto dest: shardFor_less simp: items_member)
  show "(r, f) = lookup_result (peek c key) now"
    using assms(2) by (cases rule: Get_cases) (simp_all add: peek_def lookup_result_def)
  show "peek c' = (if r = None then (peek c)(key := None) else peek c)"
    using assms(2)
  proof (cases rule: Get_cases)
    case (absent i)
    then show ?thesis by (auto simp: peek_def fun_eq_iff split: option.splits)
  next
    case (expired i e)
    with * [of i e] show ?thesis
      by (auto simp: peek_def fun_eq_iff uncount_def put_shard_def removeLocked_def split: option.splits)
  next
    case (found i e)
    then show ?thesis
      by (auto simp: peek_def fun_eq_iff put_shard_def moveToFront_def split: option.splits)
  qed
  show "c_budget c' = c_budget c"
    using assms(2) by (cases rule: Get_cases) (simp_all add: uncount_def put_shard_def)
qed

lemma Set_budget: "cache_wf c \<Longrightarrow> Cache_Set c key x = Some c' \<Longrightarrow> c_budget c' = c_budget c"
  using refine_Set [of c key x]
  by (auto simp: spec_Set_def abs_cache_def put_list_def split: if_splits option.splits)

lemma put_list_simps [simp]:
  "a_shards (put_list i l a) = (a_shards a)(i := l)" "a_budget (put_list i l a) = a_budget a"
  by (simp_all add: put_list_def)

lemma a_budget_abs [simp]: "a_budget (abs_cache c) = c_budget c"
  by (simp add: abs_cache_def)

lemma Set_shards:
  assumes "cache_wf c" and "Cache_Set c key x = Some c'"
  shows "cache_admits c x \<Longrightarrow> shardFor key = Some i \<Longrightarrow>
      a_shards (abs_cache c') i = (key, x) # afit (shard_share (c_budget c) - Object_size x)
        (forget key (a_shards (abs_cache c) i))"
    and "\<not> (cache_admits c x \<and> shardFor key = Some j) \<Longrightarrow>
      a_shards (abs_cache c') j = a_shards (abs_cache c) j"
  using refine_Set [OF assms(1), of key x] assms(2)
  by (auto simp: spec_Set_def cache_admits_def split: option.splits if_splits
      dest!: sym [of _ "abs_cache c'"])

lemma Set_peek:
  assumes wf: "cache_wf c" and set: "Cache_Set c key x = Some c'"
  shows "cache_admits c x \<Longrightarrow> peek c' key = Some x"
    and "k' \<noteq> key \<Longrightarrow> peek c' k' = None \<or> peek c' k' = peek c k'"
proof -
  have wf': "cache_wf c'" using wf set by (rule Set_wf)
  show "peek c' key = Some x" if adm: "cache_admits c x"
  proof -
    from adm set obtain i where i: "shardFor key = Some i"
      by (auto simp: Cache_Set_def cache_admits_def Let_def split: option.splits if_splits)
    from Set_shards(1) [OF wf set adm i] show ?thesis by (simp add: peek_abs [OF wf' i])
  qed
  show "peek c' k' = None \<or> peek c' k' = peek c k'" if "k' \<noteq> key"
  proof (cases "shardFor k'")
    case None
    then show ?thesis by (simp add: peek_def)
  next
    case j: (Some j)
    show ?thesis
    proof (cases "cache_admits c x \<and> shardFor key = Some j")
      case False
      from Set_shards(2) [OF wf set this]
      show ?thesis by (simp add: peek_abs [OF wf' j] peek_abs [OF wf j])
    next
      case True
      let ?l = "afit (shard_share (c_budget c) - Object_size x) (forget key (a_shards (abs_cache c) j))"
      have "a_shards (abs_cache c') j = (key, x) # ?l"
        using True Set_shards(1) [OF wf set] by simp
      with that have "peek c' k' = map_of ?l k'" by (simp add: peek_abs [OF wf' j])
      moreover have "map_of ?l k' = Some y \<Longrightarrow> peek c k' = Some y" for y
        using that abs_distinct [OF wf shardFor_less [OF j]]
        by (auto dest!: map_of_afit_le simp: map_of_forget peek_abs [OF wf j] forget_def distinct_map_filter)
      ultimately show ?thesis by (cases "map_of ?l k'") auto
    qed
  qed
qed

interpretation obj_cache: object_store cache_wf Cache_Get Cache_Set peek cache_admits cache_valid_key
proof (unfold_locales, goal_cases)
  case (1 s k now)
  then show ?case by (simp add: Get_None_iff cache_valid_key_def)
next
  case (6 s k x)
  then show ?case
    by (auto simp: Cache_Set_def cache_valid_key_def Let_def split: option.splits)
next
  case (10 s x k s')
  then show ?case using Set_rejected [of s x k] by (auto simp: cache_admits_def)
qed (auto simp: cache_admits_def fun_eq_iff Set_budget Get_peek(3)
      intro: Get_wf Set_wf Get_peek(1) Set_peek(1) dest: Get_peek(2) Set_peek(2))

end
