(* ===== verification/CacheRuns.thy ===== *)
theory CacheRuns
  imports ObjectStore
begin

text \<open>
  Runs of the cache: any sequence of \<open>Get\<close>, \<open>Set\<close>, \<open>Delete\<close> and \<open>SetBudget\<close> calls from
  \<open>Cache_New\<close>, and the cache's properties over them: consistency of the two structures and the
  counters, coherence with an unbounded store, the capacity of a shard and of the whole.
\<close>

datatype cache_op =
    OpGet string time
  | OpSet string object
  | OpDelete string
  | OpSetBudget int

fun apply_op :: "cache \<Rightarrow> cache_op \<Rightarrow> cache option" where
  "apply_op c (OpGet k now) = map_option fst (Cache_Get c k now)"
| "apply_op c (OpSet k x) = Cache_Set c k x"
| "apply_op c (OpDelete k) = Cache_Delete c k"
| "apply_op c (OpSetBudget b) = Some (Cache_SetBudget c b)"

primrec run_ops :: "cache \<Rightarrow> cache_op list \<Rightarrow> cache option" where
  "run_ops c [] = Some c"
| "run_ops c (x # xs) = (case apply_op c x of None \<Rightarrow> None | Some c' \<Rightarrow> run_ops c' xs)"

lemma run_ops_invariant:
  assumes "run_ops c ops = Some c'" and "P c"
    and "\<And>c x c'. P c \<Longrightarrow> x \<in> set ops \<Longrightarrow> apply_op c x = Some c' \<Longrightarrow> P c'"
  shows "P c'"
  using assms
proof (induction ops arbitrary: c)
  case (Cons x xs)
  from Cons.prems(1) obtain c1 where c1: "apply_op c x = Some c1" "run_ops c1 xs = Some c'"
    by (auto split: option.splits)
  have "P c1" by (rule Cons.prems(3) [OF Cons.prems(2) _ c1(1)]) simp
  with c1(2) show ?case
  proof (rule Cons.IH)
    fix c y c' assume "P c" "y \<in> set xs" "apply_op c y = Some c'"
    then show "P c'" using Cons.prems(3) [of c y c'] by simp
  qed
qed simp

lemma apply_op_wf: "cache_wf c \<Longrightarrow> apply_op c x = Some c' \<Longrightarrow> cache_wf c'"
  by (cases x) (auto intro: inv_pres)

lemma run_ops_wf: "run_ops c ops = Some c' \<Longrightarrow> cache_wf c \<Longrightarrow> cache_wf c'"
  by (erule run_ops_invariant) (auto intro: apply_op_wf)

lemma run_ops_New_wf: "run_ops (Cache_New b) ops = Some c \<Longrightarrow> cache_wf c"
  using run_ops_wf cache_wf_New by blast

section \<open>Termination without panic\<close>

fun op_key_ok :: "cache_op \<Rightarrow> bool" where
  "op_key_ok (OpGet k now) = cache_valid_key k"
| "op_key_ok (OpSet k x) = cache_valid_key k"
| "op_key_ok (OpDelete k) = cache_valid_key k"
| "op_key_ok (OpSetBudget b) = True"

lemma apply_op_total:
  assumes "cache_wf c" and "op_key_ok x"
  shows "apply_op c x \<noteq> None"
proof (cases x)
  case (OpGet k now)
  with assms show ?thesis using obj_cache.get_total [of c k now] by simp
next
  case (OpSet k y)
  with assms show ?thesis using obj_cache.set_total [of c k y] by simp
next
  case (OpDelete k)
  with assms show ?thesis
    by (auto simp: Cache_Delete_def cache_valid_key_def Let_def split: option.splits)
qed simp

lemma run_ops_total:
  "cache_wf c \<Longrightarrow> list_all op_key_ok ops \<Longrightarrow> \<exists>c'. run_ops c ops = Some c'"
proof (induction ops arbitrary: c)
  case (Cons x xs)
  from Cons.prems apply_op_total obtain c1 where "apply_op c x = Some c1"
    by (metis list.pred_inject(2) not_None_eq)
  with Cons show ?case by (auto intro: apply_op_wf)
qed simp

section \<open>Coherence\<close>

text \<open>An unbounded store that admits the same objects: what the cache may serve.\<close>

fun ideal_step :: "(string \<Rightarrow> object option) \<times> int \<Rightarrow> cache_op \<Rightarrow> (string \<Rightarrow> object option) \<times> int" where
  "ideal_step (m, b) (OpGet k now) = (m, b)"
| "ideal_step (m, b) (OpSet k x) = (if 0 < b \<and> Object_size x \<le> b then (m(k \<mapsto> x), b) else (m, b))"
| "ideal_step (m, b) (OpDelete k) = (m(k := None), b)"
| "ideal_step (m, b) (OpSetBudget b') = (m, max 0 b')"

lemma peek_SetBudget_le:
  assumes "cache_wf c"
  shows "peek (Cache_SetBudget c b) \<subseteq>\<^sub>m peek c"
  unfolding map_le_def
proof
  fix k assume "k \<in> dom (peek (Cache_SetBudget c b))"
  then obtain i x where i: "shardFor k = Some i" and x: "peek (Cache_SetBudget c b) k = Some x"
    by (auto simp: peek_def split: option.splits)
  have wf': "cache_wf (Cache_SetBudget c b)" using assms by (rule SetBudget_wf)
  from x have "map_of (afit (shard_share (max 0 b)) (a_shards (abs_cache c) i)) k = Some x"
    using refine_SetBudget [OF assms, of b, symmetric]
    by (simp add: peek_abs [OF wf' i] spec_SetBudget_def)
  then have "map_of (a_shards (abs_cache c) i) k = Some x"
    using abs_distinct [OF assms shardFor_less [OF i]] by (rule map_of_afit_le)
  with x show "peek (Cache_SetBudget c b) k = peek c k" by (simp add: peek_abs [OF assms i])
qed

lemma peek_Delete:
  assumes "cache_wf c" and "Cache_Delete c key = Some c'"
  shows "peek c' = (peek c)(key := None)"
proof
  fix k
  have wf': "cache_wf c'" using assms by (rule Delete_wf)
  obtain i where i: "shardFor key = Some i"
    using assms(2) by (auto simp: Cache_Delete_def split: option.splits)
  have a: "abs_cache c' = put_list i (forget key (a_shards (abs_cache c) i)) (abs_cache c)"
    using refine_Delete [OF assms(1), of key] assms(2) i by (simp add: spec_Delete_def)
  show "peek c' k = ((peek c)(key := None)) k"
  proof (cases "shardFor k")
    case None
    then show ?thesis using i by (auto simp: peek_def)
  next
    case (Some j)
    then show ?thesis using i
      by (auto simp: peek_abs [OF wf' Some] peek_abs [OF assms(1) Some] a map_of_forget)
  qed
qed

lemma Delete_budget: "cache_wf c \<Longrightarrow> Cache_Delete c k = Some c' \<Longrightarrow> c_budget c' = c_budget c"
  by (auto simp: Cache_Delete_def uncount_def put_shard_def Let_def split: option.splits)

lemma apply_op_coherent:
  assumes "cache_wf c" and "apply_op c x = Some c'" and "peek c \<subseteq>\<^sub>m m"
  shows "peek c' \<subseteq>\<^sub>m fst (ideal_step (m, c_budget c) x)"
    and "c_budget c' = snd (ideal_step (m, c_budget c) x)"
proof -
  show "peek c' \<subseteq>\<^sub>m fst (ideal_step (m, c_budget c) x)"
  proof (cases x)
    case (OpGet k now)
    with assms show ?thesis by (auto intro: obj_cache.get_below)
  next
    case (OpSet k y)
    with assms obj_cache.set_below [of c k y c' m] show ?thesis
      by (auto simp: cache_admits_def)
  next
    case (OpDelete k)
    with assms show ?thesis by (auto simp: peek_Delete map_le_def)
  next
    case (OpSetBudget b)
    with assms peek_SetBudget_le [OF assms(1)] show ?thesis by (auto intro: map_le_trans)
  qed
  show "c_budget c' = snd (ideal_step (m, c_budget c) x)"
    using assms by (cases x) (auto simp: Get_peek(3) Set_budget Delete_budget SetBudget_closed(2))
qed

lemma run_ops_coherent:
  assumes "run_ops c ops = Some c'" and "cache_wf c" and "peek c \<subseteq>\<^sub>m m"
  shows "peek c' \<subseteq>\<^sub>m fst (foldl ideal_step (m, c_budget c) ops)"
  using assms
proof (induction ops arbitrary: c m)
  case (Cons x xs)
  then obtain c1 where c1: "apply_op c x = Some c1" "run_ops c1 xs = Some c'"
    by (auto split: option.splits)
  obtain m' b' where st: "ideal_step (m, c_budget c) x = (m', b')" by fastforce
  from apply_op_coherent [OF Cons.prems(2) c1(1) Cons.prems(3)] st
  have "peek c1 \<subseteq>\<^sub>m m'" "c_budget c1 = b'" by simp_all
  with Cons.IH [OF c1(2) apply_op_wf [OF Cons.prems(2) c1(1)]] st show ?case by simp
qed simp

section \<open>Capacity\<close>

definition within_share :: "cache \<Rightarrow> bool" where
  "within_share c \<longleftrightarrow>
     (\<forall>i < shardCount. s_bytes (c_shards c i) \<le> shard_share (c_budget c) \<or>
        length (s_lru (c_shards c i)) \<le> 1)"

lemma within_share_update:
  assumes "within_share c" and "c_shards c' = (c_shards c)(i := s)" and "c_budget c' = c_budget c"
    and "s_bytes s \<le> s_bytes (c_shards c i)" and "length (s_lru s) \<le> length (s_lru (c_shards c i))"
  shows "within_share c'"
  unfolding within_share_def assms(2,3)
proof (intro allI impI)
  fix j assume "j < shardCount"
  with assms(1) have "s_bytes (c_shards c j) \<le> shard_share (c_budget c) \<or> length (s_lru (c_shards c j)) \<le> 1"
    by (simp add: within_share_def)
  with assms(4,5) show "s_bytes (((c_shards c)(i := s)) j) \<le> shard_share (c_budget c) \<or>
      length (s_lru (((c_shards c)(i := s)) j)) \<le> 1"
    by (cases "j = i") auto
qed

lemma within_share_drop:
  assumes "cache_wf c" and "within_share c" and "i < shardCount" and "s_items (c_shards c i) key = Some e"
  shows "within_share (drop_from i e c)"
proof -
  note wf = shard_wfD [OF assms(1,3)]
  have e: "e \<in> set (s_lru (c_shards c i))" using assms by (simp add: items_member)
  then have "0 < e_size e" using wf(2) by (auto dest: lru_ok_size)
  then show ?thesis
    by (intro within_share_update [OF assms(2), where i = i and s = "removeLocked (c_shards c i) e"])
      (simp_all add: uncount_def put_shard_def removeLocked_def)
qed

lemma within_share_front:
  assumes "cache_wf c" and "within_share c" and "i < shardCount" and "s_items (c_shards c i) key = Some e"
  shows "within_share (put_shard i (moveToFront (c_shards c i) e) c)"
proof -
  note wf = shard_wfD [OF assms(1,3)]
  have e: "e \<in> set (s_lru (c_shards c i))" using assms by (simp add: items_member)
  then have "length (filter (\<lambda>x. e_ptr x \<noteq> e_ptr e) (s_lru (c_shards c i))) < length (s_lru (c_shards c i))"
    by (rule length_filter_less) simp
  then show ?thesis
    by (intro within_share_update [OF assms(2), where i = i and s = "moveToFront (c_shards c i) e"])
      (simp_all add: put_shard_def moveToFront_def)
qed

lemma within_share_counters [simp]:
  "within_share (c\<lparr>c_hits := h\<rparr>) = within_share c" "within_share (c\<lparr>c_misses := m\<rparr>) = within_share c"
  by (simp_all add: within_share_def)

lemma shard_bytes_total: "cache_wf c \<Longrightarrow> i < shardCount \<Longrightarrow>
    s_bytes (c_shards c i) = total_size (s_lru (c_shards c i))"
  using shard_wfD(1) by (metis mk_shard_simps(3))

lemma within_share_Set:
  assumes wf: "cache_wf c" and "within_share c" and "Cache_Set c key x = Some c'"
  shows "within_share c'"
proof (cases "cache_admits c x")
  case False
  with assms Set_rejected [of c x key] show ?thesis by (auto simp: cache_admits_def)
next
  case True
  with assms(3) obtain i where i: "shardFor key = Some i"
    by (auto simp: Cache_Set_def cache_admits_def Let_def split: option.splits)
  from True have adm: "0 < c_budget c" "Object_size x \<le> c_budget c" by (simp_all add: cache_admits_def)
  let ?sb = "shard_share (c_budget c)"
  obtain e where e: "cache_wf c'" "e_size e = Object_size x"
      "s_lru (c_shards c' i) = e # fit (?sb - Object_size x) (others key (s_lru (c_shards c i)))"
      "\<And>j. j \<noteq> i \<Longrightarrow> c_shards c' j = c_shards c j" "c_budget c' = c_budget c"
    by (rule Set_closed [OF wf i adm]) (use assms(3) in auto)
  have ok: "lru_ok (others key (s_lru (c_shards c i)))"
    unfolding others_def by (intro lru_ok_filter shard_wfD [OF wf] shardFor_less [OF i])
  have "s_bytes (c_shards c' i) \<le> ?sb \<or> length (s_lru (c_shards c' i)) \<le> 1"
  proof (cases "Object_size x \<le> ?sb")
    case True
    then have "total_size (s_lru (c_shards c' i)) \<le> ?sb"
      using fit_total [of "?sb - Object_size x"] e(2,3) by (simp add: algebra_simps)
    then show ?thesis using e(1) by (simp add: shard_bytes_total shardFor_less [OF i])
  next
    case False
    then show ?thesis using fit_negative [OF ok] e(3) by simp
  qed
  with assms(2) e(4,5) show ?thesis unfolding within_share_def by metis
qed

lemma within_share_SetBudget:
  assumes "cache_wf c"
  shows "within_share (Cache_SetBudget c b)"
proof -
  note closed = SetBudget_closed [OF assms]
  have "s_bytes (c_shards (Cache_SetBudget c b) i) \<le> shard_share (max 0 b)" if "i < shardCount" for i
    using that closed(1) [of b] closed(3) [OF that, of b] fit_total [of "shard_share (max 0 b)"]
    by (simp add: shard_bytes_total shardCount_def)
  then show ?thesis by (simp add: within_share_def closed(2))
qed

lemma apply_op_within_share:
  assumes "cache_wf c" and "within_share c" and "apply_op c x = Some c'"
  shows "within_share c'"
proof (cases x)
  case (OpGet k now)
  with assms(3) obtain r f where "Cache_Get c k now = Some (c', r, f)" by auto
  then show ?thesis
    by (cases rule: Get_cases)
      (simp_all add: assms within_share_drop within_share_front shardFor_less)
next
  case (OpDelete k)
  with assms show ?thesis
    by (auto simp: Cache_Delete_def Let_def split: option.splits
        intro!: within_share_drop dest: shardFor_less)
next
  case (OpSetBudget b)
  with assms show ?thesis by (auto simp: within_share_SetBudget)
qed (use assms within_share_Set in auto)

lemma run_ops_within_share:
  assumes "run_ops (Cache_New b) ops = Some c"
  shows "cache_wf c \<and> within_share c"
proof (rule run_ops_invariant [OF assms, where P = "\<lambda>c. cache_wf c \<and> within_share c"])
  show "cache_wf (Cache_New b) \<and> within_share (Cache_New b)"
    by (simp add: cache_wf_New) (simp add: within_share_def Cache_New_def empty_shard_def)
qed (auto intro: apply_op_wf apply_op_within_share)

text \<open>Where no object exceeds a shard's share, the whole cache stays within its budget.\<close>

lemma small_objects_within_budget:
  assumes "cache_wf c" and "within_share c" and "0 \<le> c_budget c"
    and "\<And>i e. i < shardCount \<Longrightarrow> e \<in> set (s_lru (c_shards c i)) \<Longrightarrow>
      e_size e \<le> shard_share (c_budget c)"
  shows "c_bytes c \<le> c_budget c"
proof -
  let ?sb = "shard_share (c_budget c)"
  have sb: "0 \<le> ?sb" using assms(3) by (simp add: shardCount_def)
  have "s_bytes (c_shards c i) \<le> ?sb" if i: "i < shardCount" for i
  proof -
    from assms(2) i consider "s_bytes (c_shards c i) \<le> ?sb" | "length (s_lru (c_shards c i)) \<le> 1"
      by (auto simp: within_share_def)
    then show ?thesis
    proof cases
      case 2
      then consider "s_lru (c_shards c i) = []" | e where "s_lru (c_shards c i) = [e]"
        by (cases "s_lru (c_shards c i)") auto
      then show ?thesis
        using assms(4) [OF i] sb by cases (simp_all add: shard_bytes_total [OF assms(1) i])
    qed
  qed
  then have "(\<Sum>i < shardCount. s_bytes (c_shards c i)) \<le> of_nat (card {..< shardCount}) * ?sb"
    by (intro sum_bounded_above) simp
  also have "\<dots> \<le> c_budget c" using assms(3) by (simp add: shardCount_def)
  finally show ?thesis using assms(1) by (simp add: cache_wf_def)
qed

end
