(* ===== verification/CacheProps.thy ===== *)
theory CacheProps
  imports CacheRuns
begin

text \<open>
  The properties of \<open>internal/cache/cache.go\<close>, each with a witness on a concrete cache.
\<close>

section \<open>Concrete data for the witnesses\<close>

definition sample_object :: "string \<Rightarrow> object" where
  "sample_object body =
     \<lparr>o_status = 200, o_header = [(''Content-Type'', [''text/plain''])], o_body = body,
      o_storedAt = 0, o_ttl = 60 * second, o_staleFor = 600 * second\<rparr>"

definition sample_key :: string where "sample_key = ''0aff''"
definition other_key :: string where "other_key = ''0bff''"

definition sample_ops :: "cache_op list" where
  "sample_ops =
     [OpSet sample_key (sample_object ''hello''), OpGet sample_key (5 * second),
      OpSet other_key (sample_object ''world''), OpDelete other_key]"

lemma sample_keys_ok [simp]: "cache_valid_key sample_key" "cache_valid_key other_key"
  by code_simp+

lemma sample_ops_ok: "list_all op_key_ok sample_ops"
  by (simp add: sample_ops_def)

lemma sample_admitted: "cache_admits (Cache_New 100000) (sample_object ''hello'')"
  by code_simp

lemma sample_fresh:
  "\<not> Object_evictable (sample_object b) (5 * second)" "\<not> Object_Expired (sample_object b) (5 * second)"
  by (simp_all add: sample_object_def Object_evictable_def Object_Expired_def second_def wrap64_def)

section \<open>Properties\<close>

text \<open>
  C2. From a new cache, every sequence of \<open>Get\<close>, \<open>Set\<close>, \<open>Delete\<close> and \<open>SetBudget\<close> calls with
  valid keys returns without a panic, and then the two structures of every shard agree: the map
  finds exactly the listed entries, under their own keys, no pointer or key occurs twice, every
  entry is charged its real footprint and lies in the shard its key selects, and the counters
  \<open>entries\<close> and \<open>bytes\<close> are the totals over the 256 shards.
\<close>

theorem Cache_run_consistent:
  assumes "list_all op_key_ok ops"
  shows "\<exists>c. run_ops (Cache_New b) ops = Some c \<and>
    (\<forall>i < shardCount. \<forall>k e.
       (s_items (c_shards c i) k = Some e \<longleftrightarrow> e \<in> set (s_lru (c_shards c i)) \<and> e_key e = k)) \<and>
    (\<forall>i < shardCount. let l = s_lru (c_shards c i) in
       distinct (map e_ptr l) \<and> distinct (map e_key l) \<and>
       (\<forall>e \<in> set l. e_size e = Object_size (e_obj e) \<and> shardFor (e_key e) = Some i) \<and>
       s_bytes (c_shards c i) = sum_list (map e_size l)) \<and>
    c_entries c = (\<Sum>i < shardCount. int (length (s_lru (c_shards c i)))) \<and>
    c_bytes c = (\<Sum>i < shardCount. s_bytes (c_shards c i))"
proof -
  obtain c where run: "run_ops (Cache_New b) ops = Some c"
    using run_ops_total [OF cache_wf_New assms] by blast
  then have wf: "cache_wf c" by (rule run_ops_New_wf)
  have "let l = s_lru (c_shards c i) in
       distinct (map e_ptr l) \<and> distinct (map e_key l) \<and>
       (\<forall>e \<in> set l. e_size e = Object_size (e_obj e) \<and> shardFor (e_key e) = Some i) \<and>
       s_bytes (c_shards c i) = sum_list (map e_size l)" if "i < shardCount" for i
    using shard_wfD [OF wf that] shard_bytes_total [OF wf that]
    by (simp add: lru_ok_def total_size_def Let_def)
  with run wf items_member [OF wf] show ?thesis
    by (intro exI [of _ c]) (simp add: cache_wf_def)
qed

theorem Cache_run_consistent_witness: "\<exists>c. run_ops (Cache_New 100000) sample_ops = Some c"
  using Cache_run_consistent [OF sample_ops_ok, of 100000] by blast

text \<open>
  C3. The pointer-and-counter cache implements the abstract one, a recency list of keys and
  objects per shard: on a well-formed cache each operation commutes with the abstraction. In the
  abstract cache \<open>Set\<close> puts the object in front and keeps, in recency order, what still fits the
  shard's share; \<open>SetBudget\<close> cuts every shard to its new share; \<open>Get\<close> moves a live object to
  the front and drops a dead one.
\<close>

theorem Cache_refines_lists:
  assumes "cache_wf c"
  shows "spec_Get (abs_cache c) key now = map_option (\<lambda>(c', r). (abs_cache c', r)) (Cache_Get c key now)
    \<and> spec_Set (abs_cache c) key obj = map_option abs_cache (Cache_Set c key obj)
    \<and> spec_Delete (abs_cache c) key = map_option abs_cache (Cache_Delete c key)
    \<and> spec_SetBudget (abs_cache c) b = abs_cache (Cache_SetBudget c b)"
  using assms by (simp add: refine_Get refine_Set refine_Delete refine_SetBudget)

theorem Cache_refines_lists_witness:
  "spec_Set (abs_cache (Cache_New 100000)) sample_key (sample_object ''hello'') =
     map_option abs_cache (Cache_Set (Cache_New 100000) sample_key (sample_object ''hello''))"
  using Cache_refines_lists [OF cache_wf_New, of 100000 sample_key "0" "sample_object ''hello''" 0]
  by blast

text \<open>
  C5. Coherence: whatever the cache holds under a key after any run is what an unbounded store
  with the same admissions would hold there, so a lookup can only return the object last
  admitted under that key and not deleted since; eviction and expiry lose objects but never
  bring back an older one or one of another key.
\<close>

theorem Cache_coherent:
  assumes "run_ops (Cache_New b) ops = Some c" and "Cache_Get c key now = Some (c', Some obj, f)"
  shows "fst (foldl ideal_step (Map.empty, b) ops) key = Some obj"
proof -
  have "peek c \<subseteq>\<^sub>m fst (foldl ideal_step (Map.empty, c_budget (Cache_New b)) ops)"
    by (rule run_ops_coherent [OF assms(1) cache_wf_New])
      (simp add: map_le_def dom_def peek_def Cache_New_def empty_shard_def split: option.splits)
  moreover have "peek c key = Some obj"
    using Get_peek(1) [OF run_ops_New_wf [OF assms(1)] assms(2)]
    by (auto simp: lookup_result_def split: option.splits if_splits)
  ultimately have "fst (foldl ideal_step (Map.empty, c_budget (Cache_New b)) ops) key = Some obj"
    unfolding map_le_def by (metis domI)
  then show ?thesis by (simp add: Cache_New_def)
qed

theorem Cache_coherent_witness:
  "\<exists>c c'. run_ops (Cache_New 100000) [OpSet sample_key (sample_object ''hello'')] = Some c \<and>
    Cache_Get c sample_key (5 * second) = Some (c', Some (sample_object ''hello''), Fresh) \<and>
    fst (foldl ideal_step (Map.empty, 100000) [OpSet sample_key (sample_object ''hello'')]) sample_key
      = Some (sample_object ''hello'')"
proof -
  let ?ops = "[OpSet sample_key (sample_object ''hello'')]"
  obtain c where c: "Cache_Set (Cache_New 100000) sample_key (sample_object ''hello'') = Some c"
    using obj_cache.set_total [OF cache_wf_New, of sample_key] by fastforce
  then have run: "run_ops (Cache_New 100000) ?ops = Some c" by simp
  obtain c' where g: "Cache_Get c sample_key (5 * second) = Some (c', Some (sample_object ''hello''), Fresh)"
    using obj_cache.get_after_set [OF cache_wf_New _ sample_admitted c, of "5 * second"] sample_fresh
    by (auto simp: lookup_result_simps)
  with Cache_coherent [OF run g] run show ?thesis by blast
qed

text \<open>
  An object that fits the whole budget is stored, even if it exceeds its shard's share, and
  the next lookups of its key return it, fresh up to its TTL and stale up to the end of its
  stale window; an object over the budget leaves the cache as it was.
\<close>

theorem Cache_set_then_get:
  assumes "cache_wf c" and "cache_valid_key key"
  shows "\<exists>c'. Cache_Set c key obj = Some c' \<and>
    (if 0 < c_budget c \<and> Object_size obj \<le> c_budget c
     then \<exists>c''. Cache_Get c' key now = Some (c'', lookup_result (Some obj) now)
     else c' = c)"
proof -
  obtain c' where c': "Cache_Set c key obj = Some c'"
    using obj_cache.set_total [OF assms] by fastforce
  show ?thesis
  proof (cases "cache_admits c obj")
    case True
    from obj_cache.get_after_set [OF assms True c'] c' True show ?thesis
      by (auto simp: cache_admits_def)
  next
    case False
    with c' obj_cache.set_rejects [OF assms(1) False c'] show ?thesis
      by (auto simp: cache_admits_def)
  qed
qed

theorem Cache_set_then_get_witness:
  "\<exists>c' c''. Cache_Set (Cache_New 100000) sample_key (sample_object ''hello'') = Some c' \<and>
    Cache_Get c' sample_key (5 * second) = Some (c'', Some (sample_object ''hello''), Fresh)"
  using Cache_set_then_get [OF cache_wf_New sample_keys_ok(1), of 100000 "sample_object ''hello''" "5 * second"]
    sample_admitted sample_fresh
  by (auto simp: cache_admits_def lookup_result_simps)

text \<open>
  Eviction takes the least recently used entries and no more than it must: the loop keeps a
  prefix of the recency list; the prefix fits the share (or is empty), every longer prefix does
  not, and the eviction counter grows by the number of entries dropped.
\<close>

theorem evict_keeps_longest_prefix:
  assumes "cache_wf c" and "i < shardCount"
  shows "\<exists>n \<le> length (s_lru (c_shards c i)).
    s_lru (c_shards (evictOverLocked c i sb None) i) = take n (s_lru (c_shards c i)) \<and>
    (n = 0 \<or> sum_list (map e_size (take n (s_lru (c_shards c i)))) \<le> sb) \<and>
    (\<forall>m. n < m \<and> m \<le> length (s_lru (c_shards c i)) \<longrightarrow>
       sb < sum_list (map e_size (take m (s_lru (c_shards c i))))) \<and>
    c_evictions (evictOverLocked c i sb None) =
      c_evictions c + of_nat (length (s_lru (c_shards c i)) - n)"
proof -
  let ?l = "s_lru (c_shards c i)" and ?c' = "evictOverLocked c i sb None"
  have ok: "lru_ok ?l" by (rule shard_wfD [OF assms(1,2)])
  have c': "?c' = shrink_to i (fit sb ?l) c" by (rule evict_wf_closed [OF assms(1,2)])
  obtain m where m: "fit sb ?l = take m ?l" using fit_prefix by blast
  define n where "n = min m (length ?l)"
  have n: "fit sb ?l = take n ?l" "n \<le> length ?l" "length (fit sb ?l) = n"
    using m by (auto simp: n_def min_def)
  have "n = 0 \<or> total_size (take n ?l) \<le> sb"
    using fit_total [of sb ?l] fit_negative [OF ok, of sb] n(1,3) by (cases "0 \<le> sb") auto
  moreover have "\<forall>m. n < m \<and> m \<le> length ?l \<longrightarrow> sb < total_size (take m ?l)"
    using fit_longest [OF ok, of sb] n(3) by simp
  moreover have "c_evictions ?c' = c_evictions c + of_nat (length ?l - n)"
    unfolding c' using n by (simp add: shrink_to_def Let_def)
  ultimately show ?thesis using n c' by (auto simp: total_size_def)
qed

theorem evict_keeps_longest_prefix_witness:
  "\<exists>c n. Cache_Set (Cache_New 100000) sample_key (sample_object ''hello'') = Some c \<and>
    length (s_lru (c_shards c 10)) = 1 \<and> n \<le> 1 \<and>
    s_lru (c_shards (evictOverLocked c 10 100 None) 10) = take n (s_lru (c_shards c 10))"
proof -
  have "map_option (\<lambda>c. length (s_lru (c_shards c 10)))
      (Cache_Set (Cache_New 100000) sample_key (sample_object ''hello'')) = Some 1"
    by code_simp
  then obtain c where c: "Cache_Set (Cache_New 100000) sample_key (sample_object ''hello'') = Some c"
      "length (s_lru (c_shards c 10)) = 1" by auto
  have "cache_wf c" using c(1) by (rule Set_wf [OF cache_wf_New])
  from evict_keeps_longest_prefix [OF this, of 10 100] c show ?thesis
    by (auto simp: shardCount_def)
qed

text \<open>
  Capacity: after any run every shard is within its share of the budget or holds a single
  object, and if no stored object exceeds the share, the accounted bytes stay within the budget.
\<close>

theorem Cache_capacity:
  assumes "run_ops (Cache_New b) ops = Some c"
  shows "(\<forall>i < shardCount. s_bytes (c_shards c i) \<le> go_div (c_budget c) (int shardCount) \<or>
      length (s_lru (c_shards c i)) \<le> 1) \<and>
    (0 \<le> c_budget c \<and>
     (\<forall>i < shardCount. \<forall>e \<in> set (s_lru (c_shards c i)). e_size e \<le> go_div (c_budget c) (int shardCount))
     \<longrightarrow> c_bytes c \<le> c_budget c)"
  using run_ops_within_share [OF assms] small_objects_within_budget [of c]
  unfolding within_share_def by blast

theorem Cache_capacity_witness:
  "\<exists>c. run_ops (Cache_New 100000) sample_ops = Some c \<and>
    (\<forall>i < shardCount. s_bytes (c_shards c i) \<le> go_div (c_budget c) (int shardCount) \<or>
      length (s_lru (c_shards c i)) \<le> 1)"
  using run_ops_total [OF cache_wf_New sample_ops_ok, of 100000] Cache_capacity by blast

text \<open>
  C19. Keys isolate requests: for NUL-free host, method and URI, and as long as SHA-256 does not
  collide on the two inputs, two requests get the same key only if host, method, URI and encoding
  bucket are all equal. Every key selects a shard: the one numbered by the first digest byte.
\<close>

theorem Key_isolates:
  assumes "CHR 0x00 \<notin> set host \<union> set method \<union> set uri"
    and "CHR 0x00 \<notin> set host' \<union> set method' \<union> set uri'"
    and "sha (key_preimage host method uri enc) = sha (key_preimage host' method' uri' enc') \<Longrightarrow>
      key_preimage host method uri enc = key_preimage host' method' uri' enc'"
    and "sha (key_preimage host method uri enc) \<noteq> []"
  shows "(Key sha host method uri enc = Key sha host' method' uri' enc' \<longleftrightarrow>
      host = host' \<and> method = method' \<and> uri = uri' \<and> enc = enc') \<and>
    shardFor (Key sha host method uri enc) = Some (of_char (hd (sha (key_preimage host method uri enc))))"
proof
  show "Key sha host method uri enc = Key sha host' method' uri' enc' \<longleftrightarrow>
      host = host' \<and> method = method' \<and> uri = uri' \<and> enc = enc'"
    unfolding Key_def using key_preimage_inj [OF assms(1,2)] assms(3) hex_encode_inj by blast
  show "shardFor (Key sha host method uri enc) = Some (of_char (hd (sha (key_preimage host method uri enc))))"
    using assms(4) by (cases "sha (key_preimage host method uri enc)") (simp_all add: Key_def shardFor_hex)
qed

theorem Key_isolates_witness:
  "Key id ''a.com'' ''GET'' ''/x'' [] \<noteq> Key id ''b.com'' ''GET'' ''/x'' []"
  using Key_isolates [of "''a.com''" "''GET''" "''/x''" "''b.com''" "''GET''" "''/x''" id "[]" "[]"]
  by (simp add: key_preimage_def)

lemma fresh_Set:
  assumes "cache_wf c" and "shardFor key = Some i" and "0 < c_budget c" "Object_size x \<le> c_budget c"
    and "s_lru (c_shards c i) = []"
  obtains c' where "Cache_Set c key x = Some c'" "cache_wf c'" "c_budget c' = c_budget c"
    "\<And>j. s_bytes (c_shards c' j) = (if j = i then Object_size x else s_bytes (c_shards c j))"
    "\<And>j. j \<noteq> i \<Longrightarrow> c_shards c' j = c_shards c j"
proof -
  obtain c' e where c': "Cache_Set c key x = Some c'" "cache_wf c'" "e_size e = Object_size x"
      "s_lru (c_shards c' i) = e # fit (shard_share (c_budget c) - Object_size x) (others key [])"
      "\<And>j. j \<noteq> i \<Longrightarrow> c_shards c' j = c_shards c j" "c_budget c' = c_budget c"
    by (rule Set_closed [OF assms(1-4)]) (simp add: assms(5))
  have "s_bytes (c_shards c' i) = Object_size x"
    using c'(3,4) shard_bytes_total [OF c'(2) shardFor_less [OF assms(2)]]
    by (simp add: others_def)
  with c' show ?thesis by (intro that [of c']) auto
qed

text \<open>
  The budget bounds a shard, not the cache: two objects whose keys select different shards
  are both kept as long as each fits the budget alone, so the accounted bytes are the sum of the
  two sizes, which may exceed the budget.
\<close>

theorem budget_is_per_shard:
  assumes "shardFor k1 = Some i" and "shardFor k2 = Some j" and "i \<noteq> j"
    and "Object_size x1 \<le> b" and "Object_size x2 \<le> b"
  shows "\<exists>c. run_ops (Cache_New b) [OpSet k1 x1, OpSet k2 x2] = Some c \<and> c_budget c = b \<and>
    c_bytes c = Object_size x1 + Object_size x2"
proof -
  have b: "0 < b" using assms(4) Object_size_ge [of x1] by simp
  let ?c0 = "Cache_New b"
  have New: "c_budget ?c0 = b" "c_shards ?c0 k = empty_shard" for k by (simp_all add: Cache_New_def)
  obtain c1 where c1: "Cache_Set ?c0 k1 x1 = Some c1" "cache_wf c1" "c_budget c1 = b"
      "\<And>k. s_bytes (c_shards c1 k) = (if k = i then Object_size x1 else 0)"
      "\<And>k. k \<noteq> i \<Longrightarrow> c_shards c1 k = empty_shard"
    by (rule fresh_Set [OF cache_wf_New assms(1), of b x1])
      (use b assms(4) in \<open>simp_all add: New empty_shard_def cong: if_cong\<close>)
  obtain c2 where c2: "Cache_Set c1 k2 x2 = Some c2" "cache_wf c2" "c_budget c2 = b"
      "\<And>k. s_bytes (c_shards c2 k) = (if k = j then Object_size x2 else s_bytes (c_shards c1 k))"
    by (rule fresh_Set [OF c1(2) assms(2), of x2])
      (use b assms(3,5) c1(3,5) in \<open>simp_all add: empty_shard_def\<close>)
  have "c_bytes c2 = (\<Sum>k < shardCount. (if k = i then Object_size x1 else 0) +
      (if k = j then Object_size x2 else 0))"
    using c2(2) assms(3) by (auto simp: cache_wf_def c2(4) c1(4) intro!: sum.cong)
  also have "\<dots> = Object_size x1 + Object_size x2"
    using shardFor_less [OF assms(1)] shardFor_less [OF assms(2)] by (simp add: sum.distrib)
  finally show ?thesis using c1(1) c2(1,3) by simp
qed

theorem budget_is_per_shard_witness:
  "\<exists>c. run_ops (Cache_New 300) [OpSet sample_key (sample_object ''hello''),
      OpSet ''1aff'' (sample_object ''world'')] = Some c \<and> c_budget c = 300 \<and> 2 * 256 < c_bytes c"
proof -
  have "shardFor sample_key = Some 10" "shardFor ''1aff'' = Some 26" by code_simp+
  from budget_is_per_shard [OF this, of "sample_object ''hello''" 300 "sample_object ''world''"]
  show ?thesis by (auto simp: Object_size_def header_size_def sample_object_def)
qed

end
