(* ===== verification/Memory.thy ===== *)
theory Memory
  imports CacheRuns
begin

text \<open>
  \<open>internal/cache/memory.go\<close>: sizing the cache from \<open>/proc/meminfo\<close> and the watchdog that adapts
  the budget to memory pressure. The file is an argument: \<open>None\<close> when it cannot be opened,
  otherwise the lines the scanner yields. Arithmetic on byte counts wraps at 64 bits.
\<close>

type_synonym meminfo = "string list option"

definition MiB :: int where "MiB = 2 ^ 20"
definition GiB :: int where "GiB = 2 ^ 30"

lemmas size_defs = MiB_def GiB_def

fun scan_meminfo :: "string list \<Rightarrow> int" where
  "scan_meminfo [] = 0"
| "scan_meminfo (line # rest) =
     (if \<not> hasPrefix line ''MemAvailable:'' then scan_meminfo rest
      else let fs = Fields line in
        if length fs < 2 then 0
        else case parseInt10 (fs ! 1) of
          None \<Rightarrow> 0
        | Some kb \<Rightarrow> wrap64 (kb * 2 ^ 10))"

definition memAvailable :: "meminfo \<Rightarrow> int" where
  "memAvailable f = (case f of None \<Rightarrow> 0 | Some ls \<Rightarrow> scan_meminfo ls)"

definition AutoBudget :: "meminfo \<Rightarrow> int" where
  "AutoBudget f =
     (let avail = memAvailable f in
      if avail \<le> 0 then 256 * MiB
      else
        let budget = go_div (wrap64 (avail * 4)) 10;
            budget = (if budget < 64 * MiB then 64 * MiB else budget);
            budget = (if budget > 8 * GiB then 8 * GiB else budget)
        in budget)"

text \<open>One tick of \<open>Watchdog\<close>: the body of the loop after \<open>ticker.C\<close> fired.\<close>

definition Watchdog_tick :: "int \<Rightarrow> int \<Rightarrow> cache \<Rightarrow> meminfo \<Rightarrow> cache" where
  "Watchdog_tick target headroom c f =
     (let avail = memAvailable f in
      if avail \<le> 0 then c
      else
        let budget = Cache_Budget c in
        if avail < headroom \<and> budget > 64 * MiB then
          let next = go_div (wrap64 (budget * 3)) 4;
              next = (if next < 64 * MiB then 64 * MiB else next)
          in Cache_SetBudget c next
        else if avail > wrap64 (headroom * 2) \<and> budget < target then
          let next = wrap64 (budget + go_div budget 10);
              next = (if next > target then target else next)
          in Cache_SetBudget c next
        else c)"

text \<open>\<open>Watchdog\<close> until its context is done: one tick per sample.\<close>

definition Watchdog :: "int \<Rightarrow> int \<Rightarrow> cache \<Rightarrow> meminfo list \<Rightarrow> cache" where
  "Watchdog target headroom c samples = foldl (Watchdog_tick target headroom) c samples"

section \<open>The budget of one tick\<close>

definition next_budget :: "int \<Rightarrow> int \<Rightarrow> int \<Rightarrow> int \<Rightarrow> int" where
  "next_budget target headroom avail b =
     (if avail \<le> 0 then b
      else if avail < headroom \<and> b > 64 * MiB then max (64 * MiB) (b * 3 div 4)
      else if avail > wrap64 (headroom * 2) \<and> b < target then min target (b + b div 10)
      else b)"

lemma Watchdog_tick_budget:
  assumes "cache_wf c" and "64 * MiB \<le> c_budget c" and "c_budget c \<le> target" and "target \<le> 2 ^ 61"
  shows "c_budget (Watchdog_tick target headroom c f) =
    next_budget target headroom (memAvailable f) (c_budget c)"
proof -
  have b: "0 < c_budget c" "c_budget c \<le> 2 ^ 61" using assms(2-4) by (simp_all add: MiB_def)
  then have i3: "int64 (c_budget c * 3)" and i10: "int64 (c_budget c + c_budget c div 10)"
    by (simp_all add: int64_def) linarith+
  let ?avail = "memAvailable f" and ?b = "c_budget c"
  note sb = SetBudget_closed(2) [OF assms(1)]
  consider (unknown) "?avail \<le> 0"
    | (low) "0 < ?avail" "?avail < headroom \<and> ?b > 64 * MiB"
    | (ample) "0 < ?avail" "\<not> (?avail < headroom \<and> ?b > 64 * MiB)"
        "?avail > wrap64 (headroom * 2) \<and> ?b < target"
    | (steady) "0 < ?avail" "\<not> (?avail < headroom \<and> ?b > 64 * MiB)"
        "\<not> (?avail > wrap64 (headroom * 2) \<and> ?b < target)" by linarith
  then show ?thesis
  proof cases
    case low
    then have "Watchdog_tick target headroom c f =
        Cache_SetBudget c (if ?b * 3 div 4 < 64 * MiB then 64 * MiB else ?b * 3 div 4)"
      using b by (simp add: Watchdog_tick_def Cache_Budget_def Let_def wrap64_id [OF i3])
    with low show ?thesis by (simp add: next_budget_def sb) (simp add: MiB_def)
  next
    case ample
    then have "Watchdog_tick target headroom c f =
        Cache_SetBudget c (if ?b + ?b div 10 > target then target else ?b + ?b div 10)"
      using b by (simp only: Watchdog_tick_def Cache_Budget_def Let_def not_le [THEN iffD2, THEN if_not_P]
          if_not_P [OF ample(2)] if_P [OF ample(3)] go_div_nonneg less_imp_le zero_less_numeral
          wrap64_id [OF i10] if_False if_True simp_thms)
    moreover have "0 \<le> target" using b assms(3) by simp
    ultimately show ?thesis using b ample(1)
      by (simp only: next_budget_def if_not_P [OF ample(2)] if_P [OF ample(3)]
          not_le [THEN iffD2, THEN if_not_P]) (simp add: sb min_def)
  next
    case steady
    then show ?thesis
      by (simp only: Watchdog_tick_def next_budget_def Cache_Budget_def Let_def
          not_le [THEN iffD2, THEN if_not_P] if_not_P [OF steady(2)] if_not_P [OF steady(3)])
        (simp only: if_False if_cancel)
  qed (simp add: Watchdog_tick_def next_budget_def)
qed

lemma Watchdog_tick_wf: "cache_wf c \<Longrightarrow> cache_wf (Watchdog_tick target headroom c f)"
  by (auto simp: Watchdog_tick_def Let_def intro: SetBudget_wf)

lemma Watchdog_tick_within_share:
  "cache_wf c \<Longrightarrow> within_share c \<Longrightarrow> within_share (Watchdog_tick target headroom c f)"
  by (auto simp: Watchdog_tick_def Let_def intro: within_share_SetBudget)

lemma next_budget_bounds:
  assumes "64 * MiB \<le> b" and "b \<le> target"
  shows "64 * MiB \<le> next_budget target headroom avail b" "next_budget target headroom avail b \<le> target"
proof -
  have "b \<le> b + b div 10" "b * 3 div 4 \<le> b" using assms(1) by (simp_all add: MiB_def)
  then show "64 * MiB \<le> next_budget target headroom avail b" "next_budget target headroom avail b \<le> target"
    using assms by (auto simp: next_budget_def)
qed

lemma Watchdog_invariant:
  assumes "cache_wf c" and "64 * MiB \<le> c_budget c" and "c_budget c \<le> target" and "target \<le> 2 ^ 61"
  shows "cache_wf (Watchdog target headroom c samples) \<and>
    64 * MiB \<le> c_budget (Watchdog target headroom c samples) \<and>
    c_budget (Watchdog target headroom c samples) \<le> target"
  using assms(1-3)
proof (induction samples arbitrary: c)
  case (Cons f samples)
  let ?c = "Watchdog_tick target headroom c f"
  have "64 * MiB \<le> c_budget ?c \<and> c_budget ?c \<le> target"
    using Cons.prems assms(4) by (simp add: Watchdog_tick_budget next_budget_bounds)
  with Cons.IH [of ?c] Cons.prems(1) show ?case by (simp add: Watchdog_def Watchdog_tick_wf)
qed (simp add: Watchdog_def)


section \<open>Pressure and recovery\<close>














section \<open>Properties\<close>

definition sample_meminfo :: meminfo where
  "sample_meminfo = Some [''MemTotal:  16000000 kB'', ''MemAvailable:   100000 kB'']"

lemma sample_meminfo_value: "memAvailable sample_meminfo = 102400000"
  by code_simp

text \<open>
  The automatic budget lies between 64 MiB and 8 GiB whatever \<open>/proc/meminfo\<close> holds, an
  unreadable or nonsensical file included; in between it is two fifths of the available memory.
\<close>

theorem AutoBudget_clamped:
  "64 * MiB \<le> AutoBudget f \<and> AutoBudget f \<le> 8 * GiB \<and>
   (0 < memAvailable f \<and> memAvailable f < 2 ^ 61 \<longrightarrow>
      AutoBudget f = max (64 * MiB) (min (8 * GiB) (memAvailable f * 4 div 10)))"
proof -
  have "int64 (memAvailable f * 4)" if "0 < memAvailable f" "memAvailable f < 2 ^ 61"
    using that by (simp add: int64_def)
  then show ?thesis
    by (auto simp: AutoBudget_def Let_def size_defs)
qed

theorem AutoBudget_clamped_witness: "AutoBudget sample_meminfo = 64 * MiB"
  using AutoBudget_clamped [of sample_meminfo] by (simp add: sample_meminfo_value size_defs)

text \<open>
  C28. The watchdog never leaves the corridor: started with a budget between the 64 MiB floor and
  its target, the cache stays consistent, its budget stays in the corridor, and after any series
  of memory samples every shard is within its share of the current budget or holds one object.
\<close>

theorem Watchdog_corridor:
  assumes "run_ops (Cache_New b) ops = Some c" and "64 * MiB \<le> c_budget c" and "c_budget c \<le> target"
    and "target \<le> 2 ^ 61"
  shows "cache_wf (Watchdog target headroom c samples) \<and>
    within_share (Watchdog target headroom c samples) \<and>
    64 * MiB \<le> c_budget (Watchdog target headroom c samples) \<and>
    c_budget (Watchdog target headroom c samples) \<le> target"
proof -
  have "cache_wf c \<and> within_share c" by (rule run_ops_within_share [OF assms(1)])
  moreover have "within_share (Watchdog target headroom c samples)"
    if "cache_wf c" "within_share c" for c
    using that unfolding Watchdog_def
    by (induction samples arbitrary: c) (simp_all add: Watchdog_tick_wf Watchdog_tick_within_share)
  ultimately show ?thesis using Watchdog_invariant assms(2-4) by blast
qed

theorem Watchdog_corridor_witness:
  "64 * MiB \<le> c_budget (Watchdog GiB (256 * MiB) (Cache_New GiB) [sample_meminfo])"
  using Watchdog_corridor [of GiB "[]" "Cache_New GiB" GiB "256 * MiB" "[sample_meminfo]"]
  by (simp add: Cache_New_def size_defs)






end
