(* ===== verification/Policy.thy ===== *)
theory Policy
  imports GoStrings
begin

text \<open>
  \<open>internal/cache/policy.go\<close>: which requests may use the cache and which responses are stored
  for how long. \<open>http.ParseTime\<close> is the argument \<open>parseTime\<close> (\<open>None\<close> for its error). The
  conversion of seconds to a \<open>time.Duration\<close> wraps at 64 bits, as the multiplication does.
\<close>

section \<open>Modes\<close>

datatype mode = ModeOff | ModeStandard | ModeAggressive

definition ParseMode :: "string \<Rightarrow> mode" where
  "ParseMode s =
     (let v = toLower (trimSpace s) in
      if v \<in> {''off'', ''none'', ''disabled''} then ModeOff
      else if v = ''aggressive'' then ModeAggressive
      else ModeStandard)"

fun Mode_String :: "mode \<Rightarrow> string" where
  "Mode_String ModeOff = ''off''"
| "Mode_String ModeAggressive = ''aggressive''"
| "Mode_String ModeStandard = ''standard''"

record policy =
  p_mode :: mode
  p_defaultTTL :: duration
  p_staleFor :: duration
  p_maxObjectBytes :: int

section \<open>Cache-Control\<close>

record cacheControl =
  cc_noStore :: bool
  cc_noCache :: bool
  cc_private :: bool
  cc_maxAge :: int
  cc_sMaxAge :: int

definition cc_init :: cacheControl where
  "cc_init = \<lparr>cc_noStore = False, cc_noCache = False, cc_private = False,
     cc_maxAge = -1, cc_sMaxAge = -1\<rparr>"

definition directive :: "string \<Rightarrow> string" where
  "directive part = trimSpace (toLower part)"

definition cc_step :: "cacheControl \<Rightarrow> string \<Rightarrow> cacheControl" where
  "cc_step cc raw =
     (let part = directive raw in
      if part = ''no-store'' then cc\<lparr>cc_noStore := True\<rparr>
      else if part = ''no-cache'' then cc\<lparr>cc_noCache := True\<rparr>
      else if part = ''private'' then cc\<lparr>cc_private := True\<rparr>
      else if hasPrefix part ''max-age='' then
        (case atoi (drop (length ''max-age='') part) of
           Some n \<Rightarrow> cc\<lparr>cc_maxAge := n\<rparr> | None \<Rightarrow> cc)
      else if hasPrefix part ''s-maxage='' then
        (case atoi (drop (length ''s-maxage='') part) of
           Some n \<Rightarrow> cc\<lparr>cc_sMaxAge := n\<rparr> | None \<Rightarrow> cc)
      else cc)"

definition parseCacheControl :: "string \<Rightarrow> cacheControl" where
  "parseCacheControl v = foldl cc_step cc_init (splitOn CHR '','' v)"

section \<open>Requests\<close>

definition CacheableRequest :: "policy \<Rightarrow> string \<Rightarrow> header \<Rightarrow> bool" where
  "CacheableRequest p meth h =
     (if p_mode p = ModeOff then False
      else if meth \<noteq> ''GET'' \<and> meth \<noteq> ''HEAD'' then False
      else if header_get h ''Authorization'' \<noteq> [] then False
      else if header_get h ''Range'' \<noteq> [] then False
      else if cc_noStore (parseCacheControl (header_get h ''Cache-Control'')) then False
      else if header_get h ''Cookie'' \<noteq> [] \<and> p_mode p \<noteq> ModeAggressive then False
      else True)"

section \<open>Responses\<close>

definition staticExt :: "string list" where
  "staticExt =
     [''.css'', ''.js'', ''.mjs'', ''.map'',
      ''.png'', ''.jpg'', ''.jpeg'', ''.gif'', ''.webp'',
      ''.avif'', ''.svg'', ''.ico'',
      ''.woff'', ''.woff2'', ''.ttf'', ''.otf'', ''.eot'',
      ''.mp4'', ''.webm'', ''.mp3'', ''.ogg'', ''.wav'',
      ''.pdf'', ''.txt'', ''.xml'', ''.json'',
      ''.zip'', ''.gz'', ''.br'', ''.tar'', ''.wasm'']"

definition cacheableStatus :: "int list" where
  "cacheableStatus = [200, 203, 204, 300, 301, 404, 405, 410, 414, 501]"

definition maxTTL :: duration where
  "maxTTL = 24 * hour * 7"

definition capTTL :: "duration \<Rightarrow> duration" where
  "capTTL ttl = (if ttl > maxTTL then maxTTL else ttl)"

definition ResponseTTL ::
  "(string \<Rightarrow> time option) \<Rightarrow> time \<Rightarrow> policy \<Rightarrow> string \<Rightarrow> int \<Rightarrow> header \<Rightarrow> duration \<times> bool" where
  "ResponseTTL parseTime now p reqPath status h =
     (if p_mode p = ModeOff \<or> status \<notin> set cacheableStatus then (0, False)
      else if header_get h ''Set-Cookie'' \<noteq> [] then (0, False)
      else if contains (toLower (header_get h ''Vary'')) ''*'' then (0, False)
      else
        let cc = parseCacheControl (header_get h ''Cache-Control'') in
        if cc_noStore cc \<or> cc_private cc then (0, False)
        else
          let explicit0 = (cc_noCache cc \<or> cc_maxAge cc \<ge> 0 \<or> cc_sMaxAge cc \<ge> 0);
              (ttl, explicit) =
                (if \<not> cc_noCache cc then
                   if cc_sMaxAge cc \<ge> 0 then (wrap64 (cc_sMaxAge cc * second), explicit0)
                   else if cc_maxAge cc \<ge> 0 then (wrap64 (cc_maxAge cc * second), explicit0)
                   else
                     let ex = header_get h ''Expires'' in
                     if ex \<noteq> [] then
                       (case parseTime ex of
                          Some t \<Rightarrow> (time_sub t now, True)
                        | None \<Rightarrow> (0, explicit0))
                     else (0, explicit0)
                 else (0, explicit0))
          in
            if ttl > 0 then (capTTL ttl, True)
            else if p_mode p = ModeAggressive then (p_defaultTTL p, p_defaultTTL p > 0)
            else if \<not> explicit \<and> toLower (path_ext reqPath) \<in> set staticExt
              then (p_defaultTTL p, p_defaultTTL p > 0)
            else (0, False))"

section \<open>What the parser finds\<close>

lemma cc_step_flags:
  "cc_noStore (cc_step cc raw) \<longleftrightarrow> cc_noStore cc \<or> directive raw = ''no-store''"
  "cc_noCache (cc_step cc raw) \<longleftrightarrow> cc_noCache cc \<or> directive raw = ''no-cache''"
  "cc_private (cc_step cc raw) \<longleftrightarrow> cc_private cc \<or> directive raw = ''private''"
  by (auto simp: cc_step_def Let_def split: option.splits)

lemma foldl_flag:
  assumes "\<And>cc r. sel (cc_step cc r) \<longleftrightarrow> sel cc \<or> directive r = d"
  shows "sel (foldl cc_step cc rs) \<longleftrightarrow> sel cc \<or> (\<exists>r \<in> set rs. directive r = d)"
  using assms by (induction rs arbitrary: cc) auto

definition has_directive :: "string \<Rightarrow> string \<Rightarrow> bool" where
  "has_directive v d \<longleftrightarrow> list_ex (\<lambda>r. directive r = d) (splitOn CHR '','' v)"

lemma parse_flags:
  "cc_noStore (parseCacheControl v) \<longleftrightarrow> has_directive v ''no-store''"
  "cc_noCache (parseCacheControl v) \<longleftrightarrow> has_directive v ''no-cache''"
  "cc_private (parseCacheControl v) \<longleftrightarrow> has_directive v ''private''"
  unfolding parseCacheControl_def has_directive_def
  by (simp_all add: foldl_flag [of cc_noStore, OF cc_step_flags(1)]
      foldl_flag [of cc_noCache, OF cc_step_flags(2)]
      foldl_flag [of cc_private, OF cc_step_flags(3)] cc_init_def list_ex_iff)

lemma cc_step_age_int64:
  "int64 (cc_maxAge cc) \<and> int64 (cc_sMaxAge cc) \<Longrightarrow>
   int64 (cc_maxAge (cc_step cc r)) \<and> int64 (cc_sMaxAge (cc_step cc r))"
  by (auto simp: cc_step_def Let_def dest: parseInt10_int64 split: option.splits)

lemma maxTTL_value: "maxTTL = 604800000000000"
  by (simp add: maxTTL_def duration_defs)

lemma capTTL_le: "capTTL ttl \<le> maxTTL"
  by (simp add: capTTL_def)

lemma capTTL_pos: "0 < ttl \<Longrightarrow> 0 < capTTL ttl"
  by (simp add: capTTL_def maxTTL_value)

text \<open>The freshness an origin states, before any default: the common part of both modes.\<close>

definition origin_ttl :: "(string \<Rightarrow> time option) \<Rightarrow> time \<Rightarrow> header \<Rightarrow> duration" where
  "origin_ttl parseTime now h =
     (let cc = parseCacheControl (header_get h ''Cache-Control'') in
      if cc_noCache cc then 0
      else if cc_sMaxAge cc \<ge> 0 then wrap64 (cc_sMaxAge cc * second)
      else if cc_maxAge cc \<ge> 0 then wrap64 (cc_maxAge cc * second)
      else if header_get h ''Expires'' = [] then 0
      else case parseTime (header_get h ''Expires'') of Some t \<Rightarrow> time_sub t now | None \<Rightarrow> 0)"

definition silent :: "(string \<Rightarrow> time option) \<Rightarrow> header \<Rightarrow> bool" where
  "silent parseTime h \<longleftrightarrow>
     (let cc = parseCacheControl (header_get h ''Cache-Control'') in
      \<not> cc_noCache cc \<and> cc_maxAge cc < 0 \<and> cc_sMaxAge cc < 0 \<and>
      (header_get h ''Expires'' = [] \<or> parseTime (header_get h ''Expires'') = None))"

definition forbidden :: "int \<Rightarrow> header \<Rightarrow> bool" where
  "forbidden status h \<longleftrightarrow>
     status \<notin> set cacheableStatus \<or> header_get h ''Set-Cookie'' \<noteq> [] \<or>
     contains (toLower (header_get h ''Vary'')) ''*'' \<or>
     has_directive (header_get h ''Cache-Control'') ''no-store'' \<or>
     has_directive (header_get h ''Cache-Control'') ''private''"

lemma ResponseTTL_eq:
  "ResponseTTL parseTime now p reqPath status h =
     (if p_mode p = ModeOff \<or> forbidden status h then (0, False)
      else if origin_ttl parseTime now h > 0 then (capTTL (origin_ttl parseTime now h), True)
      else if p_mode p = ModeAggressive \<or>
        silent parseTime h \<and> toLower (path_ext reqPath) \<in> set staticExt
      then (p_defaultTTL p, p_defaultTTL p > 0)
      else (0, False))"
proof (cases "p_mode p = ModeOff \<or> forbidden status h")
  case True
  then show ?thesis
    by (auto simp: ResponseTTL_def forbidden_def parse_flags Let_def)
next
  case False
  let ?cc = "parseCacheControl (header_get h ''Cache-Control'')"
  have ok: "\<not> (p_mode p = ModeOff \<or> status \<notin> set cacheableStatus)"
      "\<not> header_get h ''Set-Cookie'' \<noteq> []" "\<not> contains (toLower (header_get h ''Vary'')) ''*''"
      "\<not> (cc_noStore ?cc \<or> cc_private ?cc)"
    using False by (auto simp: forbidden_def parse_flags)
  show ?thesis
    unfolding ResponseTTL_def Let_def if_not_P [OF ok(1)] if_not_P [OF ok(2)] if_not_P [OF ok(3)]
      if_not_P [OF ok(4)] if_not_P [OF False]
    by (cases "parseTime (header_get h ''Expires'')")
      (auto simp: origin_ttl_def silent_def Let_def)
qed

end
