(* ===== verification/PolicyProps.thy ===== *)
theory PolicyProps
  imports Policy
begin

text \<open>
  The properties of \<open>internal/cache/policy.go\<close>.
\<close>

section \<open>The ages of a Cache-Control value\<close>

definition age_of :: "string \<Rightarrow> string \<Rightarrow> int option" where
  "age_of d r = (if hasPrefix (directive r) d then atoi (drop (length d) (directive r)) else None)"

definition last_age :: "string \<Rightarrow> string list \<Rightarrow> int" where
  "last_age d rs = (case rev (List.map_filter (age_of d) rs) of [] \<Rightarrow> -1 | n # _ \<Rightarrow> n)"

lemma last_age_snoc:
  "last_age d (rs @ [r]) = (case age_of d r of Some n \<Rightarrow> n | None \<Rightarrow> last_age d rs)"
  by (auto simp: last_age_def List.map_filter_def split: option.splits)

lemma no_age: "d \<in> {''no-store'', ''no-cache'', ''private''} \<Longrightarrow>
    \<not> hasPrefix d ''max-age='' \<and> \<not> hasPrefix d ''s-maxage=''"
  by (auto simp: hasPrefix_def)

lemma max_age_not_s_maxage: "hasPrefix r ''max-age='' \<Longrightarrow> \<not> hasPrefix r ''s-maxage=''"
  by (cases r) (auto simp: hasPrefix_def)

lemma cc_step_ages:
  "cc_maxAge (cc_step cc r) = (case age_of ''max-age='' r of Some n \<Rightarrow> n | None \<Rightarrow> cc_maxAge cc)"
  "cc_sMaxAge (cc_step cc r) = (case age_of ''s-maxage='' r of Some n \<Rightarrow> n | None \<Rightarrow> cc_sMaxAge cc)"
  using no_age [of "directive r"] max_age_not_s_maxage [of "directive r"]
  by (auto simp: cc_step_def age_of_def Let_def split: option.splits)

lemma parse_ages:
  "cc_maxAge (parseCacheControl v) = last_age ''max-age='' (splitOn CHR '','' v)"
  "cc_sMaxAge (parseCacheControl v) = last_age ''s-maxage='' (splitOn CHR '','' v)"
proof -
  have "cc_maxAge (foldl cc_step cc_init rs) = last_age ''max-age='' rs \<and>
      cc_sMaxAge (foldl cc_step cc_init rs) = last_age ''s-maxage='' rs" for rs
  proof (induction rs rule: rev_induct)
    case Nil
    then show ?case by (simp add: last_age_def cc_init_def List.map_filter_def)
  next
    case (snoc r rs)
    then show ?case by (simp add: cc_step_ages last_age_snoc split: option.split)
  qed
  then show "cc_maxAge (parseCacheControl v) = last_age ''max-age='' (splitOn CHR '','' v)"
    "cc_sMaxAge (parseCacheControl v) = last_age ''s-maxage='' (splitOn CHR '','' v)"
    by (simp_all add: parseCacheControl_def)
qed

section \<open>Concrete data for the witnesses\<close>

definition sample_policy :: "mode \<Rightarrow> policy" where
  "sample_policy m = \<lparr>p_mode = m, p_defaultTTL = hour, p_staleFor = 10 * minute,
     p_maxObjectBytes = 2 ^ 25\<rparr>"

definition no_date :: "string \<Rightarrow> time option" where
  "no_date s = None"

lemma sample_policy_simps [simp]:
  "p_mode (sample_policy m) = m" "p_defaultTTL (sample_policy m) = hour"
  by (simp_all add: sample_policy_def)

lemma ResponseTTL_cong:
  "header_get h = header_get h' \<Longrightarrow>
    ResponseTTL parseTime now p reqPath status h = ResponseTTL parseTime now p reqPath status h'"
  unfolding ResponseTTL_def by (erule ssubst) (rule refl)

section \<open>Properties\<close>



text \<open>
  Every TTL granted is positive, and at most seven days unless it is the domain's configured
  default.
\<close>

theorem ResponseTTL_bounds:
  assumes "ResponseTTL parseTime now p reqPath status h = (ttl, True)"
  shows "0 < ttl \<and> (ttl \<le> 7 * 24 * hour \<or> ttl = p_defaultTTL p)"
  using assms capTTL_le [of "origin_ttl parseTime now h"] capTTL_pos [of "origin_ttl parseTime now h"]
  by (auto simp: ResponseTTL_eq maxTTL_def split: if_splits)

theorem ResponseTTL_bounds_witness:
  "ResponseTTL no_date 0 (sample_policy ModeStandard) ''/app.js'' 200 [] = (hour, True) \<and> 0 < hour"
proof -
  have *: "ResponseTTL no_date 0 (sample_policy ModeStandard) ''/app.js'' 200 [] = (hour, True)"
    by code_simp
  from ResponseTTL_bounds [OF *] * show ?thesis by blast
qed

text \<open>
  Aggressive mode only adds to standard mode: with the other settings equal, a request that
  may use the cache in standard mode may use it in aggressive mode, and a response stored in
  standard mode is stored in aggressive mode for the same time.
\<close>

theorem aggressive_extends_standard:
  assumes "p_mode p = ModeStandard"
  defines "q \<equiv> p\<lparr>p_mode := ModeAggressive\<rparr>"
  shows "(CacheableRequest p meth rh \<longrightarrow> CacheableRequest q meth rh) \<and>
    (ResponseTTL parseTime now p reqPath status h = (ttl, True) \<longrightarrow>
     ResponseTTL parseTime now q reqPath status h = (ttl, True))"
  using assms(1) by (auto simp: q_def CacheableRequest_def ResponseTTL_eq split: if_splits)

theorem aggressive_extends_standard_witness:
  "CacheableRequest ((sample_policy ModeStandard)\<lparr>p_mode := ModeAggressive\<rparr>) ''GET'' []"
proof -
  have "CacheableRequest (sample_policy ModeStandard) ''GET'' []" by code_simp
  with aggressive_extends_standard [of "sample_policy ModeStandard" "''GET''" "[]"] show ?thesis
    by simp
qed

text \<open>
  \<open>parseCacheControl\<close> against its declarative reading: a flag is set iff one of the
  comma-separated parts is that directive, and each age is the last well-formed value given for
  it, or -1. Positions and unknown directives do not matter.
\<close>

theorem parseCacheControl_reading:
  "parseCacheControl v =
     (let parts = splitOn CHR '','' v in
      \<lparr>cc_noStore = (\<exists>r \<in> set parts. directive r = ''no-store''),
       cc_noCache = (\<exists>r \<in> set parts. directive r = ''no-cache''),
       cc_private = (\<exists>r \<in> set parts. directive r = ''private''),
       cc_maxAge = last_age ''max-age='' parts,
       cc_sMaxAge = last_age ''s-maxage='' parts\<rparr>)"
  by (rule cacheControl.equality)
    (simp_all add: Let_def parse_flags parse_ages has_directive_def list_ex_iff)

text \<open>
  A shared-cache age the origin states is honoured to the second, up to seven days: it
  overrides \<open>max-age\<close> and \<open>Expires\<close>, in both modes, as long as the conversion to nanoseconds
  fits 64 bits.
\<close>

theorem shared_age_honoured:
  assumes "p_mode p \<noteq> ModeOff" and "\<not> forbidden status h"
    and "\<not> has_directive (header_get h ''Cache-Control'') ''no-cache''"
    and "last_age ''s-maxage='' (splitOn CHR '','' (header_get h ''Cache-Control'')) = n"
    and "0 < n" and "n \<le> 9223372036"
  shows "ResponseTTL parseTime now p reqPath status h = (min (n * second) (7 * 24 * hour), True)"
proof -
  have "int64 (n * second)" using assms(5,6) by (simp add: int64_def second_def)
  then have "origin_ttl parseTime now h = n * second"
    using assms(3-5) by (simp add: origin_ttl_def parse_flags parse_ages)
  moreover have "0 < n * second" using assms(5) by (simp add: second_def)
  ultimately show ?thesis
    using assms(1,2) by (auto simp: ResponseTTL_eq capTTL_def maxTTL_def min_def)
qed

theorem shared_age_honoured_witness:
  "ResponseTTL no_date 0 (sample_policy ModeStandard) ''/'' 200
     [(''Cache-Control'', [''max-age=0, s-maxage=120''])] = (min (120 * second) (7 * 24 * hour), True)"
proof (rule shared_age_honoured)
  let ?h = "[(''Cache-Control'', [''max-age=0, s-maxage=120''])]"
  show "\<not> forbidden 200 ?h" by code_simp
  show "\<not> has_directive (header_get ?h ''Cache-Control'') ''no-cache''" by code_simp
  show "last_age ''s-maxage='' (splitOn CHR '','' (header_get ?h ''Cache-Control'')) = 120"
    by code_simp
qed simp_all

text \<open>
  An age beyond 64 bits of nanoseconds is not capped but lost: for a \<open>max-age\<close> from
  9223372037 to 18446744073 seconds (292 to 584 years) the multiplication wraps to a negative
  duration and standard mode stores nothing.
\<close>

theorem huge_max_age_not_stored:
  assumes "p_mode p = ModeStandard"
    and "last_age ''s-maxage='' (splitOn CHR '','' (header_get h ''Cache-Control'')) < 0"
    and "last_age ''max-age='' (splitOn CHR '','' (header_get h ''Cache-Control'')) = n"
    and "9223372037 \<le> n" and "n \<le> 18446744073"
  shows "ResponseTTL parseTime now p reqPath status h = (0, False)"
proof -
  have "wrap64 (n * second) < 0" using assms(4,5) by (rule wrap64_seconds)
  then have "\<not> 0 < origin_ttl parseTime now h"
    using assms(2-4) by (simp add: origin_ttl_def parse_ages Let_def)
  moreover have "\<not> silent parseTime h"
    using assms(3,4) by (simp add: silent_def parse_ages Let_def)
  ultimately show ?thesis using assms(1) by (simp add: ResponseTTL_eq)
qed

theorem huge_max_age_not_stored_witness:
  "ResponseTTL no_date 0 (sample_policy ModeStandard) ''/app.js'' 200
     [(''Cache-Control'', [''max-age=10000000000''])] = (0, False)"
proof (rule huge_max_age_not_stored)
  let ?h = "[(''Cache-Control'', [''max-age=10000000000''])]"
  show "last_age ''s-maxage='' (splitOn CHR '','' (header_get ?h ''Cache-Control'')) < 0" by code_simp
  show "last_age ''max-age='' (splitOn CHR '','' (header_get ?h ''Cache-Control'')) = 10000000000"
    by code_simp
qed simp_all

text \<open>
  Only the first \<open>Cache-Control\<close> line of a response counts: the decision does not depend on
  further lines, so a response whose second line says \<open>private\<close> is stored.
\<close>

theorem only_first_Cache_Control_line:
  "ResponseTTL parseTime now p reqPath status (AList.update ''Cache-Control'' (v # vs) h) =
     ResponseTTL parseTime now p reqPath status (AList.update ''Cache-Control'' [v] h) \<and>
   ResponseTTL no_date 0 (sample_policy ModeStandard) ''/'' 200
     [(''Cache-Control'', [''max-age=60'', ''private''])] = (60 * second, True)"
proof
  have "header_get (AList.update ''Cache-Control'' (v # vs) h) =
      header_get (AList.update ''Cache-Control'' [v] h)"
    by (simp add: header_get_def update_conv' fun_eq_iff)
  then show "ResponseTTL parseTime now p reqPath status (AList.update ''Cache-Control'' (v # vs) h) =
      ResponseTTL parseTime now p reqPath status (AList.update ''Cache-Control'' [v] h)"
    by (rule ResponseTTL_cong)
  show "ResponseTTL no_date 0 (sample_policy ModeStandard) ''/'' 200
     [(''Cache-Control'', [''max-age=60'', ''private''])] = (60 * second, True)"
    by code_simp
qed

end
