(* ===== verification/CertGuard.thy ===== *)
theory CertGuard
  imports Prelude
begin

text \<open>
  \<open>internal/certguard/certguard.go\<close>: sliding-window budgets for certificate issuance. The
  history \<open>events\<close> is a Go map from apex domains to issuance times, here an association list
  (the theorems do not depend on its order). The disk holds the history file and the temporary
  file it is renamed from; \<open>json.Marshal\<close> and \<open>json.Unmarshal\<close> are parameters, and what the
  file system does with a write or a rename is an argument of the operation that calls it.
\<close>

section \<open>State\<close>

type_synonym events = "(string \<times> time list) list"

record limits =
  l_apexDay :: int
  l_apexWeek :: int
  l_nodeHour :: int
  l_nodeWeek :: int

record guard =
  g_limits :: limits
  g_events :: events

text \<open>The rejections, all wrapping \<open>ErrLimited\<close>, with the arguments of their messages.\<close>

datatype limit_error =
    ApexDay string int
  | ApexWeek string int
  | NodeHour int
  | NodeWeek int

definition day :: duration where "day = 24 * hour"

definition retention :: duration where "retention = 8 * 24 * hour"

lemma window_values:
  "hour = 3600000000000" "day = 86400000000000" "7 * day = 604800000000000"
  "retention = 691200000000000"
  by (simp_all add: day_def retention_def duration_defs)

definition events_of :: "events \<Rightarrow> string \<Rightarrow> time list" where
  "events_of ev apex = (case map_of ev apex of Some ts \<Rightarrow> ts | None \<Rightarrow> [])"

section \<open>Operations\<close>

definition countSince :: "events \<Rightarrow> string \<Rightarrow> time \<Rightarrow> int" where
  "countSince ev apex cutoff = int (length (filter (\<lambda>t. t > cutoff) (events_of ev apex)))"

definition countAllSince :: "events \<Rightarrow> time \<Rightarrow> int" where
  "countAllSince ev cutoff = (\<Sum>apex \<leftarrow> map fst ev. countSince ev apex cutoff)"

definition pruneLocked :: "guard \<Rightarrow> time \<Rightarrow> guard" where
  "pruneLocked g now =
     (let cutoff = now - retention in
      g\<lparr>g_events := filter (\<lambda>(apex, ts). ts \<noteq> [])
          (map (\<lambda>(apex, ts). (apex, filter (\<lambda>t. t > cutoff) ts)) (g_events g))\<rparr>)"

text \<open>
  \<open>Check\<close> reads the clock twice, once in \<open>pruneLocked\<close> and once for the windows. \<open>None\<close> is the
  nil error.
\<close>

definition Check :: "guard \<Rightarrow> string \<Rightarrow> time \<Rightarrow> time \<Rightarrow> guard \<times> limit_error option" where
  "Check g0 apex now0 now =
     (let g = pruneLocked g0 now0; ev = g_events g; l = g_limits g in
      (g, if l_apexDay l > 0 \<and> countSince ev apex (now - 24 * hour) \<ge> l_apexDay l
            then Some (ApexDay apex (l_apexDay l))
          else if l_apexWeek l > 0 \<and> countSince ev apex (now - 7 * 24 * hour) \<ge> l_apexWeek l
            then Some (ApexWeek apex (l_apexWeek l))
          else if l_nodeHour l > 0 \<and> countAllSince ev (now - hour) \<ge> l_nodeHour l
            then Some (NodeHour (l_nodeHour l))
          else if l_nodeWeek l > 0 \<and> countAllSince ev (now - 7 * 24 * hour) \<ge> l_nodeWeek l
            then Some (NodeWeek (l_nodeWeek l))
          else None))"

section \<open>Persistence\<close>

record disk =
  d_file :: "bytes option"
  d_tmp :: "bytes option"

text \<open>
  What the file system does: a write fails and leaves some content in the temporary file, or
  the rename fails, or both succeed.
\<close>

datatype io_result = WriteFails "bytes option" | RenameFails | Persisted

definition saveLocked :: "(events \<Rightarrow> bytes option) \<Rightarrow> io_result \<Rightarrow> guard \<Rightarrow> disk \<Rightarrow> disk" where
  "saveLocked marshal io g d =
     (case marshal (g_events g) of
        None \<Rightarrow> d
      | Some data \<Rightarrow>
          (case io of
             WriteFails rest \<Rightarrow> d\<lparr>d_tmp := rest\<rparr>
           | RenameFails \<Rightarrow> d\<lparr>d_tmp := Some data\<rparr>
           | Persisted \<Rightarrow> d\<lparr>d_file := Some data, d_tmp := None\<rparr>))"

definition add_event :: "string \<Rightarrow> time \<Rightarrow> events \<Rightarrow> events" where
  "add_event apex now ev = AList.update apex (events_of ev apex @ [now]) ev"

definition Record ::
  "(events \<Rightarrow> bytes option) \<Rightarrow> io_result \<Rightarrow> guard \<Rightarrow> disk \<Rightarrow> string \<Rightarrow> time \<Rightarrow> guard \<times> disk" where
  "Record marshal io g d apex now =
     (let g' = g\<lparr>g_events := add_event apex now (g_events g)\<rparr>
      in (g', saveLocked marshal io g' d))"

text \<open>The outcome of \<open>os.ReadFile\<close>, and the two errors of \<open>New\<close>.\<close>

datatype read_result = NotExist | ReadFails | FileContent bytes

datatype new_error = ReadingFile | ParsingFile

definition read_disk :: "disk \<Rightarrow> read_result" where
  "read_disk d = (case d_file d of None \<Rightarrow> NotExist | Some data \<Rightarrow> FileContent data)"

definition Guard_New ::
  "(bytes \<Rightarrow> events option) \<Rightarrow> read_result \<Rightarrow> limits \<Rightarrow> time \<Rightarrow> new_error + guard" where
  "Guard_New unmarshal f l now =
     (let g = \<lparr>g_limits = l, g_events = []\<rparr> in
      case f of
        NotExist \<Rightarrow> Inr g
      | ReadFails \<Rightarrow> Inl ReadingFile
      | FileContent data \<Rightarrow>
          (case unmarshal data of
             None \<Rightarrow> Inl ParsingFile
           | Some ev \<Rightarrow> Inr (pruneLocked (g\<lparr>g_events := ev\<rparr>) now)))"

section \<open>The history as a map\<close>

text \<open>A Go map has every key once.\<close>

definition events_ok :: "events \<Rightarrow> bool" where
  "events_ok ev \<longleftrightarrow> distinct (map fst ev)"

lemma events_ok_Nil [simp]: "events_ok []"
  by (simp add: events_ok_def)

lemma events_ok_add [simp, inv_pres]: "events_ok ev \<Longrightarrow> events_ok (add_event apex t ev)"
  by (simp add: events_ok_def add_event_def distinct_update)

lemma events_ok_prune [simp, inv_pres]:
  "events_ok (g_events g) \<Longrightarrow> events_ok (g_events (pruneLocked g now))"
proof -
  have "map fst (g_events (pruneLocked g now)) =
      map fst (filter (\<lambda>(apex, ts). filter (\<lambda>t. t > now - retention) ts \<noteq> []) (g_events g))"
    by (simp add: pruneLocked_def Let_def filter_map o_def case_prod_unfold)
  then show "events_ok (g_events g) \<Longrightarrow> ?thesis"
    by (simp add: events_ok_def distinct_map_filter)
qed

lemma g_limits_prune [simp, frame]: "g_limits (pruneLocked g now) = g_limits g"
  by (simp add: pruneLocked_def Let_def)

lemma map_of_filter_keys:
  assumes "distinct (map fst xs)"
  shows "map_of (filter (\<lambda>(a, v). P v) xs) k =
    (case map_of xs k of Some v \<Rightarrow> if P v then Some v else None | None \<Rightarrow> None)"
  using assms
  by (induction xs) (auto split: option.splits simp: map_of_eq_None_iff dest: map_of_SomeD)

lemma events_of_prune:
  assumes "events_ok (g_events g)"
  shows "events_of (g_events (pruneLocked g now)) apex =
    filter (\<lambda>t. t > now - retention) (events_of (g_events g) apex)"
proof -
  let ?f = "\<lambda>ts. filter (\<lambda>t. t > now - retention) ts"
  let ?m = "map (\<lambda>(apex, ts). (apex, ?f ts)) (g_events g)"
  have "distinct (map fst ?m)"
    using assms by (simp add: events_ok_def o_def case_prod_unfold)
  from map_of_filter_keys [OF this, of "\<lambda>ts. ts \<noteq> []" apex]
  have *: "map_of (g_events (pruneLocked g now)) apex =
      (case map_of ?m apex of Some v \<Rightarrow> if v \<noteq> [] then Some v else None | None \<Rightarrow> None)"
    by (simp add: pruneLocked_def Let_def)
  show ?thesis
    unfolding events_of_def * map_of_map by (auto split: option.splits)
qed

lemma countSince_prune:
  assumes "events_ok (g_events g)" and "now - retention \<le> cutoff"
  shows "countSince (g_events (pruneLocked g now)) apex cutoff = countSince (g_events g) apex cutoff"
proof -
  have "filter (\<lambda>t. t > cutoff \<and> t > now - retention) ts = filter (\<lambda>t. t > cutoff) ts" for ts
    using assms(2) by (intro filter_cong) auto
  then show ?thesis using assms(1) by (simp add: countSince_def events_of_prune conj_commute)
qed

lemma countSince_add:
  "countSince (add_event apex t ev) a cutoff =
     countSince ev a cutoff + (if a = apex \<and> t > cutoff then 1 else 0)"
  by (simp add: countSince_def add_event_def events_of_def update_conv' split: option.splits)

lemma countSince_nonneg [simp]: "0 \<le> countSince ev a cutoff"
  by (simp add: countSince_def)

lemma countSince_antimono: "c \<le> c' \<Longrightarrow> countSince ev a c' \<le> countSince ev a c"
proof -
  have "length (filter (\<lambda>t. t > c') ts) \<le> length (filter (\<lambda>t. t > c) ts)" if "c \<le> c'" for ts :: "time list"
    using that by (induction ts) auto
  then show "c \<le> c' \<Longrightarrow> ?thesis" by (simp add: countSince_def)
qed

section \<open>Node-wide counts\<close>

lemma countSince_absent: "apex \<notin> set (map fst ev) \<Longrightarrow> countSince ev apex cutoff = 0"
  by (simp add: countSince_def events_of_def map_of_eq_None_iff [THEN iffD2])

lemma countAllSince_support:
  assumes "events_ok ev" and "finite A" and "\<And>a. a \<notin> A \<Longrightarrow> countSince ev a cutoff = 0"
  shows "countAllSince ev cutoff = (\<Sum>a\<in>A. countSince ev a cutoff)"
proof -
  let ?K = "set (map fst ev)"
  have "countAllSince ev cutoff = (\<Sum>a\<in>?K. countSince ev a cutoff)"
    using assms(1) unfolding countAllSince_def events_ok_def by (rule sum_list_distinct_conv_sum_set)
  also have "\<dots> = (\<Sum>a\<in>?K \<union> A. countSince ev a cutoff)"
    using assms(2) by (intro sum.mono_neutral_left) (auto simp: countSince_absent)
  also have "\<dots> = (\<Sum>a\<in>A. countSince ev a cutoff)"
    using assms(2,3) by (intro sum.mono_neutral_right) auto
  finally show ?thesis .
qed

lemma countAllSince_cong:
  assumes "events_ok ev" and "events_ok ev'"
    and "\<And>a. countSince ev' a cutoff' = countSince ev a cutoff"
  shows "countAllSince ev' cutoff' = countAllSince ev cutoff"
proof -
  let ?A = "set (map fst ev)"
  have "countAllSince ev' cutoff' = (\<Sum>a\<in>?A. countSince ev' a cutoff')"
    using assms by (intro countAllSince_support) (auto simp: countSince_absent)
  also have "\<dots> = countAllSince ev cutoff"
    using assms by (subst countAllSince_support [of ev ?A]) (auto simp: countSince_absent)
  finally show ?thesis .
qed

lemma countAllSince_prune:
  assumes "events_ok (g_events g)" and "now - retention \<le> cutoff"
  shows "countAllSince (g_events (pruneLocked g now)) cutoff = countAllSince (g_events g) cutoff"
  using assms by (intro countAllSince_cong) (auto simp: countSince_prune)

lemma countAllSince_add:
  assumes "events_ok ev"
  shows "countAllSince (add_event apex t ev) cutoff =
    countAllSince ev cutoff + (if t > cutoff then 1 else 0)"
proof -
  let ?A = "insert apex (set (map fst ev))"
  have "countAllSince (add_event apex t ev) cutoff =
      (\<Sum>a\<in>?A. countSince (add_event apex t ev) a cutoff)"
    using assms by (intro countAllSince_support) (auto simp: countSince_add countSince_absent)
  also have "\<dots> = (\<Sum>a\<in>?A. countSince ev a cutoff) + (\<Sum>a\<in>?A. if a = apex \<and> t > cutoff then 1 else 0)"
    by (simp only: countSince_add sum.distrib)
  also have "(\<Sum>a\<in>?A. if a = apex \<and> t > cutoff then 1 else 0) = (if t > cutoff then 1 else (0::int))"
    by (simp add: sum.insert_remove)
  also have "(\<Sum>a\<in>?A. countSince ev a cutoff) = countAllSince ev cutoff"
    using assms by (intro countAllSince_support [symmetric]) (auto simp: countSince_absent)
  finally show ?thesis .
qed

lemma countAllSince_antimono:
  assumes "c \<le> c'"
  shows "countAllSince ev c' \<le> countAllSince ev c"
  unfolding countAllSince_def by (intro sum_list_mono countSince_antimono assms)

lemma countAllSince_Nil [simp]: "countAllSince [] cutoff = 0" "countSince [] a cutoff = 0"
  by (simp_all add: countAllSince_def countSince_def events_of_def)

section \<open>What \<open>Check\<close> decides\<close>

lemma Check_None:
  "Check g apex now0 now = (g', None) \<longleftrightarrow>
     (let l = g_limits g; ev = g_events (pruneLocked g now0) in
      g' = pruneLocked g now0 \<and>
      (0 < l_apexDay l \<longrightarrow> countSince ev apex (now - day) < l_apexDay l) \<and>
      (0 < l_apexWeek l \<longrightarrow> countSince ev apex (now - 7 * day) < l_apexWeek l) \<and>
      (0 < l_nodeHour l \<longrightarrow> countAllSince ev (now - hour) < l_nodeHour l) \<and>
      (0 < l_nodeWeek l \<longrightarrow> countAllSince ev (now - 7 * day) < l_nodeWeek l))"
  unfolding Check_def Let_def day_def by (auto simp: not_le)

end
