(* ===== verification/Issuance.thy ===== *)
theory Issuance
  imports CertGuard "HOL-Library.Countable"
begin

text \<open>
  The guard at work. \<open>decideIssuance\<close> calls \<open>Check\<close> before an order is placed and
  \<open>onCertEvent\<close> calls \<open>Record\<close> once the certificate is there, so orders are in flight between
  the two, and several may be. The steps below are these calls, failed orders and restarts of
  the node; the state adds to guard and disk the approved orders in flight, the time of the last
  step and, as a ghost, the log of all certificates ever issued.
\<close>

record issuer =
  i_guard :: guard
  i_disk :: disk
  i_inflight :: "string list"
  i_clock :: time
  i_log :: "(string \<times> time) list"

datatype issue_event =
    Approved string time time
  | Refused string time time
  | Obtained string io_result time
  | Failed string
  | Restarted time

record codec =
  marshal :: "events \<Rightarrow> bytes option"
  unmarshal :: "bytes \<Rightarrow> events option"

text \<open>At most \<open>K\<close> orders are in flight at a time; the clock does not go back.\<close>

inductive issue_step :: "codec \<Rightarrow> nat \<Rightarrow> issuer \<Rightarrow> issue_event \<Rightarrow> issuer \<Rightarrow> bool"
  for C :: codec and K :: nat where
  approve: "i_clock s \<le> now0 \<Longrightarrow> now0 \<le> now \<Longrightarrow> length (i_inflight s) < K \<Longrightarrow>
    Check (i_guard s) apex now0 now = (g, None) \<Longrightarrow>
    issue_step C K s (Approved apex now0 now)
      (s\<lparr>i_guard := g, i_inflight := apex # i_inflight s, i_clock := now\<rparr>)"
| refuse: "i_clock s \<le> now0 \<Longrightarrow> now0 \<le> now \<Longrightarrow>
    Check (i_guard s) apex now0 now = (g, Some e) \<Longrightarrow>
    issue_step C K s (Refused apex now0 now) (s\<lparr>i_guard := g, i_clock := now\<rparr>)"
| obtain_cert: "i_clock s \<le> now \<Longrightarrow> apex \<in> set (i_inflight s) \<Longrightarrow>
    Record (marshal C) io (i_guard s) (i_disk s) apex now = (g, d) \<Longrightarrow>
    issue_step C K s (Obtained apex io now)
      (s\<lparr>i_guard := g, i_disk := d, i_inflight := remove1 apex (i_inflight s), i_clock := now,
         i_log := i_log s @ [(apex, now)]\<rparr>)"
| fail_order: "apex \<in> set (i_inflight s) \<Longrightarrow>
    issue_step C K s (Failed apex) (s\<lparr>i_inflight := remove1 apex (i_inflight s)\<rparr>)"
| restart: "i_clock s \<le> now \<Longrightarrow>
    Guard_New (unmarshal C) (read_disk (i_disk s)) (g_limits (i_guard s)) now = Inr g \<Longrightarrow>
    issue_step C K s (Restarted now) (s\<lparr>i_guard := g, i_inflight := [], i_clock := now\<rparr>)"

inductive_cases issue_stepE: "issue_step C K s e s'"

inductive issue_run :: "codec \<Rightarrow> nat \<Rightarrow> issuer \<Rightarrow> issue_event list \<Rightarrow> issuer \<Rightarrow> bool"
  for C :: codec and K :: nat where
  run_Nil: "issue_run C K s [] s"
| run_snoc: "issue_run C K s es s' \<Longrightarrow> issue_step C K s' e s'' \<Longrightarrow> issue_run C K s (es @ [e]) s''"

definition issuer_init :: "limits \<Rightarrow> time \<Rightarrow> issuer" where
  "issuer_init l now =
     \<lparr>i_guard = \<lparr>g_limits = l, g_events = []\<rparr>, i_disk = \<lparr>d_file = None, d_tmp = None\<rparr>,
      i_inflight = [], i_clock = now, i_log = []\<rparr>"

section \<open>Times in a window\<close>

definition since :: "time list \<Rightarrow> time \<Rightarrow> int" where
  "since ts c = int (length (filter (\<lambda>t. t > c) ts))"

definition within :: "time list \<Rightarrow> time \<Rightarrow> time \<Rightarrow> int" where
  "within ts lo hi = int (length (filter (\<lambda>t. lo < t \<and> t \<le> hi) ts))"

definition apex_times :: "(string \<times> time) list \<Rightarrow> string \<Rightarrow> time list" where
  "apex_times log a = map snd (filter (\<lambda>(b, t). b = a) log)"

definition node_times :: "(string \<times> time) list \<Rightarrow> time list" where
  "node_times log = map snd log"

lemma since_snoc [simp]: "since (ts @ [t]) c = since ts c + (if t > c then 1 else 0)"
  by (simp add: since_def)

lemma within_snoc: "within (ts @ [t]) lo hi = within ts lo hi + (if lo < t \<and> t \<le> hi then 1 else 0)"
  by (simp add: within_def)

lemma since_antimono: "c \<le> c' \<Longrightarrow> since ts c' \<le> since ts c"
  unfolding since_def by (induction ts) auto

lemma within_le_since: "within ts lo hi \<le> since ts lo"
  unfolding within_def since_def by (induction ts) auto

lemma apex_times_snoc [simp]:
  "apex_times (log @ [(b, t)]) a = apex_times log a @ (if b = a then [t] else [])"
  by (simp add: apex_times_def)

lemma node_times_snoc [simp]: "node_times (log @ [(b, t)]) = node_times log @ [t]"
  by (simp add: node_times_def)

text \<open>
  The invariant of one budget \<open>n\<close> over windows of width \<open>w\<close>: what was issued in the current
  window and the \<open>p\<close> orders in flight together stay within \<open>n - 1 + K\<close>, and so does what was
  issued in any window of the past.
\<close>

definition window_inv :: "nat \<Rightarrow> int \<Rightarrow> duration \<Rightarrow> time \<Rightarrow> time list \<Rightarrow> nat \<Rightarrow> bool" where
  "window_inv K n w clock ts p \<longleftrightarrow>
     (0 < n \<longrightarrow> since ts (clock - w) + int p \<le> n - 1 + int K \<and>
        (\<forall>T. within ts (T - w) T \<le> n - 1 + int K))"

lemma window_inv_tick:
  assumes "window_inv K n w clock ts p" and "clock \<le> clock'" and "p' \<le> p"
  shows "window_inv K n w clock' ts p'"
  using assms since_antimono [of "clock - w" "clock' - w" ts] by (auto simp: window_inv_def)

lemma window_inv_approve:
  assumes "window_inv K n w clock ts p" and "0 < n \<Longrightarrow> since ts (now - w) < n" and "p' \<le> K"
  shows "window_inv K n w now ts p'"
  using assms by (auto simp: window_inv_def)

lemma window_inv_obtain:
  assumes "window_inv K n w clock ts p" and "clock \<le> now" and "Suc p' \<le> p"
  shows "window_inv K n w now (ts @ [now]) p'"
  unfolding window_inv_def
proof (intro impI conjI allI)
  assume n: "0 < n"
  have now: "since ts (now - w) + int p \<le> n - 1 + int K"
    using assms n since_antimono [of "clock - w" "now - w" ts] by (auto simp: window_inv_def)
  then show "since (ts @ [now]) (now - w) + int p' \<le> n - 1 + int K" using assms(3) by auto
  fix T
  show "within (ts @ [now]) (T - w) T \<le> n - 1 + int K"
  proof (cases "T < now")
    case True
    then show ?thesis using assms(1) n by (auto simp: window_inv_def within_snoc)
  next
    case False
    then have "within ts (T - w) T \<le> since ts (now - w)"
      using within_le_since [of ts "T - w" T] since_antimono [of "now - w" "T - w" ts] by simp
    then show ?thesis using now assms(3) by (auto simp: within_snoc)
  qed
qed

section \<open>The guard's history and the log\<close>

definition matches :: "time \<Rightarrow> (string \<times> time) list \<Rightarrow> events \<Rightarrow> bool" where
  "matches clock log ev \<longleftrightarrow> events_ok ev \<and>
     (\<forall>c \<ge> clock - retention. (\<forall>a. countSince ev a c = since (apex_times log a) c) \<and>
        countAllSince ev c = since (node_times log) c)"

lemma matches_tick: "matches clock log ev \<Longrightarrow> clock \<le> clock' \<Longrightarrow> matches clock' log ev"
  by (auto simp: matches_def)

lemma matches_prune:
  assumes "matches clock log (g_events g)" and "clock \<le> now0" and "now0 \<le> now"
  shows "matches now log (g_events (pruneLocked g now0))"
  using assms by (auto simp: matches_def countSince_prune countAllSince_prune)

lemma matches_add:
  assumes "matches clock log ev" and "clock \<le> now"
  shows "matches now (log @ [(apex, now)]) (add_event apex now ev)"
  using assms by (auto simp: matches_def countSince_add countAllSince_add)

lemma matches_same_map:
  assumes "matches clock log ev" and "map_of ev' = map_of ev" and "events_ok ev'"
  shows "matches clock log ev'"
proof -
  have same: "countSince ev' a c = countSince ev a c" for a c
    using assms(2) by (simp add: countSince_def events_of_def)
  then have "countAllSince ev' c = countAllSince ev c" for c
    using assms(1,3) by (intro countAllSince_cong) (auto simp: matches_def)
  with same assms show ?thesis by (simp add: matches_def)
qed

text \<open>What \<open>json\<close> gives back: the same map, keys possibly in another order.\<close>

definition codec_ok :: "codec \<Rightarrow> bool" where
  "codec_ok C \<longleftrightarrow> (\<forall>ev. events_ok ev \<longrightarrow> (\<exists>data ev'. marshal C ev = Some data \<and>
     unmarshal C data = Some ev' \<and> map_of ev' = map_of ev \<and> events_ok ev'))"

definition on_disk :: "codec \<Rightarrow> disk \<Rightarrow> events \<Rightarrow> bool" where
  "on_disk C d ev \<longleftrightarrow> (case d_file d of None \<Rightarrow> ev = [] | Some data \<Rightarrow> unmarshal C data = Some ev)"

lemma saved_on_disk:
  assumes "codec_ok C" and "matches clock log (g_events g)"
  shows "\<exists>ev. on_disk C (saveLocked (marshal C) Persisted g d) ev \<and> matches clock log ev"
proof -
  from assms obtain data ev' where "marshal C (g_events g) = Some data"
      "unmarshal C data = Some ev'" "map_of ev' = map_of (g_events g)" "events_ok ev'"
    unfolding codec_ok_def matches_def by blast
  with matches_same_map [OF assms(2)] show ?thesis
    by (intro exI [of _ ev']) (simp add: on_disk_def saveLocked_def)
qed

lemma New_from_disk:
  assumes "on_disk C d ev"
  shows "Guard_New (unmarshal C) (read_disk d) l now =
    Inr (if d_file d = None then \<lparr>g_limits = l, g_events = []\<rparr>
         else pruneLocked \<lparr>g_limits = l, g_events = ev\<rparr> now)"
  using assms by (auto simp: on_disk_def read_disk_def Guard_New_def Let_def split: option.splits)

section \<open>The invariant of the node\<close>

text \<open>
  Whether the file holds the whole history after some events, that is, whether the last write of it
  succeeded; and whether it did each time the node was restarted. Writes may fail in between.
\<close>

definition save_state :: "issue_event list \<Rightarrow> bool \<times> bool" where
  "save_state es = foldl (\<lambda>(saved, ok) e.
     case e of
       Obtained _ io _ \<Rightarrow> (io = Persisted, ok)
     | Restarted _ \<Rightarrow> (saved, ok \<and> saved)
     | _ \<Rightarrow> (saved, ok)) (True, True) es"

definition restarts_saved :: "issue_event list \<Rightarrow> bool" where
  "restarts_saved es \<longleftrightarrow> snd (save_state es)"

lemma save_state_Nil [simp]: "save_state [] = (True, True)"
  by (simp add: save_state_def)

lemma save_state_snoc [simp]:
  "save_state (es @ [e]) =
     (case e of
        Obtained _ io _ \<Rightarrow> (io = Persisted, snd (save_state es))
      | Restarted _ \<Rightarrow> (fst (save_state es), snd (save_state es) \<and> fst (save_state es))
      | _ \<Rightarrow> save_state es)"
  by (simp add: save_state_def case_prod_unfold split: issue_event.split)

text \<open>A disk on which no write ever fails.\<close>

definition durable :: "issue_event list \<Rightarrow> bool" where
  "durable es \<longleftrightarrow> (\<forall>e \<in> set es. case e of Obtained _ io _ \<Rightarrow> io = Persisted | _ \<Rightarrow> True)"

lemma durable_saved: "durable es \<Longrightarrow> save_state es = (True, True)"
  by (induction es rule: rev_induct) (auto simp: durable_def split: issue_event.splits)

definition windows_inv :: "limits \<Rightarrow> nat \<Rightarrow> issuer \<Rightarrow> bool" where
  "windows_inv l K s \<longleftrightarrow>
     (let ts = apex_times (i_log s); all = node_times (i_log s); pend = i_inflight s in
      (\<forall>a. window_inv K (l_apexDay l) day (i_clock s) (ts a) (count_list pend a) \<and>
           window_inv K (l_apexWeek l) (7 * day) (i_clock s) (ts a) (count_list pend a)) \<and>
      window_inv K (l_nodeHour l) hour (i_clock s) all (length pend) \<and>
      window_inv K (l_nodeWeek l) (7 * day) (i_clock s) all (length pend))"

text \<open>The file holds some history that can be read, and the whole one if the last write succeeded.\<close>

definition issue_inv :: "codec \<Rightarrow> limits \<Rightarrow> nat \<Rightarrow> bool \<Rightarrow> issuer \<Rightarrow> bool" where
  "issue_inv C l K saved s \<longleftrightarrow>
     g_limits (i_guard s) = l \<and> length (i_inflight s) \<le> K \<and> windows_inv l K s \<and>
     matches (i_clock s) (i_log s) (g_events (i_guard s)) \<and>
     (\<exists>ev. on_disk C (i_disk s) ev \<and> (saved \<longrightarrow> matches (i_clock s) (i_log s) ev))"

lemma Check_passes:
  assumes "Check g apex now0 now = (g', None)" and "matches clock log (g_events g)"
    and "clock \<le> now0" and "now0 \<le> now"
  shows "g' = pruneLocked g now0"
    and "0 < l_apexDay (g_limits g) \<Longrightarrow> since (apex_times log apex) (now - day) < l_apexDay (g_limits g)"
    and "0 < l_apexWeek (g_limits g) \<Longrightarrow> since (apex_times log apex) (now - 7 * day) < l_apexWeek (g_limits g)"
    and "0 < l_nodeHour (g_limits g) \<Longrightarrow> since (node_times log) (now - hour) < l_nodeHour (g_limits g)"
    and "0 < l_nodeWeek (g_limits g) \<Longrightarrow> since (node_times log) (now - 7 * day) < l_nodeWeek (g_limits g)"
proof -
  have m: "matches now log (g_events (pruneLocked g now0))"
    using matches_prune assms(2-4) by blast
  have c: "now - retention \<le> now - day" "now - retention \<le> now - 7 * day" "now - retention \<le> now - hour"
    by (simp_all add: window_values)
  note counts = m [unfolded matches_def, THEN conjunct2, rule_format]
  note eqs = counts [OF c(1)] counts [OF c(2)] counts [OF c(3)]
  show "g' = pruneLocked g now0" using assms(1) unfolding Check_None Let_def by simp
  show "0 < l_apexDay (g_limits g) \<Longrightarrow> since (apex_times log apex) (now - day) < l_apexDay (g_limits g)"
    and "0 < l_apexWeek (g_limits g) \<Longrightarrow> since (apex_times log apex) (now - 7 * day) < l_apexWeek (g_limits g)"
    and "0 < l_nodeHour (g_limits g) \<Longrightarrow> since (node_times log) (now - hour) < l_nodeHour (g_limits g)"
    and "0 < l_nodeWeek (g_limits g) \<Longrightarrow> since (node_times log) (now - 7 * day) < l_nodeWeek (g_limits g)"
    using assms(1) eqs unfolding Check_None Let_def by simp_all
qed

lemma issue_inv_init: "issue_inv C l K saved (issuer_init l now)"
  by (simp add: issue_inv_def issuer_init_def windows_inv_def window_inv_def matches_def on_disk_def
      since_def within_def apex_times_def node_times_def)

lemma windows_inv_mono:
  assumes "windows_inv l K s" and "i_clock s \<le> i_clock s'" and "i_log s' = i_log s"
    and "\<And>a. count_list (i_inflight s') a \<le> count_list (i_inflight s) a"
    and "length (i_inflight s') \<le> length (i_inflight s)"
  shows "windows_inv l K s'"
  using assms by (auto simp: windows_inv_def Let_def intro: window_inv_tick)

lemma count_list_remove1:
  "x \<in> set xs \<Longrightarrow> count_list (remove1 x xs) a + (if a = x then 1 else 0) = count_list xs a"
  by (induction xs) auto

lemma remove1_count_le: "count_list (remove1 x xs) a \<le> count_list xs a"
  by (induction xs) auto

text \<open>Approving an order and obtaining a certificate keep every budget.\<close>

lemma windows_inv_approve:
  assumes w: "windows_inv l K s" and "i_clock s \<le> now" and "length (i_inflight s) < K"
    and day: "0 < l_apexDay l \<Longrightarrow> since (apex_times (i_log s) apex) (now - day) < l_apexDay l"
    and week: "0 < l_apexWeek l \<Longrightarrow> since (apex_times (i_log s) apex) (now - 7 * day) < l_apexWeek l"
    and hour: "0 < l_nodeHour l \<Longrightarrow> since (node_times (i_log s)) (now - hour) < l_nodeHour l"
    and all: "0 < l_nodeWeek l \<Longrightarrow> since (node_times (i_log s)) (now - 7 * day) < l_nodeWeek l"
  shows "windows_inv l K (s\<lparr>i_guard := g, i_inflight := apex # i_inflight s, i_clock := now\<rparr>)"
  unfolding windows_inv_def Let_def
proof (intro conjI allI)
  let ?s = "s\<lparr>i_guard := g, i_inflight := apex # i_inflight s, i_clock := now\<rparr>"
  fix a
  have pend: "count_list (apex # i_inflight s) a \<le> K"
    using assms(3) count_le_length [of "i_inflight s" a] by auto
  show "window_inv K (l_apexDay l) day (i_clock ?s) (apex_times (i_log ?s) a) (count_list (i_inflight ?s) a)"
    using w assms(2) day pend
    by (cases "a = apex") (auto simp: windows_inv_def Let_def intro: window_inv_tick window_inv_approve)
  show "window_inv K (l_apexWeek l) (7 * day) (i_clock ?s) (apex_times (i_log ?s) a) (count_list (i_inflight ?s) a)"
    using w assms(2) week pend
    by (cases "a = apex") (auto simp: windows_inv_def Let_def intro: window_inv_tick window_inv_approve)
qed (use w hour all assms(3) in \<open>auto simp: windows_inv_def Let_def intro: window_inv_approve\<close>)

lemma windows_inv_obtain:
  assumes w: "windows_inv l K s" and clock: "i_clock s \<le> now" and mem: "apex \<in> set (i_inflight s)"
  shows "windows_inv l K (s\<lparr>i_guard := g, i_disk := d, i_inflight := remove1 apex (i_inflight s),
    i_clock := now, i_log := i_log s @ [(apex, now)]\<rparr>)"
  unfolding windows_inv_def Let_def
proof (intro conjI allI)
  let ?s = "s\<lparr>i_guard := g, i_disk := d, i_inflight := remove1 apex (i_inflight s),
    i_clock := now, i_log := i_log s @ [(apex, now)]\<rparr>"
  fix a
  note pend = count_list_remove1 [OF mem, of a]
  show "window_inv K (l_apexDay l) day (i_clock ?s) (apex_times (i_log ?s) a) (count_list (i_inflight ?s) a)"
    using w clock pend
    by (cases "a = apex") (auto simp: windows_inv_def Let_def intro: window_inv_tick window_inv_obtain)
  show "window_inv K (l_apexWeek l) (7 * day) (i_clock ?s) (apex_times (i_log ?s) a) (count_list (i_inflight ?s) a)"
    using w clock pend
    by (cases "a = apex") (auto simp: windows_inv_def Let_def intro: window_inv_tick window_inv_obtain)
qed (use w clock length_remove1_Suc [OF mem] in \<open>auto simp: windows_inv_def Let_def intro: window_inv_obtain\<close>)

lemma restarted_matches:
  assumes "on_disk C d ev" and "matches t log ev" and "t \<le> now"
    and "g = (if d_file d = None then \<lparr>g_limits = l, g_events = []\<rparr> else pruneLocked \<lparr>g_limits = l, g_events = ev\<rparr> now)"
  shows "matches now log (g_events g)"
proof (cases "d_file d")
  case None
  with assms(1) have "ev = []" by (simp add: on_disk_def)
  with matches_tick [OF assms(2,3)] None show ?thesis by (simp add: assms(4))
next
  case (Some data)
  with matches_prune [of _ _ "\<lparr>g_limits = l, g_events = ev\<rparr>", OF _ assms(3) order_refl] assms(2)
  show ?thesis by (simp add: assms(4))
qed

lemma failed_write_on_disk:
  assumes "on_disk C d ev" and "io \<noteq> Persisted"
  shows "on_disk C (saveLocked (marshal C) io g d) ev"
  using assms by (cases io) (auto simp: on_disk_def saveLocked_def split: option.splits)

lemma issue_inv_step:
  assumes "issue_step C K s e s'" and "issue_inv C l K saved s" and "codec_ok C"
    and "\<And>t. e = Restarted t \<Longrightarrow> saved"
  shows "issue_inv C l K (case e of Obtained _ io _ \<Rightarrow> io = Persisted | _ \<Rightarrow> saved) s'"
  using assms(1)
proof (cases rule: issue_step.cases)
  case (approve now0 now apex g)
  have m: "matches (i_clock s) (i_log s) (g_events (i_guard s))" and l: "g_limits (i_guard s) = l"
    and w: "windows_inv l K s"
    using assms(2) by (simp_all add: issue_inv_def)
  note pass = Check_passes [OF approve(6) m approve(3,4)]
  have clock: "i_clock s \<le> now" using approve(3,4) by simp
  have "windows_inv l K s'"
    using windows_inv_approve [OF w clock approve(5)] pass(2-5) l approve(2) by simp
  then show ?thesis
    using assms(2) approve(5) pass(1) matches_prune [OF m approve(3,4)] matches_tick [OF _ clock] approve(1,2)
    by (auto simp: issue_inv_def)
next
  case (refuse now0 now apex g err)
  then show ?thesis
    using assms(2) matches_prune [of "i_clock s" "i_log s" "i_guard s" now0 now]
    by (auto simp: issue_inv_def Check_def Let_def intro: windows_inv_mono matches_tick)
next
  case (obtain_cert now apex io g d)
  have g: "g = (i_guard s)\<lparr>g_events := add_event apex now (g_events (i_guard s))\<rparr>"
    and d: "d = saveLocked (marshal C) io g (i_disk s)"
    using obtain_cert by (auto simp: Record_def Let_def)
  have m: "matches now (i_log s @ [(apex, now)]) (g_events g)"
    using assms(2) obtain_cert(3) by (auto simp: issue_inv_def g intro: matches_add)
  have w: "windows_inv l K s" using assms(2) by (simp add: issue_inv_def)
  note pend = length_remove1_Suc [OF obtain_cert(4)]
  have "windows_inv l K s'"
    using windows_inv_obtain [OF w obtain_cert(3,4)] obtain_cert(2) by simp
  moreover have "\<exists>ev. on_disk C d ev \<and> (io = Persisted \<longrightarrow> matches now (i_log s @ [(apex, now)]) ev)"
    using saved_on_disk [OF assms(3) m, of "i_disk s"] failed_write_on_disk [of C "i_disk s" _ io g] assms(2)
    by (cases "io = Persisted") (auto simp: issue_inv_def d)
  ultimately show ?thesis using assms(2) m pend obtain_cert(1,2) by (simp add: issue_inv_def g)
next
  case (fail_order apex)
  have w: "windows_inv l K s" using assms(2) by (simp add: issue_inv_def)
  have len: "length (remove1 apex (i_inflight s)) \<le> length (i_inflight s)"
    by (simp add: length_remove1)
  have "windows_inv l K s'"
    by (rule windows_inv_mono [OF w]) (simp_all add: fail_order(2) remove1_count_le len)
  then show ?thesis using assms(2) len fail_order(1,2) by (auto simp: issue_inv_def)
next
  case (restart now g)
  obtain ev where ev: "on_disk C (i_disk s) ev" "matches (i_clock s) (i_log s) ev"
    using assms(2) assms(4) [OF restart(1)] by (auto simp: issue_inv_def)
  have g: "g = (if d_file (i_disk s) = None then \<lparr>g_limits = l, g_events = []\<rparr>
      else pruneLocked \<lparr>g_limits = l, g_events = ev\<rparr> now)"
    using restart(4) New_from_disk [OF ev(1)] assms(2) by (auto simp: issue_inv_def)
  have "matches now (i_log s) (g_events g)" by (rule restarted_matches [OF ev restart(3) g])
  moreover have "windows_inv l K s'"
  proof (rule windows_inv_mono)
    show "windows_inv l K s" using assms(2) by (simp add: issue_inv_def)
  qed (simp_all add: restart(2,3))
  moreover have "g_limits g = l" by (simp add: g)
  moreover have "\<exists>ev. on_disk C (i_disk s) ev \<and> matches now (i_log s) ev"
    using ev(1) matches_tick [OF ev(2) restart(3)] by blast
  ultimately show ?thesis by (auto simp: issue_inv_def restart(1,2))
qed

lemma issue_inv_run:
  assumes "issue_run C K s es s'" and "issue_inv C l K True s" and "codec_ok C" and "restarts_saved es"
  shows "issue_inv C l K (fst (save_state es)) s'"
  using assms
proof (induction rule: issue_run.induct)
  case (run_snoc s es s' e s'')
  have "restarts_saved es" and "\<And>t. e = Restarted t \<Longrightarrow> fst (save_state es)"
    using run_snoc.prems(3) by (auto simp: restarts_saved_def split: issue_event.splits)
  with issue_inv_step [OF run_snoc.hyps(2) run_snoc.IH [OF run_snoc.prems(1,2)] run_snoc.prems(2)]
  show ?case by (cases e) simp_all
qed simp

end
