(* ===== verification/IssuanceProps.thy ===== *)
theory IssuanceProps
  imports Issuance
begin

text \<open>The properties of the certificate guard: the windows hold, how far concurrent orders can
  exceed them, and what a restart remembers.\<close>

section \<open>A codec\<close>

text \<open>A concrete codec for the witnesses: a history is stored as its number in an enumeration.\<close>

definition unary_codec :: codec where
  "unary_codec =
     \<lparr>marshal = (\<lambda>ev. Some (replicate (to_nat ev) CHR ''1'')),
      unmarshal = (\<lambda>s. Some (from_nat (length s)))\<rparr>"

lemma unary_codec_ok: "codec_ok unary_codec"
  by (simp add: codec_ok_def unary_codec_def)

section \<open>Runs at one instant\<close>

text \<open>With only a daily budget, \<open>m\<close> certificates issued and \<open>p\<close> orders in flight for one apex.\<close>

definition daily :: "int \<Rightarrow> limits" where
  "daily n = \<lparr>l_apexDay = n, l_apexWeek = 0, l_nodeHour = 0, l_nodeWeek = 0\<rparr>"

definition at_instant :: "codec \<Rightarrow> nat \<Rightarrow> int \<Rightarrow> string \<Rightarrow> time \<Rightarrow> nat \<Rightarrow> nat \<Rightarrow> bool" where
  "at_instant C K n a t m p \<longleftrightarrow> (\<exists>es s. durable es \<and> issue_run C K (issuer_init (daily n) t) es s \<and>
     i_inflight s = replicate p a \<and> i_log s = replicate m (a, t) \<and> i_clock s = t \<and>
     issue_inv C (daily n) K True s)"

lemma since_replicate: "since (apex_times (replicate m (a, t)) a) (t - day) = int m"
  by (simp add: since_def apex_times_def filter_replicate window_values)

lemma instant_start: "at_instant C K n a t 0 0"
  unfolding at_instant_def
proof (intro exI conjI)
  show "issue_run C K (issuer_init (daily n) t) [] (issuer_init (daily n) t)" by (rule issue_run.run_Nil)
  show "issue_inv C (daily n) K True (issuer_init (daily n) t)" by (rule issue_inv_init)
qed (simp_all add: durable_def issuer_init_def)

lemma instant_step:
  assumes "durable es" and "issue_run C K (issuer_init (daily n) t) es s" and "issue_step C K s e s'"
    and "durable [e]" and "codec_ok C" and "issue_inv C (daily n) K True s"
    and "i_inflight s' = replicate p a" "i_log s' = replicate m (a, t)" "i_clock s' = t"
  shows "at_instant C K n a t m p"
  unfolding at_instant_def
proof (intro exI [of _ "es @ [e]"] exI [of _ s'] conjI)
  show "durable (es @ [e])" using assms(1,4) by (simp add: durable_def)
  show "issue_run C K (issuer_init (daily n) t) (es @ [e]) s'"
    using assms(2,3) by (rule issue_run.run_snoc)
  show "issue_inv C (daily n) K True s'"
    using issue_inv_step [OF assms(3,6,5)] assms(4) by (cases e) (simp_all add: durable_def)
qed (fact assms)+

lemma instant_approve:
  assumes "at_instant C K n a t m p" and "codec_ok C" and "int m < n" and "p < K"
  shows "at_instant C K n a t m (Suc p)"
proof -
  obtain es s where s: "durable es" "issue_run C K (issuer_init (daily n) t) es s"
      "i_inflight s = replicate p a" "i_log s = replicate m (a, t)" "i_clock s = t"
      "issue_inv C (daily n) K True s"
    using assms(1) unfolding at_instant_def by blast
  let ?g = "pruneLocked (i_guard s) t"
  have "matches t (i_log s) (g_events ?g)"
    using s(5,6) matches_prune [of t "i_log s" "i_guard s" t t] by (simp add: issue_inv_def)
  then have "countSince (g_events ?g) a (t - day) = int m"
    using since_replicate [of m a t] s(4) by (simp add: matches_def window_values)
  then have "Check (i_guard s) a t t = (?g, None)"
    using assms(3) s(6) by (simp add: Check_None Let_def issue_inv_def daily_def)
  then have "issue_step C K s (Approved a t t)
      (s\<lparr>i_guard := ?g, i_inflight := a # i_inflight s, i_clock := t\<rparr>)"
    using s assms(4) by (intro issue_step.approve) auto
  from instant_step [OF s(1,2) this _ assms(2) s(6)] s(3,4) show ?thesis
    by (simp add: durable_def)
qed

lemma instant_obtain:
  assumes "at_instant C K n a t m (Suc p)" and "codec_ok C"
  shows "at_instant C K n a t (Suc m) p"
proof -
  obtain es s where s: "durable es" "issue_run C K (issuer_init (daily n) t) es s"
      "i_inflight s = replicate (Suc p) a" "i_log s = replicate m (a, t)" "i_clock s = t"
      "issue_inv C (daily n) K True s"
    using assms(1) unfolding at_instant_def by blast
  obtain g d where "Record (marshal C) Persisted (i_guard s) (i_disk s) a t = (g, d)" by fastforce
  then have "issue_step C K s (Obtained a Persisted t)
      (s\<lparr>i_guard := g, i_disk := d, i_inflight := remove1 a (i_inflight s), i_clock := t,
         i_log := i_log s @ [(a, t)]\<rparr>)"
    using s by (intro issue_step.obtain_cert) auto
  from instant_step [OF s(1,2) this _ assms(2) s(6), of p a "Suc m"] s(3,4) show ?thesis
    by (simp add: durable_def replicate_append_same)
qed

lemma instant_issue: "at_instant C K n a t m p \<Longrightarrow> codec_ok C \<Longrightarrow> at_instant C K n a t (m + p) 0"
  using instant_obtain [of C K n a t m] by (induction p arbitrary: m) (simp, metis add_Suc_shift instant_obtain)

lemma instant_sequential:
  "codec_ok C \<Longrightarrow> 0 < K \<Longrightarrow> int m \<le> n \<Longrightarrow> at_instant C K n a t m 0"
proof (induction m)
  case (Suc m)
  then have "at_instant C K n a t m (Suc 0)" by (intro instant_approve) simp_all
  from instant_obtain [OF this Suc.prems(1)] show ?case .
qed (rule instant_start)

lemma instant_parallel:
  "at_instant C K n a t m 0 \<Longrightarrow> codec_ok C \<Longrightarrow> int m < n \<Longrightarrow> p \<le> K \<Longrightarrow> at_instant C K n a t m p"
  by (induction p) (auto intro: instant_approve)

section \<open>Properties\<close>



text \<open>
  The bound is reached: for every daily budget \<open>n\<close> and every \<open>K\<close> there is a run that issues
  \<open>n - 1 + K\<close> certificates for one apex at once, so a burst of orders approved before the first
  of them is recorded exceeds the budget by \<open>K - 1\<close>.
\<close>

theorem concurrent_orders_exceed_budget:
  assumes "codec_ok C" and "0 < n" and "0 < K"
  shows "\<exists>es s. durable es \<and>
    issue_run C K (issuer_init \<lparr>l_apexDay = n, l_apexWeek = 0, l_nodeHour = 0, l_nodeWeek = 0\<rparr> t) es s \<and>
    within (apex_times (i_log s) apex) (t - day) t = n - 1 + int K"
proof -
  let ?m = "nat (n - 1)"
  have "at_instant C K n apex t ?m 0" using assms by (intro instant_sequential) simp_all
  from instant_parallel [OF this assms(1), of K] assms(2) have "at_instant C K n apex t ?m K" by simp
  from instant_issue [OF this assms(1)] obtain es s where
    s: "durable es" "issue_run C K (issuer_init (daily n) t) es s" "i_log s = replicate (?m + K) (apex, t)"
    unfolding at_instant_def by blast
  have "within (apex_times (i_log s) apex) (t - day) t = int (?m + K)"
    by (simp add: s(3) within_def apex_times_def filter_replicate window_values)
  then have "within (apex_times (i_log s) apex) (t - day) t = n - 1 + int K"
    using assms(2) by simp
  with s(1,2) show ?thesis unfolding daily_def by blast
qed

theorem concurrent_orders_exceed_budget_witness:
  "\<exists>es s. durable es \<and>
    issue_run unary_codec 3
      (issuer_init \<lparr>l_apexDay = 5, l_apexWeek = 0, l_nodeHour = 0, l_nodeWeek = 0\<rparr> 0) es s \<and>
    within (apex_times (i_log s) ''example.com'') (0 - day) 0 = 5 - 1 + int 3"
  by (rule concurrent_orders_exceed_budget [OF unary_codec_ok]) simp_all

text \<open>A history read back and pruned counts what the one that was written counts, within the week.\<close>

lemma reloaded_counts:
  assumes "map_of ev' = map_of (g_events g)" and "events_ok ev'" and "events_ok (g_events g)"
    and "later - 7 * day \<le> c"
  shows "countSince (g_events (pruneLocked \<lparr>g_limits = l, g_events = ev'\<rparr> later)) a c = countSince (g_events g) a c"
    and "countAllSince (g_events (pruneLocked \<lparr>g_limits = l, g_events = ev'\<rparr> later)) c = countAllSince (g_events g) c"
proof -
  have c: "later - retention \<le> c" using assms(4) by (simp add: window_values)
  have "countSince ev' a c = countSince (g_events g) a c" for a
    using assms(1) by (simp add: countSince_def events_of_def)
  moreover from this have "countAllSince ev' c = countAllSince (g_events g) c"
    using assms(2,3) by (intro countAllSince_cong)
  ultimately show "countSince (g_events (pruneLocked \<lparr>g_limits = l, g_events = ev'\<rparr> later)) a c = countSince (g_events g) a c"
      "countAllSince (g_events (pruneLocked \<lparr>g_limits = l, g_events = ev'\<rparr> later)) c = countAllSince (g_events g) c"
    using c assms(2) by (simp_all add: countSince_prune countAllSince_prune)
qed

text \<open>
  C32. A crash never corrupts the history: whatever happens to the write or the rename, after
  \<open>Record\<close> the history file is either the old one or the complete new one, so a restarted guard
  loads without an error; if the save went through, every window of up to seven days counts the
  same as before the restart, the new certificate included.
\<close>

theorem history_survives_restart:
  assumes "codec_ok C" and "events_ok (g_events g)" and "on_disk C d ev"
    and "Record (marshal C) io g d apex now = (g', d')"
  shows "d_file d' \<in> {d_file d, marshal C (g_events g')} \<and>
    (\<exists>g''. Guard_New (unmarshal C) (read_disk d') (g_limits g) later = Inr g'' \<and>
       (io = Persisted \<longrightarrow> (\<forall>c \<ge> later - 7 * day.
          (\<forall>a. countSince (g_events g'') a c =
             countSince (g_events g) a c + (if a = apex \<and> now > c then 1 else 0)) \<and>
          countAllSince (g_events g'') c = countAllSince (g_events g) c + (if now > c then 1 else 0))))"
proof
  have g': "g_events g' = add_event apex now (g_events g)"
    and d': "d' = saveLocked (marshal C) io g' d"
    using assms(4) by (auto simp: Record_def Let_def)
  have ok: "events_ok (g_events g')" using assms(2) by (simp add: g')
  obtain data ev' where data: "marshal C (g_events g') = Some data" "unmarshal C data = Some ev'"
      "map_of ev' = map_of (g_events g')" "events_ok ev'"
    using assms(1) ok unfolding codec_ok_def by blast
  show "d_file d' \<in> {d_file d, marshal C (g_events g')}"
    by (auto simp: d' saveLocked_def data(1) split: io_result.split)
  let ?ev = "if io = Persisted then ev' else ev"
  have disk: "on_disk C d' ?ev"
    using assms(3) data(1,2) by (cases io) (auto simp: d' saveLocked_def on_disk_def)
  let ?g = "if d_file d' = None then \<lparr>g_limits = g_limits g, g_events = []\<rparr>
    else pruneLocked \<lparr>g_limits = g_limits g, g_events = ?ev\<rparr> later"
  have same: "countSince (g_events ?g) a c = countSince (g_events g') a c"
      "countAllSince (g_events ?g) c = countAllSince (g_events g') c"
    if "io = Persisted" and "later - 7 * day \<le> c" for a c
    using reloaded_counts [OF data(3,4) ok that(2)] that(1) data(1) by (simp_all add: d' saveLocked_def)
  have "countSince (g_events ?g) a c =
        countSince (g_events g) a c + (if a = apex \<and> now > c then 1 else 0)"
      "countAllSince (g_events ?g) c = countAllSince (g_events g) c + (if now > c then 1 else 0)"
    if "io = Persisted" and "later - 7 * day \<le> c" for a c
    using same [OF that] by (simp_all only: g' countSince_add countAllSince_add [OF assms(2)])
  with New_from_disk [OF disk, of "g_limits g" later]
  show "\<exists>g''. Guard_New (unmarshal C) (read_disk d') (g_limits g) later = Inr g'' \<and>
       (io = Persisted \<longrightarrow> (\<forall>c \<ge> later - 7 * day.
          (\<forall>a. countSince (g_events g'') a c =
             countSince (g_events g) a c + (if a = apex \<and> now > c then 1 else 0)) \<and>
          countAllSince (g_events g'') c = countAllSince (g_events g) c + (if now > c then 1 else 0)))"
    by blast
qed

theorem history_survives_restart_witness:
  "\<exists>g''. Guard_New (unmarshal unary_codec)
       (read_disk (snd (Record (marshal unary_codec) Persisted
          \<lparr>g_limits = daily 2, g_events = []\<rparr> \<lparr>d_file = None, d_tmp = None\<rparr> ''a.com'' 5)))
       (daily 2) 9 = Inr g'' \<and> countSince (g_events g'') ''a.com'' 0 = 1"
proof -
  let ?g = "\<lparr>g_limits = daily 2, g_events = []\<rparr>" and ?d = "\<lparr>d_file = None, d_tmp = None\<rparr>"
  obtain g' d' where r: "Record (marshal unary_codec) Persisted ?g ?d ''a.com'' 5 = (g', d')"
    by fastforce
  have "events_ok (g_events ?g)" "on_disk unary_codec ?d []" by (simp_all add: on_disk_def)
  from history_survives_restart [OF unary_codec_ok this r, of 9]
  show ?thesis by (auto simp: r window_values)
qed

end
