(* ===== verification/GoNet.thy ===== *)
theory GoNet
  imports GoStrings
begin

unbundle bit_operations_syntax

text \<open>
  The parts of Go's \<open>net\<close> and \<open>net/netip\<close> packages the program calls. An address is its
  16-byte form; IPv4 addresses are the mapped ones, as \<open>net.IP.To16\<close> gives them, so that
  \<open>IP.Equal\<close> is equality. Parsing follows \<open>netip.ParseAddr\<close> byte by byte.
\<close>

section \<open>Positions\<close>

fun index_of :: "char \<Rightarrow> string \<Rightarrow> nat option" where
  "index_of c [] = None"
| "index_of c (x # s) = (if x = c then Some 0 else map_option Suc (index_of c s))"

definition last_index_of :: "char \<Rightarrow> string \<Rightarrow> nat option" where
  "last_index_of c s = map_option (\<lambda>i. length s - 1 - i) (index_of c (rev s))"

lemma index_of_None: "index_of c s = None \<longleftrightarrow> c \<notin> set s"
  by (induction s) auto

lemma index_of_Some: "index_of c s = Some i \<Longrightarrow> i < length s \<and> s ! i = c \<and> c \<notin> set (take i s)"
  by (induction s arbitrary: i) (auto split: if_splits)

section \<open>SplitHostPort\<close>

datatype addr_error = MissingPort | TooManyColons | MissingBracket | UnexpectedOpen | UnexpectedClose

definition SplitHostPort :: "string \<Rightarrow> addr_error + string \<times> string" where
  "SplitHostPort hostport =
     (case last_index_of CHR '':'' hostport of
        None \<Rightarrow> Inl MissingPort
      | Some i \<Rightarrow>
          (let finish = (\<lambda>host j k.
             if CHR ''['' \<in> set (drop j hostport) then Inl UnexpectedOpen
             else if CHR '']'' \<in> set (drop k hostport) then Inl UnexpectedClose
             else Inr (host, drop (i + 1) hostport))
           in if hd hostport = CHR ''['' then
                (case index_of CHR '']'' hostport of
                   None \<Rightarrow> Inl MissingBracket
                 | Some e \<Rightarrow>
                     if e + 1 = length hostport then Inl MissingPort
                     else if e + 1 = i then finish (drop 1 (take e hostport)) 1 (e + 1)
                     else if hostport ! (e + 1) = CHR '':'' then Inl TooManyColons
                     else Inl MissingPort)
              else if CHR '':'' \<in> set (take i hostport) then Inl TooManyColons
              else finish (take i hostport) 0 0))"

section \<open>ParseIP\<close>

type_synonym ip = "8 word list"

definition v4_mapped :: "8 word list \<Rightarrow> ip" where
  "v4_mapped b = replicate 10 0 @ [0xFF, 0xFF] @ b"

text \<open>\<open>parseIPv4Fields\<close>: four decimal fields, no leading zeros, each at most 255.\<close>

definition v4_field :: "string \<Rightarrow> 8 word option" where
  "v4_field f =
     (if f = [] \<or> \<not> list_all is_digit f then None
      else if length f > 1 \<and> hd f = CHR ''0'' then None
      else if dec_val f > 255 then None
      else Some (word_of_int (dec_val f)))"

definition parseIPv4Fields :: "string \<Rightarrow> 8 word list option" where
  "parseIPv4Fields s =
     (case map v4_field (splitOn CHR ''.'' s) of
        [Some a, Some b, Some c, Some d] \<Rightarrow> Some [a, b, c, d]
      | _ \<Rightarrow> None)"

definition hex_val :: "char \<Rightarrow> int option" where
  "hex_val c =
     (if 48 \<le> byte c \<and> byte c \<le> 57 then Some (int (byte c) - 48)
      else if 97 \<le> byte c \<and> byte c \<le> 102 then Some (int (byte c) - 97 + 10)
      else if 65 \<le> byte c \<and> byte c \<le> 70 then Some (int (byte c) - 65 + 10)
      else None)"

definition is_hex :: "char \<Rightarrow> bool" where
  "is_hex c \<longleftrightarrow> hex_val c \<noteq> None"

definition hex_group :: "string \<Rightarrow> int" where
  "hex_group s = foldl (\<lambda>acc c. acc * 16 + the (hex_val c)) 0 s"

text \<open>
  The loop of \<open>parseIPv6\<close>: \<open>n\<close> groups of the address are still free (\<open>i = 16 - 2 n\<close> bytes are
  in \<open>ip\<close>), \<open>ell\<close> is the position of the ellipsis. The result is the state after the loop
  with the unread rest.
\<close>

fun v6_loop :: "nat \<Rightarrow> 8 word list \<Rightarrow> nat option \<Rightarrow> string \<Rightarrow> (8 word list \<times> nat option \<times> string) option" where
  "v6_loop 0 ip ell s = Some (ip, ell, s)"
| "v6_loop (Suc n) ip ell s =
     (let g = takeWhile is_hex s; rest = dropWhile is_hex s; i = length ip in
      if length g > 4 then None
      else if g = [] then None
      else if rest \<noteq> [] \<and> hd rest = CHR ''.'' then
        (if ell = None \<and> i \<noteq> 12 then None
         else if i + 4 > 16 then None
         else case parseIPv4Fields s of
           None \<Rightarrow> None
         | Some b \<Rightarrow> Some (ip @ b, ell, []))
      else
        let acc = hex_group g;
            ip1 = ip @ [word_of_int (acc div 256), word_of_int acc]
        in if rest = [] then Some (ip1, ell, [])
           else if hd rest \<noteq> CHR '':'' then None
           else if length rest = 1 then None
           else
             let s1 = drop 1 rest in
             if hd s1 = CHR '':'' then
               (if ell \<noteq> None then None
                else
                  let s2 = drop 1 s1 in
                  if s2 = [] then Some (ip1, Some (length ip1), [])
                  else v6_loop n ip1 (Some (length ip1)) s2)
             else v6_loop n ip1 ell s1)"

definition v6_expand :: "8 word list \<Rightarrow> nat option \<Rightarrow> ip option" where
  "v6_expand ip ell =
     (if length ip < 16 then
        (case ell of
           None \<Rightarrow> None
         | Some e \<Rightarrow> Some (take e ip @ replicate (16 - length ip) 0 @ drop e ip))
      else if ell \<noteq> None then None
      else Some ip)"

text \<open>\<open>net.ParseIP\<close> rejects every address with a zone.\<close>

definition parseIPv6 :: "string \<Rightarrow> ip option" where
  "parseIPv6 s =
     (if CHR ''%'' \<in> set s then None
      else
        let lead = hasPrefix s ''::''; s1 = (if lead then drop 2 s else s) in
        if lead \<and> s1 = [] then Some (replicate 16 0)
        else case v6_loop 8 [] (if lead then Some 0 else None) s1 of
          None \<Rightarrow> None
        | Some (ip, ell, rest) \<Rightarrow> if rest \<noteq> [] then None else v6_expand ip ell)"

definition ParseIP :: "string \<Rightarrow> ip option" where
  "ParseIP s =
     (case dropWhile (\<lambda>c. c \<notin> {CHR ''.'', CHR '':'', CHR ''%''}) s of
        [] \<Rightarrow> None
      | c # _ \<Rightarrow>
          if c = CHR ''.'' then map_option v4_mapped (parseIPv4Fields s)
          else if c = CHR '':'' then parseIPv6 s
          else None)"

section \<open>Address classes\<close>

definition To4 :: "ip \<Rightarrow> 8 word list option" where
  "To4 ip =
     (if length ip = 16 \<and> take 12 ip = replicate 10 0 @ [0xFF, 0xFF] then Some (drop 12 ip) else None)"

definition IsLoopback :: "ip \<Rightarrow> bool" where
  "IsLoopback ip =
     (case To4 ip of Some b \<Rightarrow> b ! 0 = 127 | None \<Rightarrow> ip = replicate 15 0 @ [1])"

definition IsUnspecified :: "ip \<Rightarrow> bool" where
  "IsUnspecified ip \<longleftrightarrow> ip = v4_mapped [0, 0, 0, 0] \<or> ip = replicate 16 0"

definition IsPrivate :: "ip \<Rightarrow> bool" where
  "IsPrivate ip =
     (case To4 ip of
        Some b \<Rightarrow> b ! 0 = 10 \<or> (b ! 0 = 172 \<and> b ! 1 AND 0xF0 = 16) \<or> (b ! 0 = 192 \<and> b ! 1 = 168)
      | None \<Rightarrow> length ip = 16 \<and> ip ! 0 AND 0xFE = 0xFC)"

definition IsLinkLocalUnicast :: "ip \<Rightarrow> bool" where
  "IsLinkLocalUnicast ip =
     (case To4 ip of
        Some b \<Rightarrow> b ! 0 = 169 \<and> b ! 1 = 254
      | None \<Rightarrow> length ip = 16 \<and> ip ! 0 = 0xFE \<and> ip ! 1 AND 0xC0 = 0x80)"

definition IsLinkLocalMulticast :: "ip \<Rightarrow> bool" where
  "IsLinkLocalMulticast ip =
     (case To4 ip of
        Some b \<Rightarrow> b ! 0 = 224 \<and> b ! 1 = 0 \<and> b ! 2 = 0
      | None \<Rightarrow> length ip = 16 \<and> ip ! 0 = 0xFF \<and> ip ! 1 AND 0x0F = 0x02)"

definition IsMulticast :: "ip \<Rightarrow> bool" where
  "IsMulticast ip =
     (case To4 ip of
        Some b \<Rightarrow> b ! 0 AND 0xF0 = 0xE0
      | None \<Rightarrow> length ip = 16 \<and> ip ! 0 = 0xFF)"

lemma To4_mapped [simp]: "length b = 4 \<Longrightarrow> To4 (v4_mapped b) = Some b"
  by (simp add: To4_def v4_mapped_def numeral_eq_Suc)

lemma To4_Some: "To4 ip = Some b \<Longrightarrow> length b = 4 \<and> ip = v4_mapped b"
proof -
  assume "To4 ip = Some b"
  then have ip: "length ip = 16" "take 12 ip = replicate 10 0 @ [0xFF, 0xFF]" and b: "b = drop 12 ip"
    by (simp_all add: To4_def split: if_splits)
  have "length b = 4" unfolding b using ip(1) by simp
  moreover have "take 12 ip @ drop 12 ip = v4_mapped b"
    unfolding ip(2) b [symmetric] v4_mapped_def by simp
  ultimately show ?thesis by simp
qed

section \<open>What is an IPv4 literal\<close>

lemma splitOn_covers: "c \<in> set s \<Longrightarrow> c = sep \<or> (\<exists>f \<in> set (splitOn sep s). c \<in> set f)"
  by (induction s) (auto split: list.splits)

lemma parseIPv4Fields_Some:
  assumes "parseIPv4Fields s = Some b"
  shows "length b = 4" and "\<forall>c \<in> set s. is_digit c \<or> c = CHR ''.''"
proof -
  let ?p = "splitOn CHR ''.'' s"
  obtain w x y z where m: "map v4_field ?p = [Some w, Some x, Some y, Some z]" "b = [w, x, y, z]"
    using assms unfolding parseIPv4Fields_def by (auto split: list.splits option.splits)
  show "length b = 4" by (simp add: m(2))
  have digits: "list_all is_digit f" if "f \<in> set ?p" for f
  proof -
    have "v4_field f \<in> set (map v4_field ?p)" using that by simp
    then have "v4_field f \<noteq> None" unfolding m(1) by auto
    then show ?thesis by (auto simp: v4_field_def split: if_splits)
  qed
  show "\<forall>c \<in> set s. is_digit c \<or> c = CHR ''.''"
  proof
    fix c assume "c \<in> set s"
    with splitOn_covers digits show "is_digit c \<or> c = CHR ''.''"
      unfolding list_all_iff by blast
  qed
qed

section \<open>Addresses have sixteen bytes\<close>

lemma v6_loop_length:
  "v6_loop n ip ell s = Some (ip', ell', s') \<Longrightarrow> length ip + 2 * n = 16 \<Longrightarrow> length ip' \<le> 16"
proof (induction n arbitrary: ip ell s)
  case 0
  then show ?case by simp
next
  case (Suc n)
  let ?rest = "dropWhile is_hex s"
  let ?ip1 = "ip @ [word_of_int (hex_group (takeWhile is_hex s) div 256),
                    word_of_int (hex_group (takeWhile is_hex s))]"
  have len: "length ?ip1 + 2 * n = 16" using Suc.prems(2) by simp
  note res = Suc.prems(1) [simplified v6_loop.simps Let_def]
  show ?case
  proof (cases "?rest \<noteq> [] \<and> hd ?rest = CHR ''.''")
    case True
    with res Suc.prems(2) show ?thesis
      by (auto split: if_splits option.splits dest!: parseIPv4Fields_Some(1))
  next
    case False
    with res have "ip' = ?ip1 \<or> (\<exists>e t. v6_loop n ?ip1 e t = Some (ip', ell', s'))"
      by (simp only: split: if_splits) (simp_all, blast+)
    then show ?thesis using Suc.IH len by fastforce
  qed
qed

lemma ParseIP_length: "ParseIP s = Some ip \<Longrightarrow> length ip = 16"
proof -
  have v6: "parseIPv6 s = Some ip \<Longrightarrow> length ip = 16"
    by (auto simp: parseIPv6_def v6_expand_def Let_def split: if_splits option.splits
        dest!: v6_loop_length)
  assume "ParseIP s = Some ip"
  then show ?thesis
    by (auto simp: ParseIP_def v4_mapped_def dest!: parseIPv4Fields_Some(1) v6
        split: list.splits if_splits)
qed

end
