(* ===== verification/F64.thy ===== *)
theory F64
  imports Prelude Complex_Main
begin

text \<open>
  IEEE-754 double arithmetic as the program uses it: a finite \<open>float64\<close> is its rational value,
  and every operation rounds the exact result to the nearest value with a 53-bit significand,
  ties to even; below the smallest normal number the spacing stays \<open>2^-1074\<close>. The result of an
  operation that overflows is not limited here; where that can happen the model tests for it.
\<close>

text \<open>\<open>n/d\<close> rounded to the nearest integer, ties to even, for \<open>d > 0\<close>.\<close>

definition round_even :: "int \<Rightarrow> int \<Rightarrow> int" where
  "round_even n d =
     (let q = n div d; r = n mod d in
      if 2 * r < d then q
      else if 2 * r > d then q + 1
      else if even q then q else q + 1)"

text \<open>The number of binary digits of a positive integer.\<close>

function bit_len :: "int \<Rightarrow> int" where
  "bit_len n = (if n \<le> 0 then 0 else bit_len (n div 2) + 1)"
  by pat_completeness auto
termination by (relation "measure nat") auto

declare bit_len.simps [simp del]

text \<open>
  \<open>n/d > 0\<close> in double precision: scale by the power of two that brings the quotient between
  \<open>2^52\<close> and \<open>2^53\<close> (at least \<open>2^-1074\<close>), round, and scale back.
\<close>

definition scaled :: "int \<Rightarrow> int \<Rightarrow> int \<Rightarrow> int \<times> int" where
  "scaled n d e = (if e \<ge> 0 then (n, d * 2 ^ nat e) else (n * 2 ^ nat (- e), d))"

definition f64_pos :: "int \<Rightarrow> int \<Rightarrow> rat" where
  "f64_pos n d =
     (let e0 = bit_len n - bit_len d - 53;
          (n0, d0) = scaled n d e0;
          e = max (- 1074)
            (if n0 < 2 ^ 52 * d0 then e0 - 1 else if n0 \<ge> 2 ^ 53 * d0 then e0 + 1 else e0);
          (n1, d1) = scaled n d e;
          m = round_even n1 d1
      in of_int m * (if e \<ge> 0 then 2 ^ nat e else 1 / 2 ^ nat (- e)))"

definition f64 :: "rat \<Rightarrow> rat" where
  "f64 x =
     (let (n, d) = quotient_of x in
      if n = 0 then 0 else if n > 0 then f64_pos n d else - f64_pos (- n) d)"

definition f64_mul :: "rat \<Rightarrow> rat \<Rightarrow> rat" where "f64_mul x y = f64 (x * y)"
definition f64_div :: "rat \<Rightarrow> rat \<Rightarrow> rat" where "f64_div x y = f64 (x / y)"

lemma round_even_nonneg: "0 \<le> n \<Longrightarrow> 0 < d \<Longrightarrow> 0 \<le> round_even n d"
  by (simp add: round_even_def Let_def pos_imp_zdiv_nonneg_iff)

lemma scaled_pos: "0 < n \<Longrightarrow> 0 < d \<Longrightarrow> scaled n d e = (n', d') \<Longrightarrow> 0 < n' \<and> 0 < d'"
  by (auto simp: scaled_def split: if_splits)

lemma f64_pos_nonneg:
  assumes "0 < n" and "0 < d"
  shows "0 \<le> f64_pos n d"
proof -
  have "0 \<le> (of_int (round_even (fst (scaled n d e)) (snd (scaled n d e))) :: rat)" for e
    using scaled_pos [OF assms, of e] round_even_nonneg by (cases "scaled n d e") (auto simp: less_imp_le)
  then show ?thesis
    unfolding f64_pos_def Let_def by (auto simp: case_prod_unfold intro!: mult_nonneg_nonneg)
qed

lemma f64_nonneg: "0 \<le> x \<Longrightarrow> 0 \<le> f64 x"
proof -
  assume x: "0 \<le> x"
  obtain n d where q: "quotient_of x = (n, d)" by fastforce
  then have "0 < d" and "x = of_int n / of_int d"
    by (auto intro: quotient_of_denom_pos quotient_of_div)
  with x have "0 \<le> n" by (simp add: zero_le_divide_iff)
  with \<open>0 < d\<close> show ?thesis by (auto simp: f64_def q intro: f64_pos_nonneg)
qed

end
