(* ===== verification/GoTime.thy ===== *)
theory GoTime
  imports GoStrings F64
begin

text \<open>
  \<open>time.ParseDuration\<close> of the standard library, step by step: \<open>leadingInt\<close> and
  \<open>leadingFraction\<close> with their overflow checks, the unit table, the conversion of a fraction
  through \<open>float64\<close>, and the range checks. \<open>None\<close> is an error.
\<close>

fun leadingInt :: "int \<Rightarrow> string \<Rightarrow> (int \<times> string) option" where
  "leadingInt x [] = Some (x, [])"
| "leadingInt x (c # s) =
     (if \<not> is_digit c then Some (x, c # s)
      else if x > 2 ^ 63 div 10 then None
      else let x' = x * 10 + digit_val c in
        if x' > 2 ^ 63 then None else leadingInt x' s)"

text \<open>Digits after the point beyond what fits are skipped; the scale is a power of ten.\<close>

fun leadingFraction :: "int \<Rightarrow> rat \<Rightarrow> bool \<Rightarrow> string \<Rightarrow> int \<times> rat \<times> string" where
  "leadingFraction x scale overflow [] = (x, scale, [])"
| "leadingFraction x scale overflow (c # s) =
     (if \<not> is_digit c then (x, scale, c # s)
      else if overflow then leadingFraction x scale True s
      else if x > (2 ^ 63 - 1) div 10 then leadingFraction x scale True s
      else let y = x * 10 + digit_val c in
        if y > 2 ^ 63 then leadingFraction x scale True s
        else leadingFraction y (scale * 10) False s)"

definition unit_table :: "(string \<times> int) list" where
  "unit_table =
     [(''ns'', 1), (''us'', 1000), ([CHR 0xC2, CHR 0xB5, CHR ''s''], 1000),
      ([CHR 0xCE, CHR 0xBC, CHR ''s''], 1000), (''ms'', 1000000), (''s'', second),
      (''m'', minute), (''h'', hour)]"

definition unitMap :: "string \<Rightarrow> int option" where
  "unitMap u = map_of unit_table u"

definition unit_char :: "char \<Rightarrow> bool" where
  "unit_char c \<longleftrightarrow> c \<noteq> CHR ''.'' \<and> \<not> is_digit c"

text \<open>The optional fraction: value, scale, whether it had a digit, and the rest.\<close>

definition fraction_part :: "string \<Rightarrow> int \<times> rat \<times> bool \<times> string" where
  "fraction_part s =
     (case s of
        [] \<Rightarrow> (0, 1, False, [])
      | c # t \<Rightarrow>
          if c = CHR ''.'' then
            (let (f, scale, u) = leadingFraction 0 1 False t in (f, scale, length u \<noteq> length t, u))
          else (0, 1, False, s))"

text \<open>One \<open>number unit\<close> group: its nanoseconds and the rest of the string.\<close>

definition duration_group :: "string \<Rightarrow> (int \<times> string) option" where
  "duration_group s =
     (if s = [] \<or> \<not> (hd s = CHR ''.'' \<or> is_digit (hd s)) then None
      else case leadingInt 0 s of
        None \<Rightarrow> None
      | Some (v, s1) \<Rightarrow>
          (let pre = (length s1 \<noteq> length s);
               (f, scale, post, s2) = fraction_part s1
           in if \<not> pre \<and> \<not> post then None
              else
                let u = takeWhile unit_char s2; s3 = dropWhile unit_char s2 in
                if u = [] then None
                else case unitMap u of
                  None \<Rightarrow> None
                | Some unit \<Rightarrow>
                    if v > 2 ^ 63 div unit then None
                    else
                      let v1 = v * unit;
                          v2 = (if f > 0
                                then v1 + \<lfloor>f64_mul (f64 (of_int f)) (f64_div (of_int unit) scale)\<rfloor>
                                else v1)
                      in if f > 0 \<and> v2 > 2 ^ 63 then None else Some (v2, s3)))"

lemma leadingInt_shorter: "leadingInt x s = Some (v, s') \<Longrightarrow> length s' \<le> length s"
  by (induction x s rule: leadingInt.induct) (auto simp: Let_def split: if_splits)

lemma leadingFraction_shorter:
  "leadingFraction x scale ov s = (f, sc, s') \<Longrightarrow> length s' \<le> length s"
  by (induction x scale ov s rule: leadingFraction.induct) (auto simp: Let_def split: if_splits)

lemma fraction_part_shorter: "fraction_part s = (f, sc, b, s') \<Longrightarrow> length s' \<le> length s"
  by (auto simp: fraction_part_def split: list.splits if_splits prod.splits dest!: leadingFraction_shorter)

lemma duration_group_shorter: "duration_group s = Some (v, s') \<Longrightarrow> length s' < length s"
proof -
  assume g: "duration_group s = Some (v, s')"
  then obtain v0 s1 where 1: "leadingInt 0 s = Some (v0, s1)"
    by (auto simp: duration_group_def split: if_splits option.splits)
  obtain f sc b s2 where 2: "fraction_part s1 = (f, sc, b, s2)" by (metis prod_cases4)
  have 3: "takeWhile unit_char s2 \<noteq> []" "s' = dropWhile unit_char s2"
    using g by (auto simp: duration_group_def 1 2 Let_def split: if_splits option.splits)
  have "length (takeWhile unit_char s2 @ dropWhile unit_char s2) = length s2" by simp
  with 3 have "length s' < length s2" by (metis length_append length_greater_0_conv less_add_same_cancel2)
  then show ?thesis using leadingInt_shorter [OF 1] fraction_part_shorter [OF 2] by linarith
qed

function duration_groups :: "int \<Rightarrow> string \<Rightarrow> int option" where
  "duration_groups d s =
     (if s = [] then Some d
      else case duration_group s of
        None \<Rightarrow> None
      | Some (v, s') \<Rightarrow>
          let d' = (d + v) mod 2 ^ 64 in
          if d' > 2 ^ 63 then None else duration_groups d' s')"
  by pat_completeness auto
termination by (relation "measure (\<lambda>(d, s). length s)") (auto dest: duration_group_shorter)

declare duration_groups.simps [simp del]

definition ParseDuration :: "string \<Rightarrow> duration option" where
  "ParseDuration s =
     (let neg = (s \<noteq> [] \<and> hd s = CHR ''-'');
          s1 = (if s \<noteq> [] \<and> (hd s = CHR ''-'' \<or> hd s = CHR ''+'') then tl s else s)
      in if s1 = ''0'' then Some 0
         else if s1 = [] then None
         else case duration_groups 0 s1 of
           None \<Rightarrow> None
         | Some d \<Rightarrow>
             if neg then Some (wrap64 (- wrap64 d))
             else if d > 2 ^ 63 - 1 then None
             else Some d)"

section \<open>Range\<close>

lemma digit_val_nonneg: "is_digit c \<Longrightarrow> 0 \<le> digit_val c"
  by (simp add: is_digit_def digit_val_def)

lemma leadingInt_nonneg: "leadingInt x s = Some (v, s') \<Longrightarrow> 0 \<le> x \<Longrightarrow> 0 \<le> v"
proof (induction x s rule: leadingInt.induct)
  case (2 x c s)
  show ?case
  proof (cases "is_digit c")
    case True
    let ?x = "x * 10 + digit_val c"
    have "leadingInt ?x s = Some (v, s')" "\<not> x > 2 ^ 63 div 10" "\<not> ?x > 2 ^ 63"
      using 2(2) True by (simp_all only: leadingInt.simps Let_def split: if_splits) simp_all
    moreover have "0 \<le> ?x" using 2(3) digit_val_nonneg [OF True] by simp
    ultimately show ?thesis using 2(1) True by blast
  qed (use 2 in simp)
qed simp

lemma leadingFraction_digit:
  assumes "is_digit c"
  obtains "leadingFraction x scale ov (c # s) = leadingFraction x scale True s"
  | "leadingFraction x scale ov (c # s) = leadingFraction (x * 10 + digit_val c) (scale * 10) False s"
proof -
  have 1: "\<not> \<not> is_digit c" using assms by simp
  show ?thesis
    using that unfolding leadingFraction.simps Let_def if_not_P [OF 1] by metis
qed

lemma leadingFraction_nonneg:
  "leadingFraction x scale ov s = (f, sc, s') \<Longrightarrow> 0 \<le> x \<Longrightarrow> 0 < scale \<Longrightarrow> 0 \<le> f \<and> 0 < sc"
proof (induction s arbitrary: x scale ov)
  case (Cons c s)
  show ?case
  proof (cases "is_digit c")
    case True
    then show ?thesis
    proof (cases rule: leadingFraction_digit [of c x scale ov s])
      case 1
      with Cons.IH [OF _ Cons.prems(2,3)] Cons.prems(1) show ?thesis by simp
    next
      case 2
      have "0 \<le> x * 10 + digit_val c" "0 < scale * 10"
        using Cons.prems(2,3) digit_val_nonneg [OF True] by simp_all
      from Cons.IH [OF _ this] Cons.prems(1) show ?thesis unfolding 2 by blast
    qed
  qed (use Cons.prems in simp)
qed simp

lemma unitMap_pos: "unitMap u = Some n \<Longrightarrow> 0 < n"
proof -
  have "list_all (\<lambda>(_, n). 0 < n) unit_table"
    by (simp add: unit_table_def duration_defs)
  then show "unitMap u = Some n \<Longrightarrow> 0 < n"
    unfolding unitMap_def by (auto simp: list_all_iff dest!: map_of_SomeD)
qed

lemma duration_group_nonneg: "duration_group s = Some (v, s') \<Longrightarrow> 0 \<le> v"
proof -
  assume g: "duration_group s = Some (v, s')"
  then obtain v0 s1 where 1: "leadingInt 0 s = Some (v0, s1)"
    by (auto simp: duration_group_def split: if_splits option.splits)
  obtain f sc b s2 where 2: "fraction_part s1 = (f, sc, b, s2)" by (metis prod_cases4)
  have sc: "0 \<le> f \<and> 0 < sc"
    using 2 by (auto simp: fraction_part_def split: list.splits if_splits prod.splits
        dest!: leadingFraction_nonneg)
  obtain n where 3: "unitMap (takeWhile unit_char s2) = Some n"
    using g by (auto simp: duration_group_def 1 2 Let_def split: if_splits option.splits)
  have "0 \<le> v0 * n" using leadingInt_nonneg [OF 1] unitMap_pos [OF 3] by simp
  moreover have "0 \<le> \<lfloor>f64_mul (f64 (of_int f)) (f64_div (of_int n) sc)\<rfloor>"
    using sc unitMap_pos [OF 3]
    by (auto simp: f64_mul_def f64_div_def zero_le_floor intro!: f64_nonneg mult_nonneg_nonneg)
  ultimately show ?thesis
    using g by (auto simp: duration_group_def 1 2 3 Let_def split: if_splits)
qed

lemma duration_groups_range:
  "duration_groups d s = Some r \<Longrightarrow> 0 \<le> d \<Longrightarrow> d \<le> 2 ^ 63 \<Longrightarrow> 0 \<le> r \<and> r \<le> 2 ^ 63"
proof (induction d s rule: duration_groups.induct)
  case (1 d s)
  show ?case
  proof (cases "s = []")
    case True
    with 1 show ?thesis by (simp add: duration_groups.simps [of d "[]"])
  next
    case False
    with 1(2) obtain v s' where g: "duration_group s = Some (v, s')"
      by (auto simp: duration_groups.simps [of d s] split: option.splits)
    let ?d = "(d + v) mod 2 ^ 64"
    have "?d \<le> 2 ^ 63" "duration_groups ?d s' = Some r"
      using 1(2) False g by (auto simp: duration_groups.simps [of d s] Let_def split: if_splits)
    then show ?thesis using 1(1) [OF False g refl refl] by simp
  qed
qed

lemma ParseDuration_int64:
  assumes "ParseDuration s = Some d"
  shows "int64 d"
proof -
  define s1 where "s1 = (if s \<noteq> [] \<and> (hd s = CHR ''-'' \<or> hd s = CHR ''+'') then tl s else s)"
  define neg where "neg = (s \<noteq> [] \<and> hd s = CHR ''-'')"
  have *: "(if s1 = ''0'' then Some 0 else if s1 = [] then None
      else case duration_groups 0 s1 of None \<Rightarrow> None
        | Some r \<Rightarrow> if neg then Some (wrap64 (- wrap64 r))
            else if r > 2 ^ 63 - 1 then None else Some r) = Some d"
    using assms unfolding ParseDuration_def Let_def s1_def neg_def .
  show ?thesis
  proof (cases "s1 = ''0''")
    case True
    with * show ?thesis by (simp add: int64_def)
  next
    case False
    with * obtain r where r: "duration_groups 0 s1 = Some r"
      "(if neg then Some (wrap64 (- wrap64 r))
        else if r > 2 ^ 63 - 1 then None else Some r) = Some d"
      by (cases "s1 = []"; cases "duration_groups 0 s1") simp_all
    show ?thesis
    proof (cases neg)
      case True
      with r(2) have "d = wrap64 (- wrap64 r)" by simp
      then show ?thesis by simp
    next
      case False
      with r(2) have "d = r" "r \<le> 2 ^ 63 - 1" by (simp_all split: if_splits)
      with duration_groups_range [OF r(1)] show ?thesis by (simp add: int64_def)
    qed
  qed
qed

end
