(* ===== verification/Domain.thy ===== *)
theory Domain
  imports GoTime Policy
begin

text \<open>
  \<open>internal/domain/domain.go\<close>: the settings a domain owner publishes in the
  \<open>hubcdn.v1.config\<close> TXT record, their parser and its helpers. The \<open>Go\<close> map from keys to
  assignments is a \<open>switch\<close>, here a chain of tests in the same order.
\<close>

section \<open>Settings\<close>

record settings =
  cfg_mode :: mode
  cfg_ttl :: duration
  cfg_swr :: duration
  cfg_websocket :: bool
  cfg_preserveHost :: bool
  cfg_maxObject :: int

definition DefaultSettings :: "int \<Rightarrow> settings" where
  "DefaultSettings maxObject =
     \<lparr>cfg_mode = ModeStandard, cfg_ttl = hour, cfg_swr = 10 * minute, cfg_websocket = True,
      cfg_preserveHost = True, cfg_maxObject = maxObject\<rparr>"

definition Settings_Policy :: "settings \<Rightarrow> policy" where
  "Settings_Policy s =
     \<lparr>p_mode = cfg_mode s, p_defaultTTL = cfg_ttl s, p_staleFor = cfg_swr s,
      p_maxObjectBytes = cfg_maxObject s\<rparr>"

section \<open>Values\<close>

definition parseTTL :: "string \<Rightarrow> duration option" where
  "parseTTL v =
     (case atoi v of
        Some n \<Rightarrow>
          if n \<ge> 0 then Some (wrap64 (n * second))
          else (case ParseDuration v of Some d \<Rightarrow> if d \<ge> 0 then Some d else None | None \<Rightarrow> None)
      | None \<Rightarrow>
          (case ParseDuration v of Some d \<Rightarrow> if d \<ge> 0 then Some d else None | None \<Rightarrow> None))"

definition parseSwitch :: "string \<Rightarrow> bool option" where
  "parseSwitch v =
     (if v \<in> {''on'', ''true'', ''yes'', ''1''} then Some True
      else if v \<in> {''off'', ''false'', ''no'', ''0''} then Some False
      else None)"

definition parseSize :: "string \<Rightarrow> int option" where
  "parseSize v =
     (let (mult, w) =
        (if hasSuffix v ''gb'' then (2 ^ 30, trimSuffix v ''gb'')
         else if hasSuffix v ''mb'' then (2 ^ 20, trimSuffix v ''mb'')
         else if hasSuffix v ''kb'' then (2 ^ 10, trimSuffix v ''kb'')
         else (1, v))
      in case parseInt10 (trimSpace w) of
           None \<Rightarrow> None
         | Some n \<Rightarrow> Some (wrap64 (n * mult)))"

section \<open>The parser\<close>

text \<open>One iteration of the loop of \<open>ParseSettings\<close>.\<close>

definition parse_pair :: "settings \<Rightarrow> settings \<Rightarrow> string \<Rightarrow> settings" where
  "parse_pair defaults s pair =
     (case cut CHR ''='' pair of
        None \<Rightarrow> s
      | Some (key0, val0) \<Rightarrow>
          (let key = toLower (trimSpace key0); val = toLower (trimSpace val0) in
           if key = ''cache'' then s\<lparr>cfg_mode := ParseMode val\<rparr>
           else if key = ''ttl'' then
             (case parseTTL val of Some d \<Rightarrow> s\<lparr>cfg_ttl := d\<rparr> | None \<Rightarrow> s)
           else if key = ''swr'' then
             (case parseTTL val of Some d \<Rightarrow> s\<lparr>cfg_swr := d\<rparr> | None \<Rightarrow> s)
           else if key = ''websocket'' then
             (case parseSwitch val of Some b \<Rightarrow> s\<lparr>cfg_websocket := b\<rparr> | None \<Rightarrow> s)
           else if key = ''preserve_host'' then
             (case parseSwitch val of Some b \<Rightarrow> s\<lparr>cfg_preserveHost := b\<rparr> | None \<Rightarrow> s)
           else if key = ''max_object'' then
             (case parseSize val of
                Some n \<Rightarrow>
                  if n > 0 \<and> n \<le> cfg_maxObject defaults then s\<lparr>cfg_maxObject := n\<rparr> else s
              | None \<Rightarrow> s)
           else s))"

definition ParseSettings :: "string \<Rightarrow> settings \<Rightarrow> settings" where
  "ParseSettings raw defaults = foldl (parse_pair defaults) defaults (splitOn CHR '';'' raw)"

section \<open>A declarative reading\<close>

text \<open>The values given for a key, in order, blanks and case removed.\<close>

definition value_of :: "string \<Rightarrow> string \<Rightarrow> string option" where
  "value_of k pair =
     (case cut CHR ''='' pair of
        None \<Rightarrow> None
      | Some (key, val) \<Rightarrow> if toLower (trimSpace key) = k then Some (toLower (trimSpace val)) else None)"

definition values_for :: "string \<Rightarrow> string \<Rightarrow> string list" where
  "values_for k raw = List.map_filter (value_of k) (splitOn CHR '';'' raw)"

text \<open>The last well-formed value, or the default.\<close>

definition last_valid :: "(string \<Rightarrow> 'a option) \<Rightarrow> 'a \<Rightarrow> string list \<Rightarrow> 'a" where
  "last_valid parse dflt vals = last (dflt # List.map_filter parse vals)"

definition capped_size :: "int \<Rightarrow> string \<Rightarrow> int option" where
  "capped_size cap v =
     (case parseSize v of Some n \<Rightarrow> if 0 < n \<and> n \<le> cap then Some n else None | None \<Rightarrow> None)"

lemma last_valid_Nil [simp]: "last_valid parse x [] = x"
  by (simp add: last_valid_def map_filter_simps)

lemma last_valid_Cons [simp]:
  "last_valid parse x (v # vs) = last_valid parse (case parse v of Some y \<Rightarrow> y | None \<Rightarrow> x) vs"
  by (simp add: last_valid_def map_filter_simps split: option.split)

lemma last_valid_cases:
  "last_valid parse x vs = x \<or> (\<exists>v \<in> set vs. parse v = Some (last_valid parse x vs))"
proof (induction vs arbitrary: x)
  case (Cons v vs)
  show ?case
  proof (cases "parse v")
    case None
    with Cons.IH [of x] show ?thesis by auto
  next
    case (Some y)
    with Cons.IH [of y] show ?thesis by auto
  qed
qed simp

lemma cut_value_of:
  "cut CHR ''='' pair = None \<Longrightarrow> value_of k pair = None"
  "cut CHR ''='' pair = Some (a, b) \<Longrightarrow>
     value_of k pair = (if toLower (trimSpace a) = k then Some (toLower (trimSpace b)) else None)"
  by (simp_all add: value_of_def)

definition known_keys :: "string set" where
  "known_keys = {''cache'', ''ttl'', ''swr'', ''websocket'', ''preserve_host'', ''max_object''}"

lemma known_key_cases:
  obtains "key = ''cache''" | "key = ''ttl''" | "key = ''swr''" | "key = ''websocket''"
    | "key = ''preserve_host''" | "key = ''max_object''" | "key \<notin> known_keys"
  by (auto simp: known_keys_def)

lemma parse_pair_other:
  assumes "cut CHR ''='' pair = Some (a, b)" and "toLower (trimSpace a) \<notin> known_keys"
  shows "parse_pair d s pair = s"
  using assms by (simp add: parse_pair_def known_keys_def Let_def)

lemma value_of_other:
  assumes "cut CHR ''='' pair = Some (a, b)" and "toLower (trimSpace a) \<notin> known_keys"
    and "k \<in> known_keys"
  shows "value_of k pair = None"
  using assms by (auto simp: value_of_def)

lemma parse_pair_reading:
  "parse_pair d s pair =
     \<lparr>cfg_mode = last_valid (\<lambda>v. Some (ParseMode v)) (cfg_mode s) (List.map_filter (value_of ''cache'') [pair]),
      cfg_ttl = last_valid parseTTL (cfg_ttl s) (List.map_filter (value_of ''ttl'') [pair]),
      cfg_swr = last_valid parseTTL (cfg_swr s) (List.map_filter (value_of ''swr'') [pair]),
      cfg_websocket = last_valid parseSwitch (cfg_websocket s)
        (List.map_filter (value_of ''websocket'') [pair]),
      cfg_preserveHost = last_valid parseSwitch (cfg_preserveHost s)
        (List.map_filter (value_of ''preserve_host'') [pair]),
      cfg_maxObject = last_valid (capped_size (cfg_maxObject d)) (cfg_maxObject s)
        (List.map_filter (value_of ''max_object'') [pair])\<rparr>"
proof (cases "cut CHR ''='' pair")
  case None
  then show ?thesis by (simp add: parse_pair_def cut_value_of map_filter_simps)
next
  case (Some ab)
  then obtain a b where ab: "cut CHR ''='' pair = Some (a, b)" by (cases ab) simp
  show ?thesis
  proof (cases rule: known_key_cases [of "toLower (trimSpace a)"])
    case 7
    then show ?thesis
      by (simp add: parse_pair_other [OF ab] value_of_other [OF ab] known_keys_def map_filter_simps)
  qed (simp_all add: parse_pair_def ab value_of_def map_filter_simps capped_size_def Let_def
      split: option.split)
qed

lemma parse_pair_field:
  "cfg_mode (parse_pair d s pair) =
     last_valid (\<lambda>v. Some (ParseMode v)) (cfg_mode s) (List.map_filter (value_of ''cache'') [pair])"
  "cfg_ttl (parse_pair d s pair) =
     last_valid parseTTL (cfg_ttl s) (List.map_filter (value_of ''ttl'') [pair])"
  "cfg_swr (parse_pair d s pair) =
     last_valid parseTTL (cfg_swr s) (List.map_filter (value_of ''swr'') [pair])"
  "cfg_websocket (parse_pair d s pair) =
     last_valid parseSwitch (cfg_websocket s) (List.map_filter (value_of ''websocket'') [pair])"
  "cfg_preserveHost (parse_pair d s pair) =
     last_valid parseSwitch (cfg_preserveHost s) (List.map_filter (value_of ''preserve_host'') [pair])"
  "cfg_maxObject (parse_pair d s pair) =
     last_valid (capped_size (cfg_maxObject d)) (cfg_maxObject s)
       (List.map_filter (value_of ''max_object'') [pair])"
  by (simp_all add: parse_pair_reading)

lemma fold_field:
  assumes "\<And>s pair. sel (f s pair) = last_valid parse (sel s) (List.map_filter (value_of k) [pair])"
  shows "sel (foldl f s pairs) = last_valid parse (sel s) (List.map_filter (value_of k) pairs)"
  using assms
  by (induction pairs arbitrary: s) (auto simp: map_filter_simps split: option.splits)

lemmas fields_of_pairs =
  fold_field [where f = "parse_pair d" for d, OF parse_pair_field(1)]
  fold_field [where f = "parse_pair d" for d, OF parse_pair_field(2)]
  fold_field [where f = "parse_pair d" for d, OF parse_pair_field(3)]
  fold_field [where f = "parse_pair d" for d, OF parse_pair_field(4)]
  fold_field [where f = "parse_pair d" for d, OF parse_pair_field(5)]
  fold_field [where f = "parse_pair d" for d, OF parse_pair_field(6)]

lemma parseTTL_int64: "parseTTL v = Some d \<Longrightarrow> int64 d"
  by (auto simp: parseTTL_def split: option.splits if_splits dest: ParseDuration_int64)

lemma parseTTL_nonneg:
  assumes "parseTTL v = Some d" and "\<And>n. atoi v = Some n \<Longrightarrow> n \<le> 9223372036"
  shows "0 \<le> d"
proof (cases "atoi v")
  case (Some n)
  show ?thesis
  proof (cases "n \<ge> 0")
    case True
    then have "int64 (n * second)" using assms(2) [OF Some] by (simp add: int64_def second_def)
    then show ?thesis using assms(1) Some True by (auto simp: parseTTL_def second_def)
  qed (use assms(1) Some in \<open>auto simp: parseTTL_def split: option.splits if_splits\<close>)
qed (use assms(1) in \<open>auto simp: parseTTL_def split: option.splits if_splits\<close>)

end
