(* ===== verification/Dnsx.thy ===== *)
theory Dnsx
  imports GoNet Domain
begin

text \<open>
  \<open>internal/dnsx/dnsx.go\<close>: origin and configuration records, the address check and host names.
  The network is a parameter: a record with the answers the configured resolver gives at the
  time of the call. \<open>url.Parse\<close> and the public suffix list are parameters too; of a URL the
  model keeps the parts the program reads or clears.
\<close>

section \<open>URLs\<close>

record url =
  u_scheme :: string
  u_user :: "string option"
  u_host :: string
  u_path :: string
  u_rawQuery :: string
  u_fragment :: string

text \<open>
  \<open>URL.Hostname\<close> and \<open>URL.Port\<close>: the host is cut at its last colon when a number (or nothing)
  follows, and the brackets of an IPv6 literal are dropped.
\<close>

definition valid_optional_port :: "string \<Rightarrow> bool" where
  "valid_optional_port s \<longleftrightarrow> s = [] \<or> (hd s = CHR '':'' \<and> list_all is_digit (tl s))"

definition url_splitHostPort :: "string \<Rightarrow> string \<times> string" where
  "url_splitHostPort hostPort =
     (let (host, port) =
            (case last_index_of CHR '':'' hostPort of
               Some i \<Rightarrow>
                 if valid_optional_port (drop i hostPort)
                 then (take i hostPort, drop (i + 1) hostPort) else (hostPort, [])
             | None \<Rightarrow> (hostPort, []))
      in (if hasPrefix host ''['' \<and> hasSuffix host '']'' then drop 1 (butlast host) else host, port))"

definition url_Hostname :: "url \<Rightarrow> string" where
  "url_Hostname u = fst (url_splitHostPort (u_host u))"

definition url_Port :: "url \<Rightarrow> string" where
  "url_Port u = snd (url_splitHostPort (u_host u))"

lemma url_Hostname_plain:
  assumes "CHR '':'' \<notin> set (u_host u)" and "CHR ''['' \<notin> set (u_host u)"
  shows "url_Hostname u = u_host u"
proof -
  have "last_index_of CHR '':'' (u_host u) = None"
    using assms(1) by (simp add: last_index_of_def index_of_None)
  moreover have "\<not> hasPrefix (u_host u) ''[''"
    using assms(2) by (cases "u_host u") (auto simp: hasPrefix_def)
  ultimately show ?thesis by (simp add: url_Hostname_def url_splitHostPort_def)
qed

section \<open>Lookups\<close>

definition OriginRecordPrefix :: string where "OriginRecordPrefix = ''hubcdn.v1.origin.''"
definition ConfigRecordPrefix :: string where "ConfigRecordPrefix = ''hubcdn.v1.config.''"

datatype resolver = SystemResolver | DialServer string

definition Resolver_New :: "string \<Rightarrow> resolver" where
  "Resolver_New server = (if server = [] then SystemResolver else DialServer server)"

text \<open>The outcome of \<open>LookupTXT\<close>: records, a not-found \<open>DNSError\<close>, or another error.\<close>

datatype txt_reply = TxtRecords "string list" | TxtNotFound | TxtFails string

record network =
  net_TXT :: "resolver \<Rightarrow> string \<Rightarrow> txt_reply"
  net_IP :: "resolver \<Rightarrow> string \<Rightarrow> string + ip list"

datatype origin_format_error = EmptyOrigin | InvalidOrigin | BadScheme string | NoOriginHost

definition ParseOrigin :: "(string \<Rightarrow> url option) \<Rightarrow> string \<Rightarrow> origin_format_error + url" where
  "ParseOrigin urlParse raw0 =
     (let raw = trimSpace raw0 in
      if raw = [] then Inl EmptyOrigin
      else
        let raw = (if \<not> contains raw ''://'' then ''https://'' @ raw else raw) in
        case urlParse raw of
          None \<Rightarrow> Inl InvalidOrigin
        | Some u \<Rightarrow>
            if u_scheme u \<noteq> ''http'' \<and> u_scheme u \<noteq> ''https'' then Inl (BadScheme (u_scheme u))
            else if url_Hostname u = [] then Inl NoOriginHost
            else Inr (u\<lparr>u_user := None, u_rawQuery := [], u_fragment := []\<rparr>))"

datatype origin_error = ErrNoOrigin | OriginLookup string string

definition origin_error_text :: "origin_error \<Rightarrow> string" where
  "origin_error_text e =
     (case e of
        ErrNoOrigin \<Rightarrow> ''dnsx: no origin record''
      | OriginLookup domain err \<Rightarrow> ''dnsx: origin lookup for '' @ domain @ '': '' @ err)"

fun first_origin :: "(string \<Rightarrow> url option) \<Rightarrow> string list \<Rightarrow> origin_error + url" where
  "first_origin urlParse [] = Inl ErrNoOrigin"
| "first_origin urlParse (rec # recs) =
     (case ParseOrigin urlParse rec of
        Inr u \<Rightarrow> Inr u
      | Inl _ \<Rightarrow> first_origin urlParse recs)"

definition Resolver_Origin ::
  "(string \<Rightarrow> url option) \<Rightarrow> network \<Rightarrow> resolver \<Rightarrow> string \<Rightarrow> origin_error + url" where
  "Resolver_Origin urlParse net rs domain =
     (case net_TXT net rs (OriginRecordPrefix @ domain) of
        TxtNotFound \<Rightarrow> Inl ErrNoOrigin
      | TxtFails err \<Rightarrow> Inl (OriginLookup domain err)
      | TxtRecords recs \<Rightarrow> first_origin urlParse recs)"

definition ConfigText :: "network \<Rightarrow> resolver \<Rightarrow> string \<Rightarrow> string + string" where
  "ConfigText net rs domain =
     (case net_TXT net rs (ConfigRecordPrefix @ domain) of
        TxtNotFound \<Rightarrow> Inr []
      | TxtFails err \<Rightarrow> Inl (''dnsx: config lookup for '' @ domain @ '': '' @ err)
      | TxtRecords recs \<Rightarrow> if recs = [] then Inr [] else Inr (concat recs))"

definition PointsTo :: "network \<Rightarrow> resolver \<Rightarrow> string \<Rightarrow> ip list \<Rightarrow> string + bool" where
  "PointsTo net rs domain ips =
     (case net_IP net rs domain of
        Inl err \<Rightarrow> Inl (''dnsx: resolving '' @ domain @ '': '' @ err)
      | Inr addrs \<Rightarrow>
          if ips = [] then Inr (addrs \<noteq> [])
          else Inr (list_ex (\<lambda>addr. list_ex (\<lambda>ip. addr = ip) ips) addrs))"

section \<open>Host names\<close>

definition Apex :: "(string \<Rightarrow> string option) \<Rightarrow> string \<Rightarrow> string" where
  "Apex effectiveTLDPlusOne host0 =
     (let host = trimSuffix (toLower host0) ''.'' in
      case effectiveTLDPlusOne host of None \<Rightarrow> host | Some apex \<Rightarrow> apex)"

definition label_char_ok :: "nat \<Rightarrow> nat \<Rightarrow> char \<Rightarrow> bool" where
  "label_char_ok n i r \<longleftrightarrow>
     (r = CHR ''-'' \<and> i > 0 \<and> int i < int n - 1) \<or>
     (97 \<le> byte r \<and> byte r \<le> 122) \<or> (48 \<le> byte r \<and> byte r \<le> 57)"

definition label_ok :: "string \<Rightarrow> bool" where
  "label_ok label \<longleftrightarrow>
     \<not> (label = [] \<or> length label > 63) \<and>
     list_all (\<lambda>(i, r). label_char_ok (length label) i r) (enumerate 0 label)"

definition ValidHost :: "string \<Rightarrow> bool" where
  "ValidHost host0 =
     (let host = trimSuffix host0 ''.'' in
      if host = [] \<or> length host > 253 then False
      else if ParseIP host \<noteq> None then False
      else
        let labels = splitOn CHR ''.'' host in
        if length labels < 2 then False
        else list_all label_ok labels)"

section \<open>Host names, declaratively\<close>

definition ldh :: "char \<Rightarrow> bool" where
  "ldh c \<longleftrightarrow> (97 \<le> byte c \<and> byte c \<le> 122) \<or> is_digit c \<or> c = CHR ''-''"

lemma label_ok_conv:
  "label_ok l \<longleftrightarrow> l \<noteq> [] \<and> length l \<le> 63 \<and> list_all ldh l \<and> hd l \<noteq> CHR ''-'' \<and> last l \<noteq> CHR ''-''"
proof -
  have all: "list_all (\<lambda>(i, r). P i r) (enumerate 0 l) \<longleftrightarrow> (\<forall>i < length l. P i (l ! i))" for P
    by (auto simp: list_all_iff in_set_enumerate_eq)
  have hyphen: "\<not> (97 \<le> byte CHR ''-'')" "\<not> is_digit CHR ''-''" by (simp_all add: is_digit_def)
  show ?thesis
  proof (cases "l = []")
    case False
    then have ends: "hd l = l ! 0" "last l = l ! (length l - 1)" "0 < length l"
      by (simp_all add: hd_conv_nth last_conv_nth)
    have "(\<forall>i < length l. label_char_ok (length l) i (l ! i)) \<longleftrightarrow>
        list_all ldh l \<and> l ! 0 \<noteq> CHR ''-'' \<and> l ! (length l - 1) \<noteq> CHR ''-''" (is "?L \<longleftrightarrow> ?R")
    proof
      assume L: ?L
      have "ldh (l ! i)" if "i < length l" for i
        using L that by (auto simp: label_char_ok_def ldh_def is_digit_def)
      moreover have "l ! 0 \<noteq> CHR ''-''"
        using L [rule_format, of 0] ends(3) hyphen by (auto simp: label_char_ok_def is_digit_def)
      moreover have "l ! (length l - 1) \<noteq> CHR ''-''"
        using L [rule_format, of "length l - 1"] ends(3) hyphen
        by (auto simp: label_char_ok_def is_digit_def)
      ultimately show ?R by (simp add: list_all_length)
    next
      assume R: ?R
      show ?L
      proof (intro allI impI)
        fix i assume i: "i < length l"
        have "ldh (l ! i)" using R i by (simp add: list_all_length)
        moreover have "0 < i \<and> int i < int (length l) - 1" if "l ! i = CHR ''-''"
        proof -
          have "i \<noteq> 0" "i \<noteq> length l - 1" using R that by metis+
          with i show ?thesis by linarith
        qed
        ultimately show "label_char_ok (length l) i (l ! i)"
          by (auto simp: label_char_ok_def ldh_def is_digit_def)
      qed
    qed
    with False ends show ?thesis by (auto simp: label_ok_def all not_less)
  qed (simp add: label_ok_def)
qed

text \<open>Names accepted as hosts have no address literal among them but IPv4's.\<close>

lemma splitOn_length_ge2: "2 \<le> length (splitOn c s) \<Longrightarrow> c \<in> set s"
  using splitOn_absent [of c s] by fastforce

lemma ldh_not_special: "ldh c \<Longrightarrow> c \<notin> {CHR '':'', CHR ''%'', CHR ''.'', CHR ''/'', CHR 0x00}"
  by (auto simp: ldh_def is_digit_def)

lemma ParseIP_dns_name:
  assumes "2 \<le> length (splitOn CHR ''.'' h)" and "list_all (list_all ldh) (splitOn CHR ''.'' h)"
  shows "ParseIP h = map_option v4_mapped (parseIPv4Fields h)"
proof -
  have chars: "ldh c \<or> c = CHR ''.''" if "c \<in> set h" for c
    using splitOn_covers [OF that, of "CHR ''.''"] assms(2) by (auto simp: list_all_iff)
  let ?P = "\<lambda>c. c \<notin> {CHR ''.'', CHR '':'', CHR ''%''}"
  have "dropWhile ?P h \<noteq> []"
    using splitOn_length_ge2 [OF assms(1)] by auto
  then obtain c t where d: "dropWhile ?P h = c # t" by (cases "dropWhile ?P h") auto
  then have "\<not> ?P c" "c \<in> set h"
    using hd_dropWhile [of ?P h] by (simp_all, metis list.set_intros(1) set_dropWhileD)
  with chars [of c] ldh_not_special [of c] have "c = CHR ''.''" by auto
  then show ?thesis unfolding ParseIP_def d by simp
qed

section \<open>Origins\<close>

definition origin_ok :: "url \<Rightarrow> bool" where
  "origin_ok u \<longleftrightarrow>
     u_scheme u \<in> {''http'', ''https''} \<and> u_user u = None \<and> u_rawQuery u = [] \<and>
     u_fragment u = [] \<and> url_Hostname u \<noteq> []"

lemma ParseOrigin_ok: "ParseOrigin urlParse raw = Inr u \<Longrightarrow> origin_ok u"
  by (auto simp: ParseOrigin_def Let_def origin_ok_def url_Hostname_def
      split: if_splits option.splits)

lemma ParseOrigin_Inr:
  assumes "ParseOrigin urlParse raw = Inr u"
  obtains raw' v where "urlParse raw' = Some v"
    "u = v\<lparr>u_user := None, u_rawQuery := [], u_fragment := []\<rparr>"
  using assms unfolding ParseOrigin_def Let_def by (simp split: if_splits option.splits)

lemma first_origin_Inr:
  "first_origin urlParse recs = Inr u \<Longrightarrow> \<exists>rec \<in> set recs. ParseOrigin urlParse rec = Inr u"
  by (induction recs) (auto split: sum.splits)

lemma first_origin_Inl:
  "first_origin urlParse recs = Inl e \<longleftrightarrow>
     e = ErrNoOrigin \<and> (\<forall>rec \<in> set recs. \<exists>err. ParseOrigin urlParse rec = Inl err)"
  by (induction recs) (auto split: sum.splits)

lemma Resolver_Origin_ok: "Resolver_Origin urlParse net rs domain = Inr u \<Longrightarrow> origin_ok u"
  by (auto simp: Resolver_Origin_def split: txt_reply.splits dest!: first_origin_Inr ParseOrigin_ok)

end
