(* ===== verification/DomainProps.thy ===== *)
theory DomainProps
  imports Domain CacheOps
begin

text \<open>The properties of the settings parser: what it reads, what it can never exceed, and what
  overflows in it.\<close>

lemma splitOn_append_sep: "splitOn c (a @ c # b) = splitOn c a @ splitOn c b"
proof (induction a)
  case (Cons x a)
  then show ?case by (cases "splitOn c a") auto
qed simp

lemma values_for_append: "values_for k (a @ CHR '';'' # b) = values_for k a @ values_for k b"
  by (simp add: values_for_def splitOn_append_sep map_filter_def)

lemma ParseSettings_fields:
  "ParseSettings raw d =
     \<lparr>cfg_mode = last_valid (\<lambda>v. Some (ParseMode v)) (cfg_mode d) (values_for ''cache'' raw),
      cfg_ttl = last_valid parseTTL (cfg_ttl d) (values_for ''ttl'' raw),
      cfg_swr = last_valid parseTTL (cfg_swr d) (values_for ''swr'' raw),
      cfg_websocket = last_valid parseSwitch (cfg_websocket d) (values_for ''websocket'' raw),
      cfg_preserveHost = last_valid parseSwitch (cfg_preserveHost d) (values_for ''preserve_host'' raw),
      cfg_maxObject = last_valid (capped_size (cfg_maxObject d)) (cfg_maxObject d)
        (values_for ''max_object'' raw)\<rparr>"
  by (rule settings.equality) (simp_all add: ParseSettings_def values_for_def fields_of_pairs)

text \<open>
  C27. \<open>ParseSettings\<close> against its declarative reading: every setting is the last well-formed
  value the record gives for its key, whatever stands around it, or the default; keys are
  independent, and pairs with an unknown key, no \<open>=\<close> or a malformed value change nothing.
\<close>

theorem ParseSettings_reading:
  assumes "\<And>k. k \<in> known_keys \<Longrightarrow> values_for k typo = []"
  shows "ParseSettings (a @ CHR '';'' # typo @ CHR '';'' # b) d = ParseSettings (a @ CHR '';'' # b) d \<and>
   ParseSettings raw d =
     \<lparr>cfg_mode = last_valid (\<lambda>v. Some (ParseMode v)) (cfg_mode d) (values_for ''cache'' raw),
      cfg_ttl = last_valid parseTTL (cfg_ttl d) (values_for ''ttl'' raw),
      cfg_swr = last_valid parseTTL (cfg_swr d) (values_for ''swr'' raw),
      cfg_websocket = last_valid parseSwitch (cfg_websocket d) (values_for ''websocket'' raw),
      cfg_preserveHost = last_valid parseSwitch (cfg_preserveHost d) (values_for ''preserve_host'' raw),
      cfg_maxObject = last_valid (capped_size (cfg_maxObject d)) (cfg_maxObject d)
        (values_for ''max_object'' raw)\<rparr>"
  using assms by (simp add: ParseSettings_fields values_for_append known_keys_def)

theorem ParseSettings_reading_witness:
  "ParseSettings (''ttl=60'' @ CHR '';'' # ''tll=9; oops'' @ CHR '';'' # '' cache = OFF'') (DefaultSettings 9) =
   ParseSettings (''ttl=60'' @ CHR '';'' # '' cache = OFF'') (DefaultSettings 9)"
proof (rule ParseSettings_reading [THEN conjunct1])
  fix k assume "k \<in> known_keys"
  moreover have "list_all (\<lambda>k. values_for k ''tll=9; oops'' = [])
      [''cache'', ''ttl'', ''swr'', ''websocket'', ''preserve_host'', ''max_object'']" by code_simp
  ultimately show "values_for k ''tll=9; oops'' = []" by (auto simp: known_keys_def)
qed

text \<open>
  An owner cannot raise the node's limits: whatever the record says, wrap-around of the size
  included, the object limit stays positive and at most the node-wide cap, the policy derived
  from the settings carries exactly these values, and a record that names no setting leaves
  every default.
\<close>

theorem settings_within_node_limits:
  assumes "0 < cfg_maxObject d"
  shows "0 < p_maxObjectBytes (Settings_Policy (ParseSettings raw d)) \<and>
    p_maxObjectBytes (Settings_Policy (ParseSettings raw d)) \<le> cfg_maxObject d \<and>
    ((\<forall>k \<in> known_keys. values_for k raw = []) \<longrightarrow> ParseSettings raw d = d)"
proof (intro conjI impI)
  let ?m = "last_valid (capped_size (cfg_maxObject d)) (cfg_maxObject d) (values_for ''max_object'' raw)"
  have "0 < ?m \<and> ?m \<le> cfg_maxObject d"
    using last_valid_cases [of "capped_size (cfg_maxObject d)" "cfg_maxObject d" "values_for ''max_object'' raw"]
      assms
    by (auto simp: capped_size_def split: option.splits if_splits)
  then show "0 < p_maxObjectBytes (Settings_Policy (ParseSettings raw d))"
    and "p_maxObjectBytes (Settings_Policy (ParseSettings raw d)) \<le> cfg_maxObject d"
    by (simp_all add: Settings_Policy_def ParseSettings_fields)
  assume "\<forall>k \<in> known_keys. values_for k raw = []"
  then show "ParseSettings raw d = d" by (simp add: ParseSettings_fields known_keys_def)
qed

theorem settings_within_node_limits_witness:
  "p_maxObjectBytes (Settings_Policy
     (ParseSettings ''max_object=18014398509481985kb'' (DefaultSettings (2 ^ 25)))) \<le> 2 ^ 25"
  using settings_within_node_limits [of "DefaultSettings (2 ^ 25)" "''max_object=18014398509481985kb''"]
  by (simp add: DefaultSettings_def)

text \<open>
  A \<open>ttl\<close> of 9223372037 to 18446744073 bare seconds is accepted but wraps to a negative
  duration; the domain then caches nothing that the origin does not date itself, in aggressive
  mode too.
\<close>

theorem huge_ttl_disables_caching:
  assumes "values_for ''ttl'' raw = [v]" and "atoi v = Some n"
    and "9223372037 \<le> n" and "n \<le> 18446744073"
    and "header_get h ''Cache-Control'' = []" and "header_get h ''Expires'' = []"
  shows "cfg_ttl (ParseSettings raw d) < 0 \<and>
    \<not> snd (ResponseTTL parseTime now (Settings_Policy (ParseSettings raw d)) reqPath status h)"
proof
  have "parseTTL v = Some (wrap64 (n * second))" using assms(2,3) by (simp add: parseTTL_def)
  with assms(1) have "cfg_ttl (ParseSettings raw d) = wrap64 (n * second)"
    by (simp add: ParseSettings_fields)
  with wrap64_seconds [OF assms(3,4)] show neg: "cfg_ttl (ParseSettings raw d) < 0" by simp
  have "parseCacheControl [] = cc_init" by code_simp
  with assms(5,6) have "origin_ttl parseTime now h = 0"
    by (simp add: origin_ttl_def cc_init_def)
  with neg show "\<not> snd (ResponseTTL parseTime now (Settings_Policy (ParseSettings raw d)) reqPath status h)"
    by (simp add: ResponseTTL_eq Settings_Policy_def)
qed

theorem huge_ttl_disables_caching_witness:
  "cfg_ttl (ParseSettings ''cache=aggressive; ttl=9999999999'' (DefaultSettings 100)) < 0"
proof -
  have "values_for ''ttl'' ''cache=aggressive; ttl=9999999999'' = [''9999999999'']" by code_simp
  moreover have "atoi ''9999999999'' = Some 9999999999" by code_simp
  ultimately show ?thesis
    using huge_ttl_disables_caching [of "''cache=aggressive; ttl=9999999999''" "''9999999999''" 9999999999 "[]"]
    by (simp add: header_get_def)
qed

text \<open>
  A stale window can disable the cache: TTL plus stale window is added in 64 bits, so when
  the sum reaches \<open>2 ^ 63\<close> nanoseconds an object is evictable from the moment it is stored and
  the next lookup drops it, although it is still within its TTL. The record
  \<open>swr=2562047h\<close> with the default TTL of an hour is enough.
\<close>

theorem long_stale_window_evicts_fresh_objects:
  assumes "shardFor key = Some i" and "s_items (c_shards c i) key = Some e"
    and "int64 (o_ttl (e_obj e))" and "int64 (o_staleFor (e_obj e))"
    and "2 ^ 63 \<le> o_ttl (e_obj e) + o_staleFor (e_obj e)"
    and "o_storedAt (e_obj e) \<le> now"
  shows "Object_evictable (e_obj e) now \<and> (\<exists>c'. Cache_Get c key now = Some (c', None, Miss))"
proof
  have "wrap64 (o_ttl (e_obj e) + o_staleFor (e_obj e)) < 0"
    using assms(3-5) wrap64_over [of "o_ttl (e_obj e) + o_staleFor (e_obj e)"]
    by (simp add: int64_def)
  then show ev: "Object_evictable (e_obj e) now"
    using assms(6) by (simp add: Object_evictable_def)
  then show "\<exists>c'. Cache_Get c key now = Some (c', None, Miss)"
    using assms(1,2) by (simp add: Cache_Get_def Let_def)
qed

definition long_stale_settings :: settings where
  "long_stale_settings = ParseSettings ''swr=2562047h'' (DefaultSettings 1000)"

definition long_stale_object :: object where
  "long_stale_object =
     \<lparr>o_status = 200, o_header = [], o_body = ''hello'', o_storedAt = 0,
      o_ttl = cfg_ttl long_stale_settings, o_staleFor = cfg_swr long_stale_settings\<rparr>"

theorem long_stale_window_evicts_fresh_objects_witness:
  "\<exists>c'. Cache_Get (the (Cache_Set (Cache_New 100000) ''00ff'' long_stale_object)) ''00ff'' 1 =
     Some (c', None, Miss)"
proof -
  let ?c = "the (Cache_Set (Cache_New 100000) ''00ff'' long_stale_object)"
  let ?e = "the (s_items (c_shards ?c 0) ''00ff'')"
  have "shardFor ''00ff'' = Some 0" by code_simp
  moreover have "map_option e_obj (s_items (c_shards ?c 0) ''00ff'') = Some long_stale_object"
    by code_simp
  then have "s_items (c_shards ?c 0) ''00ff'' = Some ?e" and "e_obj ?e = long_stale_object"
    by (cases "s_items (c_shards ?c 0) ''00ff''"; simp)+
  moreover have "o_ttl long_stale_object = 3600000000000" by code_simp
  moreover have "o_staleFor long_stale_object = 9223369200000000000" by code_simp
  moreover have "o_storedAt long_stale_object = 0" by (simp add: long_stale_object_def)
  ultimately show ?thesis
    using long_stale_window_evicts_fresh_objects [of "''00ff''" 0 ?c ?e 1] by (simp add: int64_def)
qed

end
