(* ===== verification/DnsxProps.thy ===== *)
theory DnsxProps
  imports Dnsx DomainProps
begin

text \<open>The properties of the DNS layer: which names are hosts, what an origin can be, and how the
  configuration records are combined.\<close>

text \<open>
  C35. \<open>ValidHost\<close> accepts, up to one trailing dot, exactly the names of at most 253 bytes made
  of two or more labels of 1 to 63 lower-case letters, digits and inner hyphens that are not a
  dotted-quad IPv4 address.
\<close>

theorem ValidHost_reading:
  "ValidHost h0 \<longleftrightarrow>
     (let h = trimSuffix h0 ''.''; labels = splitOn CHR ''.'' h in
      length h \<le> 253 \<and> 2 \<le> length labels \<and>
      list_all (\<lambda>l. l \<noteq> [] \<and> length l \<le> 63 \<and> list_all ldh l \<and> hd l \<noteq> CHR ''-'' \<and> last l \<noteq> CHR ''-'') labels \<and>
      parseIPv4Fields h = None)"
proof -
  define h where "h = trimSuffix h0 ''.''"
  let ?ls = "splitOn CHR ''.'' h"
  have empty: "h = [] \<Longrightarrow> \<not> 2 \<le> length ?ls" by simp
  have ldh: "list_all label_ok ?ls \<Longrightarrow> list_all (list_all ldh) ?ls"
    by (auto simp: list_all_iff label_ok_conv)
  have "ValidHost h0 \<longleftrightarrow> length h \<le> 253 \<and> ParseIP h = None \<and> 2 \<le> length ?ls \<and> list_all label_ok ?ls"
    using empty by (auto simp: ValidHost_def Let_def h_def [symmetric])
  also have "\<dots> \<longleftrightarrow> length h \<le> 253 \<and> 2 \<le> length ?ls \<and> list_all label_ok ?ls \<and> parseIPv4Fields h = None"
    using ParseIP_dns_name [of h] ldh by auto
  finally show ?thesis by (simp add: Let_def h_def [symmetric] label_ok_conv [abs_def])
qed

text \<open>
  C34. An origin that \<open>Resolver.Origin\<close> returns is an http or https URL with a host and without
  credentials, query and fragment, taken from the first record that is one; \<open>ErrNoOrigin\<close> is
  returned just when there is no record or none of them is one, and any other resolver error is
  passed on.
\<close>

theorem Origin_outcome:
  "case Resolver_Origin urlParse net rs domain of
      Inr u \<Rightarrow> origin_ok u \<and> (\<exists>recs. net_TXT net rs (''hubcdn.v1.origin.'' @ domain) = TxtRecords recs \<and>
        (\<exists>xs r ys. recs = xs @ r # ys \<and> ParseOrigin urlParse r = Inr u \<and>
           list_all (\<lambda>x. \<forall>v. ParseOrigin urlParse x \<noteq> Inr v) xs))
    | Inl ErrNoOrigin \<Rightarrow> net_TXT net rs (''hubcdn.v1.origin.'' @ domain) = TxtNotFound \<or>
        (\<exists>recs. net_TXT net rs (''hubcdn.v1.origin.'' @ domain) = TxtRecords recs \<and>
           list_all (\<lambda>x. \<forall>v. ParseOrigin urlParse x \<noteq> Inr v) recs)
    | Inl (OriginLookup d err) \<Rightarrow> d = domain \<and>
        net_TXT net rs (''hubcdn.v1.origin.'' @ domain) = TxtFails err"
proof -
  have first: "\<exists>xs r ys. recs = xs @ r # ys \<and> ParseOrigin urlParse r = Inr u \<and>
      list_all (\<lambda>x. \<forall>v. ParseOrigin urlParse x \<noteq> Inr v) xs"
    if "first_origin urlParse recs = Inr u" for recs u
    using that
  proof (induction recs)
    case (Cons r recs)
    show ?case
    proof (cases "ParseOrigin urlParse r")
      case (Inl e)
      with Cons obtain xs r' ys where "recs = xs @ r' # ys" "ParseOrigin urlParse r' = Inr u"
          "list_all (\<lambda>x. \<forall>v. ParseOrigin urlParse x \<noteq> Inr v) xs" by auto
      with Inl show ?thesis by (intro exI [of _ "r # xs"] exI [of _ r'] exI [of _ ys]) simp
    next
      case (Inr v)
      with Cons.prems show ?thesis by (intro exI [of _ "[]"] exI [of _ r] exI [of _ recs]) simp
    qed
  qed simp
  show ?thesis
    using first_origin_Inl [of urlParse] first ParseOrigin_ok [of urlParse]
    by (auto simp: Resolver_Origin_def OriginRecordPrefix_def list_all_iff
        split: txt_reply.split sum.split origin_error.split dest!: first_origin_Inr)
qed

text \<open>
  \<open>ConfigText\<close> joins separate TXT records without a separator, so settings spread over two
  records spoil each other: with the records \<open>ttl=60\<close> and \<open>websocket=off\<close> neither takes effect.
\<close>

theorem config_records_run_together:
  assumes "net_TXT net rs (''hubcdn.v1.config.'' @ domain) = TxtRecords [r1, r2]"
  shows "ConfigText net rs domain = Inr (r1 @ r2) \<and>
    ParseSettings (''ttl=60'' @ ''websocket=off'') (DefaultSettings 1000) = DefaultSettings 1000"
proof
  show "ConfigText net rs domain = Inr (r1 @ r2)"
    using assms by (simp add: ConfigText_def ConfigRecordPrefix_def)
  show "ParseSettings (''ttl=60'' @ ''websocket=off'') (DefaultSettings 1000) = DefaultSettings 1000"
    by code_simp
qed

theorem config_records_run_together_witness:
  "ConfigText \<lparr>net_TXT = (\<lambda>_ _. TxtRecords [''ttl=60'', ''websocket=off'']), net_IP = (\<lambda>_ _. Inr [])\<rparr>
     SystemResolver ''a.com'' = Inr (''ttl=60'' @ ''websocket=off'')"
  by (rule config_records_run_together [THEN conjunct1]) simp

end
