(* ===== verification/Registry.thy ===== *)
theory Registry
  imports Dnsx CertGuard
begin

text \<open>
  \<open>internal/domain/registry.go\<close>: the set of known domains, kept in step with DNS and persisted as
  JSON. The Go map is an association list with distinct keys; a status is a string, as in the
  code. Code outside the repository that the registry relies on (\<open>url.Parse\<close>, \<open>URL.String\<close>, the
  public suffix list) is collected in a record; clock readings and the answers of the network
  are arguments.
\<close>

section \<open>State\<close>

record externals =
  x_urlParse :: "string \<Rightarrow> url option"
  x_urlString :: "url \<Rightarrow> string"
  x_psl :: "string \<Rightarrow> string option"

type_synonym status = string

definition StatusPending :: status where "StatusPending = ''pending''"
definition StatusActive :: status where "StatusActive = ''active''"
definition StatusError :: status where "StatusError = ''error''"

lemmas status_defs = StatusPending_def StatusActive_def StatusError_def

lemma status_distinct [simp]:
  "StatusPending \<noteq> StatusActive" "StatusActive \<noteq> StatusPending" "StatusPending \<noteq> StatusError"
  "StatusError \<noteq> StatusPending" "StatusActive \<noteq> StatusError" "StatusError \<noteq> StatusActive"
  by (simp_all add: status_defs)

record snapshot =
  sn_host :: string
  sn_apex :: string
  sn_status :: status
  sn_origin :: "url option"
  sn_originStr :: string
  sn_settings :: settings
  sn_configText :: string
  sn_firstSeen :: time
  sn_lastRefreshed :: time
  sn_lastError :: string

record registry =
  rg_resolver :: resolver
  rg_defaults :: settings
  rg_activeEvery :: duration
  rg_pendingEvery :: duration
  rg_domains :: "(string \<times> snapshot) list"
  rg_dirty :: bool

section \<open>Reading\<close>

definition Registry_Lookup :: "registry \<Rightarrow> string \<Rightarrow> snapshot option" where
  "Registry_Lookup r host = map_of (rg_domains r) host"

definition Registry_All :: "registry \<Rightarrow> snapshot list" where
  "Registry_All r = map snd (rg_domains r)"

definition Registry_Count :: "registry \<Rightarrow> nat" where
  "Registry_Count r = length (rg_domains r)"

section \<open>Refreshing\<close>

definition refreshSnapshot :: "externals \<Rightarrow> network \<Rightarrow> registry \<Rightarrow> time \<Rightarrow> snapshot \<Rightarrow> snapshot" where
  "refreshSnapshot x net r now snap0 =
     (let snap = snap0\<lparr>sn_lastRefreshed := now\<rparr>;
          finish = (\<lambda>snap.
            let snap1 = (case ConfigText net (rg_resolver r) (sn_host snap) of
                           Inr cfg \<Rightarrow> snap\<lparr>sn_configText := cfg\<rparr>
                         | Inl _ \<Rightarrow> snap)
            in snap1\<lparr>sn_settings := ParseSettings (sn_configText snap1) (rg_defaults r)\<rparr>)
      in case Resolver_Origin (x_urlParse x) net (rg_resolver r) (sn_host snap) of
           Inr origin \<Rightarrow>
             finish (snap\<lparr>sn_origin := Some origin, sn_originStr := x_urlString x origin,
                          sn_status := StatusActive, sn_lastError := []\<rparr>)
         | Inl ErrNoOrigin \<Rightarrow>
             finish (snap\<lparr>sn_origin := None, sn_originStr := [], sn_status := StatusPending,
                          sn_lastError := []\<rparr>)
         | Inl err \<Rightarrow>
             snap\<lparr>sn_status := (if sn_origin snap = None then StatusPending else StatusError),
                  sn_lastError := origin_error_text err\<rparr>)"

definition Registry_store :: "registry \<Rightarrow> snapshot \<Rightarrow> registry" where
  "Registry_store r snap =
     r\<lparr>rg_domains := AList.update (sn_host snap) snap (rg_domains r), rg_dirty := True\<rparr>"

text \<open>The part of \<open>Observe\<close> under the lock: another request may have registered the host.\<close>

definition Observe_commit :: "registry \<Rightarrow> string \<Rightarrow> snapshot \<Rightarrow> registry \<times> snapshot" where
  "Observe_commit r host snap =
     (case map_of (rg_domains r) host of
        Some existing \<Rightarrow> (r, existing)
      | None \<Rightarrow> (r\<lparr>rg_domains := AList.update host snap (rg_domains r), rg_dirty := True\<rparr>, snap))"

definition new_snapshot :: "externals \<Rightarrow> registry \<Rightarrow> string \<Rightarrow> time \<Rightarrow> snapshot" where
  "new_snapshot x r host now =
     \<lparr>sn_host = host, sn_apex = Apex (x_psl x) host, sn_status = StatusPending, sn_origin = None,
      sn_originStr = [], sn_settings = rg_defaults r, sn_configText = [], sn_firstSeen = now,
      sn_lastRefreshed = 0, sn_lastError = []\<rparr>"

definition Registry_Observe ::
  "externals \<Rightarrow> network \<Rightarrow> registry \<Rightarrow> string \<Rightarrow> time \<Rightarrow> time \<Rightarrow> registry \<times> snapshot" where
  "Registry_Observe x net r host now1 now2 =
     (case Registry_Lookup r host of
        Some snap \<Rightarrow> (r, snap)
      | None \<Rightarrow> Observe_commit r host (refreshSnapshot x net r now2 (new_snapshot x r host now1)))"

definition Registry_Refresh ::
  "externals \<Rightarrow> network \<Rightarrow> registry \<Rightarrow> string \<Rightarrow> time \<Rightarrow> (registry \<times> snapshot) option" where
  "Registry_Refresh x net r host now =
     (case Registry_Lookup r host of
        None \<Rightarrow> None
      | Some snap \<Rightarrow>
          (let updated = refreshSnapshot x net r now snap in Some (Registry_store r updated, updated)))"

text \<open>
  \<open>refreshDue\<close>: \<open>env\<close> gives, for each refresh in turn, the network, the clock reading and whether
  the context is done afterwards.
\<close>

definition refresh_due :: "registry \<Rightarrow> time \<Rightarrow> snapshot \<Rightarrow> bool" where
  "refresh_due r now snap \<longleftrightarrow>
     (let due = (if sn_status snap = StatusActive then rg_activeEvery r else rg_pendingEvery r)
      in \<not> time_sub now (sn_lastRefreshed snap) < due)"

fun refresh_list ::
  "externals \<Rightarrow> (nat \<Rightarrow> network \<times> time \<times> bool) \<Rightarrow> nat \<Rightarrow> time \<Rightarrow> snapshot list \<Rightarrow> registry \<Rightarrow> registry" where
  "refresh_list x env k now [] r = r"
| "refresh_list x env k now (snap # snaps) r =
     (if \<not> refresh_due r now snap then refresh_list x env k now snaps r
      else
        let (net, t, stopped) = env k;
            r1 = Registry_store r (refreshSnapshot x net r t snap)
        in if stopped then r1 else refresh_list x env (Suc k) now snaps r1)"

definition refreshDue ::
  "externals \<Rightarrow> (nat \<Rightarrow> network \<times> time \<times> bool) \<Rightarrow> time \<Rightarrow> registry \<Rightarrow> registry" where
  "refreshDue x env now r = refresh_list x env 0 now (Registry_All r) r"

text \<open>The ticker interval of \<open>Run\<close>; \<open>time.NewTicker\<close> panics on one that is not positive.\<close>

definition run_tick :: "registry \<Rightarrow> duration" where
  "run_tick r =
     (if rg_pendingEvery r \<le> 0 \<or> rg_pendingEvery r > rg_activeEvery r then rg_activeEvery r
      else rg_pendingEvery r)"

section \<open>Persistence\<close>

text \<open>The JSON form of a snapshot: \<open>Origin\<close> and \<open>Settings\<close> are not written.\<close>

record stored =
  ss_host :: string
  ss_apex :: string
  ss_status :: status
  ss_origin :: string
  ss_config :: string
  ss_firstSeen :: time
  ss_lastRefreshed :: time
  ss_lastError :: string

definition to_stored :: "snapshot \<Rightarrow> stored" where
  "to_stored s =
     \<lparr>ss_host = sn_host s, ss_apex = sn_apex s, ss_status = sn_status s, ss_origin = sn_originStr s,
      ss_config = sn_configText s, ss_firstSeen = sn_firstSeen s,
      ss_lastRefreshed = sn_lastRefreshed s, ss_lastError = sn_lastError s\<rparr>"

definition load_snapshot :: "externals \<Rightarrow> settings \<Rightarrow> stored \<Rightarrow> snapshot" where
  "load_snapshot x defaults s =
     \<lparr>sn_host = ss_host s, sn_apex = ss_apex s, sn_status = ss_status s,
      sn_origin =
        (if ss_origin s \<noteq> [] then
           (case ParseOrigin (x_urlParse x) (ss_origin s) of Inr u \<Rightarrow> Some u | Inl _ \<Rightarrow> None)
         else None),
      sn_originStr = ss_origin s, sn_settings = ParseSettings (ss_config s) defaults,
      sn_configText = ss_config s, sn_firstSeen = ss_firstSeen s,
      sn_lastRefreshed = ss_lastRefreshed s, sn_lastError = ss_lastError s\<rparr>"

definition NewRegistry ::
  "externals \<Rightarrow> (bytes \<Rightarrow> stored list option) \<Rightarrow> read_result \<Rightarrow> resolver \<Rightarrow> settings \<Rightarrow>
     duration \<Rightarrow> duration \<Rightarrow> new_error + registry" where
  "NewRegistry x unmarshal f rs defaults active pending =
     (let r = \<lparr>rg_resolver = rs, rg_defaults = defaults, rg_activeEvery = active,
               rg_pendingEvery = pending, rg_domains = [], rg_dirty = False\<rparr> in
      case f of
        NotExist \<Rightarrow> Inr r
      | ReadFails \<Rightarrow> Inl ReadingFile
      | FileContent data \<Rightarrow>
          (case unmarshal data of
             None \<Rightarrow> Inl ParsingFile
           | Some ss \<Rightarrow>
               Inr (r\<lparr>rg_domains :=
                 foldl (\<lambda>m s. let snap = load_snapshot x defaults s in AList.update (sn_host snap) snap m)
                   [] ss\<rparr>)))"

definition Registry_save ::
  "(stored list \<Rightarrow> bytes option) \<Rightarrow> io_result \<Rightarrow> registry \<Rightarrow> disk \<Rightarrow> registry \<times> disk" where
  "Registry_save marshal io r d =
     (if \<not> rg_dirty r then (r, d)
      else
        let r1 = r\<lparr>rg_dirty := False\<rparr> in
        case marshal (map to_stored (Registry_All r)) of
          None \<Rightarrow> (r1, d)
        | Some data \<Rightarrow>
            (case io of
               WriteFails rest \<Rightarrow> (r1, d\<lparr>d_tmp := rest\<rparr>)
             | RenameFails \<Rightarrow> (r1, d\<lparr>d_tmp := Some data\<rparr>)
             | Persisted \<Rightarrow> (r1, d\<lparr>d_file := Some data, d_tmp := None\<rparr>)))"

text \<open>One tick of \<open>Run\<close>, and its last act when the context is done.\<close>

definition run_step ::
  "externals \<Rightarrow> (stored list \<Rightarrow> bytes option) \<Rightarrow> (nat \<Rightarrow> network \<times> time \<times> bool) \<Rightarrow> time \<Rightarrow>
     io_result \<Rightarrow> registry \<times> disk \<Rightarrow> registry \<times> disk" where
  "run_step x marshal env now io = (\<lambda>(r, d). Registry_save marshal io (refreshDue x env now r) d)"

end
