(* ===== verification/RegistryInv.thy ===== *)
theory RegistryInv
  imports Registry
begin

text \<open>
  What is true of every snapshot and of the registry at all times, and that every operation
  keeps it, also when requests and the background refresher interleave: a goroutine reads a
  snapshot, resolves without the lock and stores its result later.
\<close>

section \<open>Invariant\<close>

definition snap_ok :: "externals \<Rightarrow> settings \<Rightarrow> snapshot \<Rightarrow> bool" where
  "snap_ok x defaults s \<longleftrightarrow>
     sn_status s \<in> {StatusPending, StatusActive, StatusError} \<and>
     (sn_origin s = None \<longleftrightarrow> sn_status s = StatusPending) \<and>
     (case sn_origin s of
        None \<Rightarrow> sn_originStr s = []
      | Some u \<Rightarrow> origin_ok u \<and> sn_originStr s = x_urlString x u \<and>
          (\<exists>raw. ParseOrigin (x_urlParse x) raw = Inr u)) \<and>
     sn_settings s = ParseSettings (sn_configText s) defaults"

definition reg_ok :: "externals \<Rightarrow> registry \<Rightarrow> bool" where
  "reg_ok x r \<longleftrightarrow> distinct (map fst (rg_domains r)) \<and>
     (\<forall>h s. map_of (rg_domains r) h = Some s \<longrightarrow> sn_host s = h \<and> snap_ok x (rg_defaults r) s)"

text \<open>What a refresh may not change.\<close>

definition same_identity :: "snapshot \<Rightarrow> snapshot \<Rightarrow> bool" where
  "same_identity s t \<longleftrightarrow>
     sn_host s = sn_host t \<and> sn_apex s = sn_apex t \<and> sn_firstSeen s = sn_firstSeen t"

lemma same_identity_refl [simp]: "same_identity s s"
  by (simp add: same_identity_def)

lemma same_identity_trans: "same_identity s t \<Longrightarrow> same_identity t u \<Longrightarrow> same_identity s u"
  by (simp add: same_identity_def)

lemma refresh_identity [simp, frame]: "same_identity (refreshSnapshot x net r now s) s"
  by (simp add: refreshSnapshot_def same_identity_def Let_def
      split: sum.split origin_error.split)

lemma refresh_host [simp, frame]: "sn_host (refreshSnapshot x net r now s) = sn_host s"
  using refresh_identity [of x net r now s] by (simp add: same_identity_def)

lemma Resolver_Origin_parsed:
  "Resolver_Origin urlParse net rs domain = Inr u \<Longrightarrow> \<exists>raw. ParseOrigin urlParse raw = Inr u"
  by (auto simp: Resolver_Origin_def split: txt_reply.splits dest!: first_origin_Inr)

lemma refresh_ok [inv_pres]:
  assumes "snap_ok x (rg_defaults r) s"
  shows "snap_ok x (rg_defaults r) (refreshSnapshot x net r now s)"
proof -
  let ?res = "Resolver_Origin (x_urlParse x) net (rg_resolver r) (sn_host s)"
  consider u where "?res = Inr u" | "?res = Inl ErrNoOrigin" | d e where "?res = Inl (OriginLookup d e)"
    by (metis origin_error.exhaust sum.exhaust)
  then show ?thesis
  proof cases
    case 1
    then show ?thesis
      using Resolver_Origin_ok [OF 1] Resolver_Origin_parsed [OF 1]
      by (auto simp: refreshSnapshot_def snap_ok_def Let_def split: sum.split)
  next
    case 2
    then show ?thesis by (auto simp: refreshSnapshot_def snap_ok_def Let_def split: sum.split)
  next
    case 3
    then show ?thesis
      using assms by (auto simp: refreshSnapshot_def snap_ok_def Let_def split: option.splits)
  qed
qed

lemma ParseSettings_empty [simp]: "ParseSettings [] d = d"
  by (simp add: ParseSettings_def parse_pair_def)

lemma new_snapshot_ok [simp]: "snap_ok x (rg_defaults r) (new_snapshot x r host now)"
  by (simp add: snap_ok_def new_snapshot_def)

lemma new_snapshot_host [simp]: "sn_host (new_snapshot x r host now) = host"
  by (simp add: new_snapshot_def)

section \<open>Operations\<close>

lemma store_lookup [simp]:
  "map_of (rg_domains (Registry_store r s)) h = (if h = sn_host s then Some s else map_of (rg_domains r) h)"
  by (simp add: Registry_store_def update_conv')

lemma store_defaults [simp, frame]:
  "rg_defaults (Registry_store r s) = rg_defaults r" "rg_resolver (Registry_store r s) = rg_resolver r"
  "rg_activeEvery (Registry_store r s) = rg_activeEvery r"
  "rg_pendingEvery (Registry_store r s) = rg_pendingEvery r"
  by (simp_all add: Registry_store_def)

lemma store_ok [inv_pres]:
  assumes "reg_ok x r" and "snap_ok x (rg_defaults r) s"
  shows "reg_ok x (Registry_store r s)"
proof -
  have "distinct (map fst (rg_domains (Registry_store r s)))"
    using assms(1) by (simp add: Registry_store_def reg_ok_def distinct_update)
  then show ?thesis using assms by (auto simp: reg_ok_def)
qed

lemma commit_lookup:
  "map_of (rg_domains (fst (Observe_commit r host s))) h =
     (if h = host \<and> map_of (rg_domains r) host = None then Some s else map_of (rg_domains r) h)"
  by (auto simp: Observe_commit_def update_conv' split: option.split)

lemma commit_defaults [simp, frame]: "rg_defaults (fst (Observe_commit r host s)) = rg_defaults r"
  by (simp add: Observe_commit_def split: option.split)

lemma commit_ok [inv_pres]:
  assumes "reg_ok x r" and "snap_ok x (rg_defaults r) s" and "sn_host s = host"
  shows "reg_ok x (fst (Observe_commit r host s))"
proof -
  have "distinct (map fst (rg_domains (fst (Observe_commit r host s))))"
    using assms(1) by (auto simp: Observe_commit_def reg_ok_def distinct_update split: option.split)
  then show ?thesis using assms by (auto simp: reg_ok_def commit_lookup)
qed

lemma save_domains [simp, frame]:
  "rg_domains (fst (Registry_save marshal io r d)) = rg_domains r"
  "rg_defaults (fst (Registry_save marshal io r d)) = rg_defaults r"
  by (auto simp: Registry_save_def Let_def split: option.split io_result.split)

lemma Lookup_ok: "reg_ok x r \<Longrightarrow> Registry_Lookup r h = Some s \<Longrightarrow> sn_host s = h \<and> snap_ok x (rg_defaults r) s"
  by (simp add: reg_ok_def Registry_Lookup_def)

lemma Observe_ok [inv_pres]:
  assumes "reg_ok x r" and "Registry_Observe x net r host now1 now2 = (r', s)"
  shows "reg_ok x r' \<and> rg_defaults r' = rg_defaults r \<and> Registry_Lookup r' host = Some s"
proof (cases "Registry_Lookup r host")
  case None
  let ?s = "refreshSnapshot x net r now2 (new_snapshot x r host now1)"
  have "r' = fst (Observe_commit r host ?s)" and "s = ?s"
    using assms(2) None by (auto simp: Registry_Observe_def Observe_commit_def Registry_Lookup_def)
  then show ?thesis
    using None commit_ok [OF assms(1), of ?s host]
    by (auto simp: Registry_Lookup_def commit_lookup refresh_ok)
qed (use assms in \<open>auto simp: Registry_Observe_def\<close>)

lemma Refresh_ok [inv_pres]:
  assumes "reg_ok x r" and "Registry_Refresh x net r host now = Some (r', s)"
  shows "reg_ok x r' \<and> rg_defaults r' = rg_defaults r \<and> Registry_Lookup r' host = Some s"
proof -
  obtain s0 where s0: "Registry_Lookup r host = Some s0" "s = refreshSnapshot x net r now s0"
      "r' = Registry_store r s"
    using assms(2) by (auto simp: Registry_Refresh_def Let_def split: option.splits)
  with Lookup_ok [OF assms(1) s0(1)] have "snap_ok x (rg_defaults r) s" "sn_host s = host"
    by (auto intro: refresh_ok)
  with s0 assms(1) show ?thesis by (auto simp: Registry_Lookup_def intro: store_ok)
qed

section \<open>Interleaving\<close>

text \<open>
  What a goroutine holds between its critical sections: a snapshot it read, a result it has
  computed from one, or the first snapshot of a host it did not find.
\<close>

datatype held = HeldRead snapshot | HeldResult snapshot | HeldNew snapshot

record system =
  q_reg :: registry
  q_held :: "held list"

inductive reg_step :: "externals \<Rightarrow> system \<Rightarrow> system \<Rightarrow> bool" for x :: externals where
  read_snapshot: "Registry_Lookup (q_reg q) host = Some s \<Longrightarrow>
    reg_step x q (q\<lparr>q_held := HeldRead s # q_held q\<rparr>)"
| resolve: "HeldRead s \<in> set (q_held q) \<Longrightarrow>
    reg_step x q (q\<lparr>q_held :=
      HeldResult (refreshSnapshot x net (q_reg q) now s) # remove1 (HeldRead s) (q_held q)\<rparr>)"
| store_result: "HeldResult s \<in> set (q_held q) \<Longrightarrow>
    reg_step x q (q\<lparr>q_reg := Registry_store (q_reg q) s, q_held := remove1 (HeldResult s) (q_held q)\<rparr>)"
| first_sight: "Registry_Lookup (q_reg q) host = None \<Longrightarrow>
    reg_step x q (q\<lparr>q_held :=
      HeldNew (refreshSnapshot x net (q_reg q) now2 (new_snapshot x (q_reg q) host now1)) # q_held q\<rparr>)"
| commit_new: "HeldNew s \<in> set (q_held q) \<Longrightarrow>
    reg_step x q (q\<lparr>q_reg := fst (Observe_commit (q_reg q) (sn_host s) s),
      q_held := remove1 (HeldNew s) (q_held q)\<rparr>)"
| save_registry: "reg_step x q (q\<lparr>q_reg := fst (Registry_save marshal io (q_reg q) d)\<rparr>)"
| give_up: "h \<in> set (q_held q) \<Longrightarrow> reg_step x q (q\<lparr>q_held := remove1 h (q_held q)\<rparr>)"

inductive_cases reg_stepE: "reg_step x q q'"

definition held_ok :: "externals \<Rightarrow> registry \<Rightarrow> held \<Rightarrow> bool" where
  "held_ok x r h \<longleftrightarrow>
     (case h of
        HeldNew s \<Rightarrow> snap_ok x (rg_defaults r) s
      | HeldRead s \<Rightarrow> snap_ok x (rg_defaults r) s \<and>
          (\<exists>t. Registry_Lookup r (sn_host s) = Some t \<and> same_identity t s)
      | HeldResult s \<Rightarrow> snap_ok x (rg_defaults r) s \<and>
          (\<exists>t. Registry_Lookup r (sn_host s) = Some t \<and> same_identity t s))"

definition sys_ok :: "externals \<Rightarrow> system \<Rightarrow> bool" where
  "sys_ok x q \<longleftrightarrow> reg_ok x (q_reg q) \<and> (\<forall>h \<in> set (q_held q). held_ok x (q_reg q) h)"

text \<open>Hosts stay registered, with their identity.\<close>

definition keeps_hosts :: "registry \<Rightarrow> registry \<Rightarrow> bool" where
  "keeps_hosts r r' \<longleftrightarrow> rg_defaults r' = rg_defaults r \<and>
     (\<forall>h s. Registry_Lookup r h = Some s \<longrightarrow>
        (\<exists>s'. Registry_Lookup r' h = Some s' \<and> same_identity s' s))"

lemma keeps_hosts_refl [simp]: "keeps_hosts r r"
  by (auto simp: keeps_hosts_def)

lemma keeps_hosts_trans: "keeps_hosts r s \<Longrightarrow> keeps_hosts s t \<Longrightarrow> keeps_hosts r t"
  unfolding keeps_hosts_def using same_identity_trans by (metis (no_types, lifting))

lemma held_ok_keeps: "held_ok x r h \<Longrightarrow> keeps_hosts r r' \<Longrightarrow> held_ok x r' h"
  unfolding keeps_hosts_def held_ok_def
  by (cases h) (auto, (metis same_identity_trans)+)

lemma sys_ok_step:
  assumes "reg_step x q q'" and "sys_ok x q"
  shows "sys_ok x q' \<and> keeps_hosts (q_reg q) (q_reg q')"
proof -
  have reg: "reg_ok x (q_reg q)" and held: "\<And>h. h \<in> set (q_held q) \<Longrightarrow> held_ok x (q_reg q) h"
    using assms(2) by (auto simp: sys_ok_def)
  have sub: "h \<in> set (remove1 k hs) \<Longrightarrow> h \<in> set hs" for h k hs
    using notin_set_remove1 by fast
  from assms(1) show ?thesis
  proof (cases rule: reg_step.cases)
    case (read_snapshot host s)
    with Lookup_ok [OF reg read_snapshot(2)] reg held show ?thesis
      by (auto simp: sys_ok_def held_ok_def)
  next
    case (resolve s net now)
    have "held_ok x (q_reg q) (HeldResult (refreshSnapshot x net (q_reg q) now s))"
      using held [OF resolve(2)] refresh_identity [of x net "q_reg q" now s]
      by (auto simp: held_ok_def same_identity_def intro: refresh_ok)
    with resolve reg held show ?thesis by (auto simp: sys_ok_def dest: sub)
  next
    case (store_result s)
    have ok: "snap_ok x (rg_defaults (q_reg q)) s"
      and id: "\<exists>t. Registry_Lookup (q_reg q) (sn_host s) = Some t \<and> same_identity t s"
      using held [OF store_result(2)] by (auto simp: held_ok_def)
    have keep: "keeps_hosts (q_reg q) (Registry_store (q_reg q) s)"
      using id by (auto simp: keeps_hosts_def Registry_Lookup_def same_identity_def)
    with store_result reg held store_ok [OF reg ok] show ?thesis
      by (auto simp: sys_ok_def dest!: sub intro: held_ok_keeps)
  next
    case (first_sight host net now2 now1)
    then show ?thesis using reg held by (auto simp: sys_ok_def held_ok_def intro: refresh_ok)
  next
    case (commit_new s)
    have ok: "snap_ok x (rg_defaults (q_reg q)) s"
      using held [OF commit_new(2)] by (auto simp: held_ok_def)
    have keep: "keeps_hosts (q_reg q) (fst (Observe_commit (q_reg q) (sn_host s) s))"
      by (auto simp: keeps_hosts_def Registry_Lookup_def commit_lookup)
    with commit_new reg held commit_ok [OF reg ok refl] show ?thesis
      by (auto simp: sys_ok_def dest!: sub intro: held_ok_keeps)
  next
    case (save_registry marshal io d)
    have keep: "keeps_hosts (q_reg q) (fst (Registry_save marshal io (q_reg q) d))"
      by (auto simp: keeps_hosts_def Registry_Lookup_def)
    moreover have "reg_ok x (fst (Registry_save marshal io (q_reg q) d))"
      using reg by (simp add: reg_ok_def)
    ultimately show ?thesis using save_registry held by (auto simp: sys_ok_def intro: held_ok_keeps)
  next
    case (give_up h)
    with reg held show ?thesis by (auto simp: sys_ok_def dest: sub)
  qed
qed

interpretation domains: growing_steps "reg_step x" "sys_ok x" "\<lambda>q q'. keeps_hosts (q_reg q) (q_reg q')" for x
  by unfold_locales (auto dest: sys_ok_step intro: keeps_hosts_trans)

end
