(* ===== verification/RegistryProps.thy ===== *)
theory RegistryProps
  imports RegistryInv
begin

text \<open>The properties of the registry: its invariant under interleaving, what a refresh does with
  each answer of DNS, which domains a tick refreshes, and that a saved registry loads back.\<close>

section \<open>A URL syntax for the witnesses\<close>

text \<open>The URLs \<open>https://\<close> with a plain host name, a part of \<open>url.Parse\<close> small enough to write out.\<close>

definition host_char :: "char \<Rightarrow> bool" where
  "host_char c \<longleftrightarrow> ldh c \<or> c = CHR ''.''"

definition plain_parse :: "string \<Rightarrow> url option" where
  "plain_parse s =
     (if hasPrefix s ''https://'' \<and> drop 8 s \<noteq> [] \<and> list_all host_char (drop 8 s) then
        Some \<lparr>u_scheme = ''https'', u_user = None, u_host = drop 8 s, u_path = [], u_rawQuery = [],
              u_fragment = []\<rparr>
      else None)"

definition plain_string :: "url \<Rightarrow> string" where
  "plain_string u = ''https://'' @ u_host u"

definition plain :: externals where
  "plain = \<lparr>x_urlParse = plain_parse, x_urlString = plain_string, x_psl = (\<lambda>_. None)\<rparr>"

lemma trimSpace_id:
  assumes "s \<noteq> []" and "\<not> is_space (hd s)" and "\<not> is_space (last s)"
  shows "trimSpace s = s"
proof -
  have "dropWhile is_space s = s" using assms(1,2) by (cases s) auto
  moreover have "dropWhile is_space (rev s) = rev s"
    using assms(1,3) by (cases s rule: rev_cases) auto
  ultimately show ?thesis by (simp add: trimSpace_def)
qed

definition reparses :: "externals \<Rightarrow> bool" where
  "reparses x \<longleftrightarrow> (\<forall>raw u. ParseOrigin (x_urlParse x) raw = Inr u \<longrightarrow>
     ParseOrigin (x_urlParse x) (x_urlString x u) = Inr u \<and> x_urlString x u \<noteq> [])"

lemma plain_reparses: "reparses plain"
  unfolding reparses_def
proof (intro allI impI conjI)
  fix raw u
  assume "ParseOrigin (x_urlParse plain) raw = Inr u"
  then obtain raw' v where "plain_parse raw' = Some v"
      "u = v\<lparr>u_user := None, u_rawQuery := [], u_fragment := []\<rparr>"
    by (rule ParseOrigin_Inr) (simp add: plain_def)
  then have u: "u_scheme u = ''https''" "u_path u = []" "u_host u \<noteq> []" "list_all host_char (u_host u)"
    by (auto simp: plain_parse_def split: if_splits)
  have norm: "u_user u = None" "u_rawQuery u = []" "u_fragment u = []"
    using ParseOrigin_ok [OF \<open>ParseOrigin (x_urlParse plain) raw = Inr u\<close>] by (simp_all add: origin_ok_def)
  define w where "w = ''https://'' @ u_host u"
  have "\<not> is_space c" if "host_char c" for c
    using that by (auto simp: host_char_def ldh_def is_digit_def is_space_def)
  moreover have "host_char (last (u_host u))"
    using u(3,4) last_in_set by (auto simp: list_all_iff)
  ultimately have "\<not> is_space (last w)" using u(3) by (simp add: w_def)
  then have trim: "trimSpace w = w" by (intro trimSpace_id) (simp_all add: w_def is_space_def)
  have w: "w \<noteq> []" "contains w ''://''"
    unfolding contains_conv by (simp add: w_def, intro exI [of _ "''https''"] exI [of _ "u_host u"], simp add: w_def)
  have "CHR '':'' \<notin> set (u_host u)"
    using u(4) ldh_not_special by (auto simp: list_all_iff host_char_def)
  moreover have "CHR ''['' \<notin> set (u_host u)"
    using u(4) by (auto simp: list_all_iff host_char_def ldh_def is_digit_def)
  ultimately have host: "url_Hostname u = u_host u" by (rule url_Hostname_plain)
  have "plain_parse w = Some u"
    using u norm by (simp add: w_def plain_parse_def hasPrefix_def)
  then have "ParseOrigin plain_parse w = Inr u"
    using u norm w by (simp add: ParseOrigin_def Let_def trim host)
  then show "ParseOrigin (x_urlParse plain) (x_urlString plain u) = Inr u"
    by (simp add: plain_def plain_string_def w_def)
  show "x_urlString plain u \<noteq> []" by (simp add: plain_def plain_string_def)
qed

section \<open>The invariant\<close>

text \<open>
  C7. The registry stays consistent however requests, the refresher and saves interleave: in
  every reachable state each entry stands under its own host, an active or failing domain has a
  sanitised origin and a pending one has none, the settings are those of the stored
  configuration text, and no host that was registered disappears or changes its apex and first
  sight.
\<close>

theorem registry_interleaving_safe:
  assumes "(reg_step x)\<^sup>*\<^sup>* q q'" and "reg_ok x (q_reg q)" and "q_held q = []"
    and "Registry_Lookup (q_reg q') host = Some s"
  shows "sn_host s = host \<and> sn_status s \<in> {''pending'', ''active'', ''error''} \<and>
    (sn_status s = ''pending'' \<longleftrightarrow> sn_origin s = None) \<and>
    (case sn_origin s of None \<Rightarrow> True | Some u \<Rightarrow> origin_ok u) \<and>
    sn_settings s = ParseSettings (sn_configText s) (rg_defaults (q_reg q)) \<and>
    keeps_hosts (q_reg q) (q_reg q')"
proof -
  have "sys_ok x q" using assms(2,3) by (simp add: sys_ok_def)
  from domains.steps_inv [OF assms(1) this] domains.steps_le [OF assms(1) this]
  have ok: "reg_ok x (q_reg q')" and keep: "keeps_hosts (q_reg q) (q_reg q')"
    by (auto simp: sys_ok_def)
  have "rg_defaults (q_reg q') = rg_defaults (q_reg q)" using keep by (simp add: keeps_hosts_def)
  with Lookup_ok [OF ok assms(4)] keep show ?thesis
    by (auto simp: snap_ok_def status_defs split: option.splits)
qed

definition sample_registry :: registry where
  "sample_registry =
     \<lparr>rg_resolver = SystemResolver, rg_defaults = DefaultSettings 1000, rg_activeEvery = 300 * second,
      rg_pendingEvery = 15 * second, rg_domains = [], rg_dirty = False\<rparr>"

definition sample_network :: network where
  "sample_network =
     \<lparr>net_TXT = (\<lambda>_ n. if n = ''hubcdn.v1.origin.a.com'' then TxtRecords [''o.example.org'']
        else TxtNotFound), net_IP = (\<lambda>_ _. Inr [])\<rparr>"

definition sample_observed :: "registry \<times> snapshot" where
  "sample_observed = Registry_Observe plain sample_network sample_registry ''a.com'' 5 6"

lemma sample_registry_ok: "reg_ok plain sample_registry"
  by (simp add: reg_ok_def sample_registry_def)

lemma sample_observed_ok: "reg_ok plain (fst sample_observed)"
  using Observe_ok [OF sample_registry_ok, of sample_network "''a.com''" 5 6]
  by (simp add: sample_observed_def prod_eq_iff)

lemma sample_observed_lookup:
  "Registry_Lookup (fst sample_observed) ''a.com'' = Some (snd sample_observed)"
  using Observe_ok [OF sample_registry_ok, of sample_network "''a.com''" 5 6]
  by (simp add: sample_observed_def prod_eq_iff)

theorem registry_interleaving_safe_witness:
  "sn_settings (snd sample_observed) = ParseSettings (sn_configText (snd sample_observed))
     (rg_defaults (fst sample_observed))"
  using registry_interleaving_safe
    [of plain "\<lparr>q_reg = fst sample_observed, q_held = []\<rparr>" "\<lparr>q_reg = fst sample_observed, q_held = []\<rparr>"
      "''a.com''" "snd sample_observed"]
    sample_observed_ok sample_observed_lookup
  by simp

section \<open>Refreshing\<close>

text \<open>
  C30. A refresh follows DNS: a valid origin record activates the domain, its removal sends it
  back to pending, and any other resolver failure leaves origin, configuration and settings as
  they were, an origin known before keeps serving under the status \<open>error\<close>. A failing
  configuration lookup keeps the previous configuration.
\<close>

theorem refresh_follows_dns:
  assumes "Registry_Lookup r host = Some s" and "sn_host s = host"
  shows "\<exists>r' s'. Registry_Refresh x net r host now = Some (r', s') \<and>
    Registry_Lookup r' host = Some s' \<and> sn_lastRefreshed s' = now \<and> rg_dirty r' \<and>
    (case Resolver_Origin (x_urlParse x) net (rg_resolver r) host of
       Inr u \<Rightarrow> sn_status s' = ''active'' \<and> sn_origin s' = Some u \<and> sn_lastError s' = []
     | Inl ErrNoOrigin \<Rightarrow> sn_status s' = ''pending'' \<and> sn_origin s' = None \<and> sn_lastError s' = []
     | Inl (OriginLookup d err) \<Rightarrow> sn_origin s' = sn_origin s \<and> sn_originStr s' = sn_originStr s \<and>
         sn_configText s' = sn_configText s \<and> sn_settings s' = sn_settings s \<and>
         sn_status s' = (if sn_origin s = None then ''pending'' else ''error'')) \<and>
    (case ConfigText net (rg_resolver r) host of
       Inl _ \<Rightarrow> sn_configText s' = sn_configText s
     | Inr cfg \<Rightarrow> sn_configText s' \<in> {cfg, sn_configText s})"
proof (intro exI conjI)
  let ?s = "refreshSnapshot x net r now s"
  show "Registry_Refresh x net r host now = Some (Registry_store r ?s, ?s)"
    using assms(1) by (simp add: Registry_Refresh_def Let_def)
  show "Registry_Lookup (Registry_store r ?s) host = Some ?s"
    using assms(2) by (simp add: Registry_Lookup_def)
  show "rg_dirty (Registry_store r ?s)" by (simp add: Registry_store_def)
  note cases = refreshSnapshot_def [of x net r now s, unfolded Let_def] assms(2) status_defs
  consider u where "Resolver_Origin (x_urlParse x) net (rg_resolver r) host = Inr u"
    | "Resolver_Origin (x_urlParse x) net (rg_resolver r) host = Inl ErrNoOrigin"
    | d e where "Resolver_Origin (x_urlParse x) net (rg_resolver r) host = Inl (OriginLookup d e)"
    by (metis origin_error.exhaust sum.exhaust)
  note origin_cases = this
  show "sn_lastRefreshed ?s = now"
    by (cases rule: origin_cases; simp add: cases split: sum.split)
  show "case Resolver_Origin (x_urlParse x) net (rg_resolver r) host of
       Inr u \<Rightarrow> sn_status ?s = ''active'' \<and> sn_origin ?s = Some u \<and> sn_lastError ?s = []
     | Inl ErrNoOrigin \<Rightarrow> sn_status ?s = ''pending'' \<and> sn_origin ?s = None \<and> sn_lastError ?s = []
     | Inl (OriginLookup d err) \<Rightarrow> sn_origin ?s = sn_origin s \<and> sn_originStr ?s = sn_originStr s \<and>
         sn_configText ?s = sn_configText s \<and> sn_settings ?s = sn_settings s \<and>
         sn_status ?s = (if sn_origin s = None then ''pending'' else ''error'')"
    by (cases rule: origin_cases; simp add: cases split: sum.split)
  show "case ConfigText net (rg_resolver r) host of
       Inl _ \<Rightarrow> sn_configText ?s = sn_configText s
     | Inr cfg \<Rightarrow> sn_configText ?s \<in> {cfg, sn_configText s}"
    by (cases rule: origin_cases; simp add: cases split: sum.split)
qed

theorem refresh_follows_dns_witness:
  "\<exists>r' s'. Registry_Refresh plain
       \<lparr>net_TXT = (\<lambda>_ _. TxtFails ''timeout''), net_IP = (\<lambda>_ _. Inl ''timeout'')\<rparr>
       (fst sample_observed) ''a.com'' 99 = Some (r', s') \<and>
     sn_origin s' = sn_origin (snd sample_observed)"
proof -
  have "sn_host (snd sample_observed) = ''a.com''"
    using Lookup_ok [OF sample_observed_ok sample_observed_lookup] by simp
  from refresh_follows_dns [OF sample_observed_lookup this, of plain
      "\<lparr>net_TXT = (\<lambda>_ _. TxtFails ''timeout''), net_IP = (\<lambda>_ _. Inl ''timeout'')\<rparr>" 99]
  show ?thesis by (auto simp: Resolver_Origin_def)
qed

section \<open>A tick of the refresher\<close>

lemma refresh_cong:
  assumes "rg_resolver r' = rg_resolver r" and "rg_defaults r' = rg_defaults r"
  shows "refreshSnapshot x net r' now s = refreshSnapshot x net r now s"
  unfolding refreshSnapshot_def Let_def assms ..

lemma refresh_list_skips:
  assumes "\<And>k. \<not> snd (snd (env k))" and "h \<notin> sn_host ` set snaps"
  shows "map_of (rg_domains (refresh_list x env n now snaps r)) h = map_of (rg_domains r) h"
  using assms(2)
proof (induction snaps arbitrary: n r)
  case (Cons s snaps)
  then show ?case using assms(1) [of n] by (simp add: case_prod_unfold Let_def)
qed simp

lemma refresh_list_turn:
  assumes "\<And>k. \<not> snd (snd (env k))" and "distinct (map sn_host snaps)"
    and "\<And>s. s \<in> set snaps \<Longrightarrow> map_of (rg_domains r) (sn_host s) = Some s" and "s \<in> set snaps"
  shows "\<exists>k. map_of (rg_domains (refresh_list x env n now snaps r)) (sn_host s) =
    Some (if refresh_due r now s then refreshSnapshot x (fst (env k)) r (fst (snd (env k))) s else s)"
  using assms(2-4)
proof (induction snaps arbitrary: n r)
  case (Cons t snaps)
  let ?t = "refreshSnapshot x (fst (env n)) r (fst (snd (env n))) t"
  define r' m where "r' = (if refresh_due r now t then Registry_store r ?t else r)"
    and "m = (if refresh_due r now t then Suc n else n)"
  have step: "refresh_list x env n now (t # snaps) r = refresh_list x env m now snaps r'"
    using assms(1) [of n] by (simp add: case_prod_unfold Let_def r'_def m_def)
  have due: "refresh_due r' now u = refresh_due r now u" for u
    by (simp add: refresh_due_def r'_def)
  have cong: "refreshSnapshot x net r' v u = refreshSnapshot x net r v u" for net v u
    by (intro refresh_cong) (simp_all add: r'_def)
  have apart: "sn_host u \<noteq> sn_host t" if "u \<in> set snaps" for u
    using Cons.prems(1) that by (simp, metis imageI)
  show ?case
  proof (cases "s = t")
    case True
    have "sn_host t \<notin> sn_host ` set snaps" using Cons.prems(1) by simp
    from refresh_list_skips [OF assms(1) this] show ?thesis
      using Cons.prems(2) [of t] unfolding step True by (intro exI [of _ n]) (simp add: r'_def)
  next
    case False
    then have "s \<in> set snaps" using Cons.prems(3) by simp
    moreover have "map_of (rg_domains r') (sn_host u) = Some u" if "u \<in> set snaps" for u
      using Cons.prems(2) [of u] apart [OF that] that by (simp add: r'_def)
    ultimately show ?thesis
      using Cons.IH [of r' m] Cons.prems(1) unfolding step due cong by simp
  qed
qed simp

lemma refresh_list_lookup:
  assumes "\<And>k. \<not> snd (snd (env k))" and "distinct (map sn_host snaps)"
    and "\<And>s. s \<in> set snaps \<Longrightarrow> map_of (rg_domains r) (sn_host s) = Some s"
    and "\<And>h s. map_of (rg_domains r) h = Some s \<Longrightarrow> sn_host s = h"
  shows "\<exists>k. map_of (rg_domains (refresh_list x env n now snaps r)) h =
    (case map_of (rg_domains r) h of
       None \<Rightarrow> None
     | Some s \<Rightarrow> Some (if s \<in> set snaps \<and> refresh_due r now s
         then refreshSnapshot x (fst (env k)) r (fst (snd (env k))) s else s))"
proof (cases "h \<in> sn_host ` set snaps")
  case True
  then obtain s where s: "s \<in> set snaps" "h = sn_host s" by blast
  from refresh_list_turn [OF assms(1-3) s(1)] show ?thesis using assms(3) [OF s(1)] s by simp
next
  case False
  then have "s \<notin> set snaps" if "map_of (rg_domains r) h = Some s" for s
    using assms(4) [OF that] by auto
  with refresh_list_skips [OF assms(1) False] show ?thesis by (simp split: option.split)
qed

text \<open>
  One tick refreshes exactly the domains that are due, active ones by the long interval and
  all others by the short one, each by the answer of DNS at its turn; every other entry stays
  and none is added.
\<close>

theorem refreshDue_exact:
  assumes "reg_ok x r" and "\<And>k. \<not> snd (snd (env k))"
  shows "\<exists>k. Registry_Lookup (refreshDue x env now r) h =
    (case Registry_Lookup r h of
       None \<Rightarrow> None
     | Some s \<Rightarrow> Some
         (if time_sub now (sn_lastRefreshed s) <
             (if sn_status s = ''active'' then rg_activeEvery r else rg_pendingEvery r)
          then s else refreshSnapshot x (fst (env k)) r (fst (snd (env k))) s))"
proof -
  have dist: "distinct (map fst (rg_domains r))" using assms(1) by (simp add: reg_ok_def)
  have host: "sn_host s = k" if "(k, s) \<in> set (rg_domains r)" for k s
    using assms(1) that map_of_is_SomeI [OF dist that] by (auto simp: reg_ok_def)
  then have "map sn_host (Registry_All r) = map fst (rg_domains r)"
    by (auto simp: Registry_All_def)
  then have "distinct (map sn_host (Registry_All r))" using dist by simp
  moreover have "map_of (rg_domains r) (sn_host s) = Some s" if "s \<in> set (Registry_All r)" for s
  proof -
    from that obtain k where "(k, s) \<in> set (rg_domains r)" by (auto simp: Registry_All_def)
    with host map_of_is_SomeI [OF dist] show ?thesis by blast
  qed
  moreover have "s \<in> set (Registry_All r)" if "map_of (rg_domains r) h = Some s" for s
    using map_of_SomeD [OF that] by (force simp: Registry_All_def)
  moreover obtain k where "map_of (rg_domains (refresh_list x env 0 now (Registry_All r) r)) h =
    (case map_of (rg_domains r) h of
       None \<Rightarrow> None
     | Some s \<Rightarrow> Some (if s \<in> set (Registry_All r) \<and> refresh_due r now s
         then refreshSnapshot x (fst (env k)) r (fst (snd (env k))) s else s))"
    using refresh_list_lookup [of env "Registry_All r" r x 0 now h] assms calculation(1,2)
    unfolding reg_ok_def by blast
  ultimately show ?thesis
    by (intro exI [of _ k])
      (auto simp: Registry_Lookup_def refreshDue_def refresh_due_def Let_def status_defs split: option.split)
qed

theorem refreshDue_exact_witness:
  "\<exists>k :: nat. Registry_Lookup
       (refreshDue plain (\<lambda>_. (sample_network, 50, False)) 40 (fst sample_observed)) ''b.com'' =
     None"
proof -
  have "Registry_Lookup (fst sample_observed) ''b.com'' = None" by code_simp
  with refreshDue_exact [OF sample_observed_ok, of "\<lambda>_. (sample_network, 50, False)" 40 "''b.com''"]
  show ?thesis by simp
qed

section \<open>Persistence\<close>

lemma foldl_update:
  assumes "distinct (map fst xs)"
  shows "map_of (foldl (\<lambda>m (k, v). AList.update k v m) m xs) h =
    (case map_of xs h of Some v \<Rightarrow> Some v | None \<Rightarrow> map_of m h)"
  using assms
proof (induction xs arbitrary: m)
  case (Cons kv xs)
  obtain k v where kv: "kv = (k, v)" by (cases kv)
  have "map_of xs k = None" using Cons.prems kv by (simp add: map_of_eq_None_iff)
  moreover have "distinct (map fst xs)" using Cons.prems by simp
  note Cons.IH [OF this, of "AList.update k v m"]
  ultimately show ?case by (cases "h = k") (simp_all add: kv update_conv' split: option.split)
qed simp

lemma load_stored:
  assumes "snap_ok x d s" and "reparses x"
  shows "load_snapshot x d (to_stored s) = s"
proof (cases "sn_origin s")
  case None
  then show ?thesis
    using assms(1) by (intro snapshot.equality) (simp_all add: load_snapshot_def to_stored_def snap_ok_def)
next
  case (Some u)
  then obtain raw where "ParseOrigin (x_urlParse x) raw = Inr u" and str: "sn_originStr s = x_urlString x u"
    using assms(1) by (auto simp: snap_ok_def)
  with assms(2) have "ParseOrigin (x_urlParse x) (sn_originStr s) = Inr u" "sn_originStr s \<noteq> []"
    by (auto simp: reparses_def)
  then show ?thesis
    using Some assms(1)
    by (intro snapshot.equality) (simp_all add: load_snapshot_def to_stored_def snap_ok_def)
qed

lemma foldl_update_length:
  assumes "distinct (map fst ds)" and "\<And>h. map_of (foldl (\<lambda>m (k, v). AList.update k v m) [] ds) h = map_of ds h"
  shows "length (foldl (\<lambda>m (k, v). AList.update k v m) [] ds) = length ds"
proof -
  let ?ds = "foldl (\<lambda>m (k, v). AList.update k v m) [] ds"
  have "distinct (map fst (foldl (\<lambda>m (k, v). AList.update k v m) m xs))"
    if "distinct (map fst m)" for m and xs :: "('a \<times> 'b) list"
    using that by (induction xs arbitrary: m) (auto simp: distinct_update)
  then have "distinct (map fst ?ds)" by simp
  moreover have "dom (map_of ?ds) = dom (map_of ds)" using assms(2) by (simp add: dom_def)
  then have "set (map fst ?ds) = set (map fst ds)" by (simp only: dom_map_of_conv_image_fst set_map)
  ultimately have "length (map fst ?ds) = length (map fst ds)" using assms(1) distinct_card by metis
  then show ?thesis by simp
qed

text \<open>
  C31. A saved registry loads back: if the save went through and \<open>url.Parse\<close> reads what
  \<open>URL.String\<close> writes, a registry created from the file with the same defaults finds every
  domain with the same snapshot, origin and settings included, although these two are not
  written.
\<close>

theorem registry_save_load:
  assumes "reg_ok x r" and "reparses x" and "rg_dirty r"
    and "marshal (map to_stored (Registry_All r)) = Some data"
    and "unmarshal data = Some (map to_stored (Registry_All r))"
    and "Registry_save marshal Persisted r d = (r1, d1)"
  shows "\<exists>r2. NewRegistry x unmarshal (read_disk d1) rs (rg_defaults r) active pending = Inr r2 \<and>
    (\<forall>h. Registry_Lookup r2 h = Registry_Lookup r h) \<and> Registry_Count r2 = Registry_Count r \<and>
    \<not> rg_dirty r1 \<and> (\<forall>h. Registry_Lookup r1 h = Registry_Lookup r h)"
proof -
  let ?d = "rg_defaults r"
  let ?load = "\<lambda>m s. let snap = load_snapshot x ?d s in AList.update (sn_host snap) snap m"
  have r1: "r1 = r\<lparr>rg_dirty := False\<rparr>" and d1: "d_file d1 = Some data"
    using assms(3,4,6) by (auto simp: Registry_save_def Let_def)
  have dist: "distinct (map fst (rg_domains r))" using assms(1) by (simp add: reg_ok_def)
  have entry: "sn_host s = k \<and> snap_ok x ?d s" if "(k, s) \<in> set (rg_domains r)" for k s
    using assms(1) map_of_is_SomeI [OF dist that] by (simp add: reg_ok_def)
  have loop: "foldl ?load m (map to_stored (map snd xs)) = foldl (\<lambda>m (k, v). AList.update k v m) m xs"
    if "set xs \<subseteq> set (rg_domains r)" for m xs
    using that
  proof (induction xs arbitrary: m)
    case (Cons kv xs)
    obtain k v where kv: "kv = (k, v)" by (cases kv)
    with Cons.prems entry [of k v] load_stored [of x ?d v] assms(2) Cons.IH show ?case
      by (simp add: Let_def)
  qed simp
  let ?ds = "foldl (\<lambda>m (k, v). AList.update k v m) [] (rg_domains r)"
  let ?r2 = "\<lparr>rg_resolver = rs, rg_defaults = ?d, rg_activeEvery = active, rg_pendingEvery = pending,
      rg_domains = ?ds, rg_dirty = False\<rparr>"
  have "NewRegistry x unmarshal (read_disk d1) rs ?d active pending = Inr ?r2"
    using assms(5) loop [of "rg_domains r" "[]"]
    by (simp add: NewRegistry_def read_disk_def d1 Let_def Registry_All_def)
  moreover have look: "map_of ?ds h = map_of (rg_domains r) h" for h
    using foldl_update [OF dist, of "[]" h] by (auto split: option.splits)
  moreover have "length ?ds = length (rg_domains r)" by (rule foldl_update_length [OF dist look])
  ultimately show ?thesis
    by (intro exI [of _ ?r2]) (simp add: Registry_Lookup_def Registry_Count_def r1)
qed

theorem registry_save_load_witness:
  "\<exists>r2. NewRegistry plain (\<lambda>_. Some (map to_stored (Registry_All (fst sample_observed))))
      (read_disk (snd (Registry_save (\<lambda>_. Some ''json'') Persisted (fst sample_observed)
         \<lparr>d_file = None, d_tmp = None\<rparr>))) SystemResolver
      (rg_defaults (fst sample_observed)) 7 8 = Inr r2 \<and>
    Registry_Lookup r2 ''a.com'' = Some (snd sample_observed)"
proof -
  have "rg_dirty (fst sample_observed)" by code_simp
  moreover obtain r1 d1 where save: "Registry_save (\<lambda>_. Some ''json'') Persisted
      (fst sample_observed) \<lparr>d_file = None, d_tmp = None\<rparr> = (r1, d1)" by fastforce
  ultimately obtain r2 where
    "NewRegistry plain (\<lambda>_. Some (map to_stored (Registry_All (fst sample_observed)))) (read_disk d1)
       SystemResolver (rg_defaults (fst sample_observed)) 7 8 = Inr r2"
    "Registry_Lookup r2 ''a.com'' = Registry_Lookup (fst sample_observed) ''a.com''"
    using registry_save_load [OF sample_observed_ok plain_reparses _ refl refl save, of SystemResolver 7 8]
    by blast
  then show ?thesis using sample_observed_lookup save by simp
qed

end
