(* ===== verification/Http.thy ===== *)
theory Http
  imports GoStrings F64
begin

text \<open>
  The HTTP objects the handlers work on: a request, the server's response writer, decimal
  numbers for header values, and \<open>http.Error\<close>. A response writer freezes its header with the
  first final status; informational statuses (1xx) are sent at once and leave it open, as
  \<open>net/http\<close> does. The contracts of writers and of writers that wrap others are locales.
\<close>

section \<open>Requests\<close>

text \<open>Of \<open>r.URL\<close> the model keeps the decoded path, the raw path, \<open>EscapedPath()\<close> and the query.\<close>

record request =
  rq_method :: string
  rq_host :: string
  rq_path :: string
  rq_rawPath :: string
  rq_escaped :: string
  rq_rawQuery :: string
  rq_header :: header
  rq_remoteAddr :: string
  rq_tls :: bool

text \<open>\<open>URL.RequestURI\<close> of a server request.\<close>

definition RequestURI :: "request \<Rightarrow> string" where
  "RequestURI r =
     (if rq_escaped r = [] then ''/'' else rq_escaped r) @
     (if rq_rawQuery r \<noteq> [] then ''?'' @ rq_rawQuery r else [])"

section \<open>Decimal numbers\<close>

fun nat_digits :: "nat \<Rightarrow> string" where
  "nat_digits n = (if n < 10 then [char_of (48 + n)] else nat_digits (n div 10) @ [char_of (48 + n mod 10)])"

declare nat_digits.simps [simp del]

text \<open>\<open>strconv.FormatInt(n, 10)\<close> and \<open>strconv.Itoa\<close>.\<close>

definition itoa :: "int \<Rightarrow> string" where
  "itoa n = (if n < 0 then ''-'' @ nat_digits (nat (- n)) else nat_digits (nat n))"

lemma nat_digits_plain: "list_all is_digit (nat_digits n)" "nat_digits n \<noteq> []"
proof -
  have digit: "is_digit (char_of (48 + k))" if "k < 10" for k :: nat
    using that by (simp add: is_digit_def of_char_of take_bit_eq_mod)
  show "list_all is_digit (nat_digits n)"
  proof (induction n rule: nat_digits.induct)
    case (1 n)
    then show ?case
      using digit [of n] digit [of "n mod 10"] by (cases "n < 10") (simp_all add: nat_digits.simps [of n])
  qed
  show "nat_digits n \<noteq> []" by (cases "n < 10") (simp_all add: nat_digits.simps [of n])
qed

lemma dec_val_append: "dec_val (s @ [c]) = 10 * dec_val s + digit_val c"
  by (simp add: dec_val_def)

lemma dec_val_nat_digits: "dec_val (nat_digits n) = int n"
proof (induction n rule: nat_digits.induct)
  case (1 n)
  have digit: "digit_val (char_of (48 + k)) = int k" if "k < 10" for k :: nat
    using that by (simp add: digit_val_def of_char_of take_bit_eq_mod)
  show ?case
  proof (cases "n < 10")
    case True
    then show ?thesis using digit [of n] by (simp add: nat_digits.simps [of n] dec_val_def)
  next
    case False
    then have "dec_val (nat_digits n) = 10 * int (n div 10) + int (n mod 10)"
      using 1 digit [of "n mod 10"] by (simp add: nat_digits.simps [of n] dec_val_append)
    then show ?thesis by presburger
  qed
qed

text \<open>Printing a number and reading it back.\<close>

lemma atoi_itoa:
  assumes "0 \<le> n" and "n < 2 ^ 63"
  shows "atoi (itoa n) = Some n"
proof -
  let ?s = "nat_digits (nat n)"
  have all: "list_all is_digit ?s" and ne: "?s \<noteq> []" by (rule nat_digits_plain)+
  then obtain c t where s: "?s = c # t" and c: "is_digit c" by (cases ?s) auto
  have "c \<noteq> CHR ''-''" "c \<noteq> CHR ''+''" using c by (auto simp: is_digit_def)
  moreover have "parse_digits ?s = Some n"
    using all ne assms(1) by (simp add: parse_digits_def dec_val_nat_digits)
  moreover have "itoa n = c # t" using assms(1) s by (simp add: itoa_def)
  ultimately show ?thesis using assms(2) s by (simp add: parseInt10_def Let_def)
qed

text \<open>\<open>int64(d.Seconds())\<close>: whole seconds and the fraction are added in double precision.\<close>

definition duration_seconds :: "duration \<Rightarrow> int" where
  "duration_seconds d =
     (let sec = go_div d second; nsec = d - sec * second;
          x = f64 (f64 (of_int sec) + f64_div (f64 (of_int nsec)) 1000000000)
      in if x \<ge> 0 then \<lfloor>x\<rfloor> else \<lceil>x\<rceil>)"

section \<open>Response writers\<close>

record writer =
  w_header :: header
  w_wrote :: bool
  w_status :: int
  w_sent :: header
  w_body :: bytes
  w_info :: "(int \<times> header) list"

definition new_writer :: writer where
  "new_writer = \<lparr>w_header = [], w_wrote = False, w_status = 0, w_sent = [], w_body = [], w_info = []\<rparr>"

definition w_WriteHeader :: "int \<Rightarrow> writer \<Rightarrow> writer" where
  "w_WriteHeader status w =
     (if w_wrote w then w
      else if 100 \<le> status \<and> status \<le> 199 \<and> status \<noteq> 101 then
        w\<lparr>w_info := w_info w @ [(status, w_header w)]\<rparr>
      else w\<lparr>w_wrote := True, w_status := status, w_sent := w_header w\<rparr>)"

definition w_Write :: "bytes \<Rightarrow> writer \<Rightarrow> writer" where
  "w_Write b w =
     (let w1 = (if w_wrote w then w else w_WriteHeader 200 w) in w1\<lparr>w_body := w_body w1 @ b\<rparr>)"

lemma w_WriteHeader_frozen [simp]: "w_wrote w \<Longrightarrow> w_WriteHeader status w = w"
  by (simp add: w_WriteHeader_def)

lemma w_body_WriteHeader [simp]: "w_body (w_WriteHeader status w) = w_body w"
  by (simp add: w_WriteHeader_def)

lemma w_header_ops [simp, frame]:
  "w_header (w_WriteHeader status w) = w_header w" "w_header (w_Write b w) = w_header w"
  by (simp_all add: w_WriteHeader_def w_Write_def Let_def)

lemma w_Write_body [simp]: "w_body (w_Write b w) = w_body w @ b"
  by (simp add: w_Write_def Let_def)

lemma w_Write_wrote [simp]: "w_wrote (w_Write b w)"
  by (simp add: w_Write_def w_WriteHeader_def Let_def)

lemma w_Write_frozen [simp]:
  "w_wrote w \<Longrightarrow> w_status (w_Write b w) = w_status w" "w_wrote w \<Longrightarrow> w_sent (w_Write b w) = w_sent w"
  by (simp_all add: w_Write_def Let_def)

text \<open>
  The target of a handler: the client's writer, or the \<open>discardWriter\<close> of a background fetch,
  which only has a header.
\<close>

datatype sink = ClientWriter writer | DiscardWriter header

fun sink_Header :: "sink \<Rightarrow> header" where
  "sink_Header (ClientWriter w) = w_header w"
| "sink_Header (DiscardWriter h) = h"

fun sink_setHeader :: "header \<Rightarrow> sink \<Rightarrow> sink" where
  "sink_setHeader h (ClientWriter w) = ClientWriter (w\<lparr>w_header := h\<rparr>)"
| "sink_setHeader h (DiscardWriter _) = DiscardWriter h"

fun sink_WriteHeader :: "int \<Rightarrow> sink \<Rightarrow> sink" where
  "sink_WriteHeader status (ClientWriter w) = ClientWriter (w_WriteHeader status w)"
| "sink_WriteHeader status (DiscardWriter h) = DiscardWriter h"

fun sink_Write :: "bytes \<Rightarrow> sink \<Rightarrow> sink" where
  "sink_Write b (ClientWriter w) = ClientWriter (w_Write b w)"
| "sink_Write b (DiscardWriter h) = DiscardWriter h"

definition newDiscardWriter :: sink where
  "newDiscardWriter = DiscardWriter []"

lemma sink_Header_ops [simp, frame]:
  "sink_Header (sink_setHeader h s) = h" "sink_Header (sink_WriteHeader c s) = sink_Header s"
  "sink_Header (sink_Write b s) = sink_Header s"
  by (cases s; simp)+

text \<open>\<open>http.Error\<close> on any writer, given its operations.\<close>

definition error_header :: "header \<Rightarrow> header" where
  "error_header h =
     header_set (header_set (header_del h ''Content-Length'')
       ''Content-Type'' ''text/plain; charset=utf-8'') ''X-Content-Type-Options'' ''nosniff''"

definition http_Error :: "string \<Rightarrow> int \<Rightarrow> sink \<Rightarrow> sink" where
  "http_Error msg code s =
     sink_Write (msg @ [CHR 0x0A]) (sink_WriteHeader code (sink_setHeader (error_header (sink_Header s)) s))"

section \<open>The contract of a response writer\<close>

text \<open>
  What a handler that streams a response relies on, whichever writer it is given: writing
  appends and leaves the header map alone, and the header map is what was last set.
\<close>

locale header_writer =
  fixes Header :: "'w \<Rightarrow> header"
    and setHeader :: "header \<Rightarrow> 'w \<Rightarrow> 'w"
    and WriteHeader :: "int \<Rightarrow> 'w \<Rightarrow> 'w"
    and Write :: "bytes \<Rightarrow> 'w \<Rightarrow> 'w"
  assumes Header_setHeader: "Header (setHeader h w) = h"
    and Header_WriteHeader: "Header (WriteHeader c w) = Header w"
    and Header_Write: "Header (Write b w) = Header w"
begin

lemma Header_stream: "Header (fold Write bs w) = Header w"
  by (induction bs arbitrary: w) (simp_all add: Header_Write)

lemma Header_response: "Header (fold Write bs (WriteHeader c (setHeader h w))) = h"
  by (simp add: Header_stream Header_WriteHeader Header_setHeader)

end

locale response_writer = header_writer Header setHeader WriteHeader Write
  for Header :: "'w \<Rightarrow> header" and setHeader :: "header \<Rightarrow> 'w \<Rightarrow> 'w"
    and WriteHeader :: "int \<Rightarrow> 'w \<Rightarrow> 'w" and Write :: "bytes \<Rightarrow> 'w \<Rightarrow> 'w" +
  fixes received :: "'w \<Rightarrow> bytes"
  assumes received_setHeader: "received (setHeader h w) = received w"
    and received_WriteHeader: "received (WriteHeader c w) = received w"
    and received_Write: "received (Write b w) = received w @ b"
begin

lemma received_stream: "received (fold Write bs w) = received w @ concat bs"
  by (induction bs arbitrary: w) (simp_all add: received_Write)

lemma received_response: "received (fold Write bs (WriteHeader c (setHeader h w))) = received w @ concat bs"
  by (simp add: received_stream received_WriteHeader received_setHeader)

end

interpretation client: response_writer w_header "\<lambda>h w. w\<lparr>w_header := h\<rparr>" w_WriteHeader w_Write w_body
  by unfold_locales simp_all

interpretation sink: header_writer sink_Header sink_setHeader sink_WriteHeader sink_Write
  by unfold_locales simp_all

text \<open>
  A writer that wraps another one and passes every call on. It is a writer with the header map
  of the wrapped one, and a whole response reaches the wrapped one call by call.
\<close>

locale writer_layer = header_writer Header setHeader WriteHeader Write
  for Header :: "'w \<Rightarrow> header" and setHeader :: "header \<Rightarrow> 'w \<Rightarrow> 'w"
    and WriteHeader :: "int \<Rightarrow> 'w \<Rightarrow> 'w" and Write :: "bytes \<Rightarrow> 'w \<Rightarrow> 'w" +
  fixes wrapped :: "'v \<Rightarrow> 'w"
    and lSetHeader :: "header \<Rightarrow> 'v \<Rightarrow> 'v"
    and lWriteHeader :: "int \<Rightarrow> 'v \<Rightarrow> 'v"
    and lWrite :: "bytes \<Rightarrow> 'v \<Rightarrow> 'v"
  assumes wrapped_setHeader: "wrapped (lSetHeader h v) = setHeader h (wrapped v)"
    and wrapped_WriteHeader: "wrapped (lWriteHeader c v) = WriteHeader c (wrapped v)"
    and wrapped_Write: "wrapped (lWrite b v) = Write b (wrapped v)"
begin

lemma wrapped_stream: "wrapped (fold lWrite bs v) = fold Write bs (wrapped v)"
  by (induction bs arbitrary: v) (simp_all add: wrapped_Write)

lemma wrapped_response:
  "wrapped (fold lWrite bs (lWriteHeader c (lSetHeader h v))) =
     fold Write bs (WriteHeader c (setHeader h (wrapped v)))"
  by (simp add: wrapped_stream wrapped_WriteHeader wrapped_setHeader)

end

sublocale writer_layer \<subseteq> layer: header_writer "\<lambda>v. Header (wrapped v)" lSetHeader lWriteHeader lWrite
  by unfold_locales
    (simp_all add: wrapped_setHeader wrapped_WriteHeader wrapped_Write
      Header_setHeader Header_WriteHeader Header_Write)

end
