(* ===== verification/Recorder.thy ===== *)
theory Recorder
  imports Http Policy Cache
begin

text \<open>
  \<open>internal/proxy/recorder.go\<close>: the response writer that tees a cacheable origin response into
  memory on its way to the client. \<open>http.ParseTime\<close> and the clock are arguments.
\<close>

record recorder =
  rec_sink :: sink
  rec_reqPath :: string
  rec_policy :: policy
  rec_wroteHeader :: bool
  rec_store :: bool
  rec_status :: int
  rec_header :: header
  rec_ttl :: duration
  rec_body :: bytes

definition new_recorder :: "sink \<Rightarrow> string \<Rightarrow> policy \<Rightarrow> recorder" where
  "new_recorder s path p =
     \<lparr>rec_sink = s, rec_reqPath = path, rec_policy = p, rec_wroteHeader = False, rec_store = False,
      rec_status = 0, rec_header = [], rec_ttl = 0, rec_body = []\<rparr>"

definition hopHeaders :: "string list" where
  "hopHeaders =
     [''Connection'', ''Keep-Alive'', ''Proxy-Authenticate'', ''Proxy-Authorization'', ''Te'',
      ''Trailer'', ''Transfer-Encoding'', ''Upgrade'', ''Age'', ''Set-Cookie'']"

definition strip_hop :: "header \<Rightarrow> header" where
  "strip_hop h = foldl header_del h hopHeaders"

definition rec_WriteHeader ::
  "(string \<Rightarrow> time option) \<Rightarrow> time \<Rightarrow> int \<Rightarrow> recorder \<Rightarrow> recorder" where
  "rec_WriteHeader parseTime now status r =
     (let r1 =
        (if \<not> rec_wroteHeader r then
           let r0 = r\<lparr>rec_wroteHeader := True, rec_status := status\<rparr>;
               h = sink_Header (rec_sink r);
               (ttl, ok) = ResponseTTL parseTime now (rec_policy r) (rec_reqPath r) status h
           in if ok then r0\<lparr>rec_store := True, rec_ttl := ttl, rec_header := strip_hop h\<rparr> else r0
         else r)
      in r1\<lparr>rec_sink := sink_WriteHeader status (rec_sink r1)\<rparr>)"

definition rec_Write :: "(string \<Rightarrow> time option) \<Rightarrow> time \<Rightarrow> bytes \<Rightarrow> recorder \<Rightarrow> recorder" where
  "rec_Write parseTime now b r =
     (let r1 = (if \<not> rec_wroteHeader r then rec_WriteHeader parseTime now 200 r else r);
          r2 =
        (if rec_store r1 then
           if int (length (rec_body r1) + length b) > p_maxObjectBytes (rec_policy r1)
           then r1\<lparr>rec_store := False, rec_body := []\<rparr>
           else r1\<lparr>rec_body := rec_body r1 @ b\<rparr>
         else r1)
      in r2\<lparr>rec_sink := sink_Write b (rec_sink r2)\<rparr>)"

definition rec_object :: "time \<Rightarrow> recorder \<Rightarrow> object option" where
  "rec_object now r =
     (if \<not> rec_store r then None
      else Some \<lparr>o_status = rec_status r, o_header = rec_header r, o_body = rec_body r,
                 o_storedAt = now, o_ttl = rec_ttl r, o_staleFor = p_staleFor (rec_policy r)\<rparr>)"

definition rec_setHeader :: "header \<Rightarrow> recorder \<Rightarrow> recorder" where
  "rec_setHeader h r = r\<lparr>rec_sink := sink_setHeader h (rec_sink r)\<rparr>"

section \<open>Transparency\<close>

text \<open>The wrapped writer sees exactly the calls made on the recorder.\<close>

lemma rec_WriteHeader_sink [simp]:
  "rec_sink (rec_WriteHeader parseTime now status r) = sink_WriteHeader status (rec_sink r)"
  by (auto simp: rec_WriteHeader_def Let_def split: prod.split)

lemma sink_Write_implicit: "sink_Write b (sink_WriteHeader 200 s) = sink_Write b s"
  by (cases s) (simp_all add: w_Write_def w_WriteHeader_def Let_def)

lemma rec_Write_sink [simp]:
  "rec_sink (rec_Write parseTime now b r) = sink_Write b (rec_sink r)"
  by (simp add: rec_Write_def Let_def sink_Write_implicit)

lemma rec_setHeader_simps [simp]:
  "rec_sink (rec_setHeader h r) = sink_setHeader h (rec_sink r)"
  "rec_store (rec_setHeader h r) = rec_store r" "rec_body (rec_setHeader h r) = rec_body r"
  "rec_wroteHeader (rec_setHeader h r) = rec_wroteHeader r"
  "rec_policy (rec_setHeader h r) = rec_policy r" "rec_reqPath (rec_setHeader h r) = rec_reqPath r"
  by (simp_all add: rec_setHeader_def)

interpretation tee: writer_layer sink_Header sink_setHeader sink_WriteHeader sink_Write
    rec_sink rec_setHeader "rec_WriteHeader parseTime now" "rec_Write parseTime now" for parseTime now
  by unfold_locales simp_all

lemma rec_policy_ops [simp, frame]:
  "rec_policy (rec_WriteHeader parseTime now c r) = rec_policy r"
  "rec_policy (rec_Write parseTime now b r) = rec_policy r"
  by (auto simp: rec_WriteHeader_def rec_Write_def Let_def split: prod.split)

fun sink_body :: "sink \<Rightarrow> bytes" where
  "sink_body (ClientWriter w) = w_body w"
| "sink_body (DiscardWriter _) = []"

lemma header_get_strip:
  "header_get (strip_hop h) k = (if k \<in> set hopHeaders then [] else header_get h k)"
proof -
  have "header_get (foldl header_del h ks) k = (if k \<in> set ks then [] else header_get h k)" for ks
    by (induction ks arbitrary: h) auto
  then show ?thesis by (simp add: strip_hop_def)
qed

section \<open>What is recorded\<close>

text \<open>Once a header has been written, the body is the concatenation of what was written, or given up.\<close>

lemma rec_Write_recording:
  assumes "rec_wroteHeader r"
  shows "rec_wroteHeader (rec_Write parseTime now b r)"
    and "rec_status (rec_Write parseTime now b r) = rec_status r"
    and "rec_ttl (rec_Write parseTime now b r) = rec_ttl r"
    and "rec_header (rec_Write parseTime now b r) = rec_header r"
    and "rec_store (rec_Write parseTime now b r) \<longleftrightarrow> rec_store r \<and>
      int (length (rec_body r) + length b) \<le> p_maxObjectBytes (rec_policy r)"
    and "rec_store (rec_Write parseTime now b r) \<Longrightarrow>
      rec_body (rec_Write parseTime now b r) = rec_body r @ b"
  using assms by (auto simp: rec_Write_def Let_def split: if_splits)

lemma rec_writes:
  assumes "rec_wroteHeader r"
  shows "rec_wroteHeader (fold (rec_Write parseTime now) bs r)"
    and "rec_status (fold (rec_Write parseTime now) bs r) = rec_status r"
    and "rec_ttl (fold (rec_Write parseTime now) bs r) = rec_ttl r"
    and "rec_header (fold (rec_Write parseTime now) bs r) = rec_header r"
    and "rec_policy (fold (rec_Write parseTime now) bs r) = rec_policy r"
  using assms
  by (induction bs arbitrary: r) (simp_all add: rec_Write_recording)

lemma rec_writes_off:
  "rec_wroteHeader r \<Longrightarrow> \<not> rec_store r \<Longrightarrow> \<not> rec_store (fold (rec_Write parseTime now) bs r)"
  by (induction bs arbitrary: r) (simp_all add: rec_Write_recording)

lemma rec_writes_store:
  assumes "rec_wroteHeader r" and "rec_store r"
    and "int (length (rec_body r)) \<le> p_maxObjectBytes (rec_policy r)"
  shows "(rec_store (fold (rec_Write parseTime now) bs r) \<longleftrightarrow>
      int (length (rec_body r) + length (concat bs)) \<le> p_maxObjectBytes (rec_policy r)) \<and>
    (rec_store (fold (rec_Write parseTime now) bs r) \<longrightarrow>
      rec_body (fold (rec_Write parseTime now) bs r) = rec_body r @ concat bs)"
  using assms
proof (induction bs arbitrary: r)
  case (Cons b bs)
  let ?r = "rec_Write parseTime now b r"
  note step = rec_Write_recording [OF Cons.prems(1), of parseTime now b]
  show ?case
  proof (cases "rec_store ?r")
    case True
    with Cons.IH [of ?r] Cons.prems step show ?thesis by (simp add: add.assoc)
  next
    case False
    with rec_writes_off [OF step(1) False, of parseTime now bs] step(5) Cons.prems(2)
    show ?thesis by simp
  qed
qed simp

text \<open>At no time does the buffer exceed the limit.\<close>

definition rec_bounded :: "recorder \<Rightarrow> bool" where
  "rec_bounded r \<longleftrightarrow> int (length (rec_body r)) \<le> max 0 (p_maxObjectBytes (rec_policy r)) \<and>
     (\<not> rec_store r \<longrightarrow> rec_body r = [])"

lemma rec_bounded_ops [inv_pres]:
  "rec_bounded (new_recorder s path p)"
  "rec_bounded r \<Longrightarrow> rec_bounded (rec_setHeader h r)"
  "rec_bounded r \<Longrightarrow> rec_bounded (rec_WriteHeader parseTime now c r)"
  "rec_bounded r \<Longrightarrow> rec_bounded (rec_Write parseTime now b r)"
proof -
  show "rec_bounded (new_recorder s path p)" by (simp add: rec_bounded_def new_recorder_def)
  show "rec_bounded r \<Longrightarrow> rec_bounded (rec_setHeader h r)" by (simp add: rec_bounded_def)
  show wh: "rec_bounded r \<Longrightarrow> rec_bounded (rec_WriteHeader parseTime now c r)" for r c
    by (auto simp: rec_bounded_def rec_WriteHeader_def Let_def split: prod.split)
  show "rec_bounded r \<Longrightarrow> rec_bounded (rec_Write parseTime now b r)"
    using wh [of r 200] unfolding rec_Write_def Let_def
    by (auto simp: rec_bounded_def split: if_splits)
qed

end
