(* ===== verification/Metrics.thy ===== *)
theory Metrics
  imports Prelude
begin

text \<open>\<open>internal/metrics/metrics.go\<close>: the request counters, 64-bit words that wrap as the atomic
  counters do, and their snapshot.\<close>

record metrics =
  m_TotalRequests :: "64 word"
  m_ProxyRequests :: "64 word"
  m_CacheHits :: "64 word"
  m_CacheStales :: "64 word"
  m_CacheMisses :: "64 word"
  m_CacheBypass :: "64 word"
  m_WebSocketUpgrades :: "64 word"
  m_NotModified :: "64 word"
  m_ImageRequests :: "64 word"
  m_ImageCacheHits :: "64 word"
  m_ImageCacheMisses :: "64 word"

definition zero_metrics :: metrics where
  "zero_metrics =
     \<lparr>m_TotalRequests = 0, m_ProxyRequests = 0, m_CacheHits = 0, m_CacheStales = 0,
      m_CacheMisses = 0, m_CacheBypass = 0, m_WebSocketUpgrades = 0, m_NotModified = 0,
      m_ImageRequests = 0, m_ImageCacheHits = 0, m_ImageCacheMisses = 0\<rparr>"

text \<open>The snapshot has the same counters, as numbers.\<close>

record metrics_snapshot =
  ms_total_requests :: nat
  ms_proxy_requests :: nat
  ms_cache_hits :: nat
  ms_cache_stales :: nat
  ms_cache_misses :: nat
  ms_cache_bypass :: nat
  ms_websocket_upgrades :: nat
  ms_not_modified :: nat
  ms_image_requests :: nat
  ms_image_cache_hits :: nat
  ms_image_cache_misses :: nat

definition Metrics_Snap :: "metrics \<Rightarrow> metrics_snapshot" where
  "Metrics_Snap m =
     \<lparr>ms_total_requests = unat (m_TotalRequests m), ms_proxy_requests = unat (m_ProxyRequests m),
      ms_cache_hits = unat (m_CacheHits m), ms_cache_stales = unat (m_CacheStales m),
      ms_cache_misses = unat (m_CacheMisses m), ms_cache_bypass = unat (m_CacheBypass m),
      ms_websocket_upgrades = unat (m_WebSocketUpgrades m), ms_not_modified = unat (m_NotModified m),
      ms_image_requests = unat (m_ImageRequests m), ms_image_cache_hits = unat (m_ImageCacheHits m),
      ms_image_cache_misses = unat (m_ImageCacheMisses m)\<rparr>"

end
