(* ===== verification/Proxy.thy ===== *)
theory Proxy
  imports Recorder Registry Metrics ObjectStore
begin

text \<open>
  \<open>internal/proxy/proxy.go\<close>: the caching reverse proxy. The origin is a parameter that answers
  the rewritten request; what \<open>httputil.ReverseProxy\<close> does with the answer is written out. A
  background revalidation is a job of the state that runs as a step of its own. Clock readings
  are numbered within a call: \<open>clk 0\<close> at the lookup, \<open>clk 1\<close> when a header is written,
  \<open>clk 2\<close> when an object is stored.
\<close>

section \<open>Requests to the origin\<close>

record out_request =
  or_method :: string
  or_scheme :: string
  or_urlHost :: string
  or_path :: string
  or_rawPath :: string
  or_rawQuery :: string
  or_host :: string
  or_header :: header

text \<open>
  The answer: a transport error (and whether the request's context was done by then), or
  informational responses, the status, the header \<open>ReverseProxy\<close> copies, the chunks written and
  whether copying then failed.
\<close>

datatype origin_reply =
    OriginError bool
  | OriginReply "(int \<times> header) list" int header "bytes list" bool

record env =
  e_sha :: "bytes \<Rightarrow> bytes"
  e_parseTime :: "string \<Rightarrow> time option"
  e_outHeader :: "request \<Rightarrow> header"
  e_fetch :: "out_request \<Rightarrow> origin_reply"

text \<open>\<open>ProxyRequest.SetXForwarded\<close>.\<close>

definition SetXForwarded :: "request \<Rightarrow> header \<Rightarrow> header" where
  "SetXForwarded r h =
     (let h1 = (case SplitHostPort (rq_remoteAddr r) of
                  Inr (clientIP, _) \<Rightarrow>
                    (case map_of h ''X-Forwarded-For'' of
                       Some (v # vs) \<Rightarrow>
                         header_set h ''X-Forwarded-For''
                           (concat (map (\<lambda>p. p @ '', '') (v # vs)) @ clientIP)
                     | _ \<Rightarrow> header_set h ''X-Forwarded-For'' clientIP)
                | Inl _ \<Rightarrow> header_del h ''X-Forwarded-For'');
          h2 = header_set h1 ''X-Forwarded-Host'' (rq_host r)
      in header_set h2 ''X-Forwarded-Proto'' (if rq_tls r then ''https'' else ''http''))"

text \<open>The \<open>Rewrite\<close> hook; \<open>None\<close> is the nil dereference on a snapshot without an origin.\<close>

definition Rewrite :: "env \<Rightarrow> snapshot \<Rightarrow> request \<Rightarrow> out_request option" where
  "Rewrite e snap r =
     (case sn_origin snap of
        None \<Rightarrow> None
      | Some origin \<Rightarrow>
          (let prefix = trimSuffix (u_path origin) ''/'';
               h = header_set (SetXForwarded r (e_outHeader e r)) ''X-Forwarded-Host'' (rq_host r)
           in Some
             \<lparr>or_method = rq_method r, or_scheme = u_scheme origin, or_urlHost = u_host origin,
              or_path = (if prefix \<noteq> [] then prefix @ rq_path r else rq_path r),
              or_rawPath = (if prefix \<noteq> [] then [] else rq_rawPath r),
              or_rawQuery = rq_rawQuery r,
              or_host = (if cfg_preserveHost (sn_settings snap) then rq_host r else u_host origin),
              or_header = h\<rparr>))"

section \<open>The reverse proxy on a response writer\<close>

datatype rwriter = Direct sink | Tee recorder

fun rw_Header :: "rwriter \<Rightarrow> header" where
  "rw_Header (Direct s) = sink_Header s"
| "rw_Header (Tee r) = sink_Header (rec_sink r)"

fun rw_setHeader :: "header \<Rightarrow> rwriter \<Rightarrow> rwriter" where
  "rw_setHeader h (Direct s) = Direct (sink_setHeader h s)"
| "rw_setHeader h (Tee r) = Tee (rec_setHeader h r)"

fun rw_WriteHeader :: "env \<Rightarrow> time \<Rightarrow> int \<Rightarrow> rwriter \<Rightarrow> rwriter" where
  "rw_WriteHeader e now c (Direct s) = Direct (sink_WriteHeader c s)"
| "rw_WriteHeader e now c (Tee r) = Tee (rec_WriteHeader (e_parseTime e) now c r)"

fun rw_Write :: "env \<Rightarrow> time \<Rightarrow> bytes \<Rightarrow> rwriter \<Rightarrow> rwriter" where
  "rw_Write e now b (Direct s) = Direct (sink_Write b s)"
| "rw_Write e now b (Tee r) = Tee (rec_Write (e_parseTime e) now b r)"

definition copyHeader :: "header \<Rightarrow> header \<Rightarrow> header" where
  "copyHeader dst src =
     foldl (\<lambda>h (k, vs). AList.update k ((case map_of h k of Some ws \<Rightarrow> ws | None \<Rightarrow> []) @ vs) h) dst src"

text \<open>An informational response: its header is sent, then the header map is cleared.\<close>

definition forward_info :: "env \<Rightarrow> time \<Rightarrow> int \<times> header \<Rightarrow> rwriter \<Rightarrow> rwriter" where
  "forward_info e now ci w =
     rw_setHeader [] (rw_WriteHeader e now (fst ci) (rw_setHeader (copyHeader (rw_Header w) (snd ci)) w))"

text \<open>The \<open>ErrorHandler\<close>: silent when the client is gone, 502 otherwise.\<close>

definition origin_unreachable :: "env \<Rightarrow> time \<Rightarrow> bool \<Rightarrow> rwriter \<Rightarrow> rwriter" where
  "origin_unreachable e now gone w =
     (if gone then w
      else rw_Write e now (''hubCDN: origin unreachable'' @ [CHR 0x0A])
             (rw_WriteHeader e now 502 (rw_setHeader (error_header (rw_Header w)) w)))"

text \<open>
  \<open>ReverseProxy.ServeHTTP\<close> on the answer. When copying the body fails it panics with
  \<open>ErrAbortHandler\<close> if the request came through a server, and only logs otherwise.
\<close>

definition reverse_proxy :: "env \<Rightarrow> time \<Rightarrow> bool \<Rightarrow> origin_reply \<Rightarrow> rwriter \<Rightarrow> rwriter \<times> bool" where
  "reverse_proxy e now inServer reply w =
     (case reply of
        OriginError gone \<Rightarrow> (origin_unreachable e now gone w, False)
      | OriginReply infos status h chunks broken \<Rightarrow>
          (let w1 = fold (forward_info e now) infos w;
               w2 = rw_setHeader (copyHeader (rw_Header w1) h) w1;
               w3 = fold (rw_Write e now) chunks (rw_WriteHeader e now status w2)
           in (w3, broken \<and> inServer)))"

definition forward :: "env \<Rightarrow> time \<Rightarrow> bool \<Rightarrow> snapshot \<Rightarrow> request \<Rightarrow> rwriter \<Rightarrow> rwriter \<times> bool" where
  "forward e now inServer snap r w =
     (case Rewrite e snap r of
        None \<Rightarrow> (w, True)
      | Some out \<Rightarrow> reverse_proxy e now inServer (e_fetch e out) w)"

section \<open>Conditional requests and encodings\<close>

definition notModified :: "(string \<Rightarrow> time option) \<Rightarrow> request \<Rightarrow> object \<Rightarrow> bool" where
  "notModified parseTime r obj =
     (let inm = header_get (rq_header r) ''If-None-Match'' in
      if inm \<noteq> [] then
        let etag = header_get (o_header obj) ''Etag'' in
        if etag = [] then False
        else list_ex (\<lambda>cand0. let cand = trimSpace cand0 in
               cand = etag \<or> cand = ''*'' \<or> trimPrefix cand ''W/'' = trimPrefix etag ''W/'')
             (splitOn CHR '','' inm)
      else
        let ims = header_get (rq_header r) ''If-Modified-Since'' in
        if ims \<noteq> [] then
          let lm = header_get (o_header obj) ''Last-Modified'' in
          if lm = [] then False
          else (case (parseTime ims, parseTime lm) of
                  (Some imsT, Some lmT) \<Rightarrow> \<not> lmT > imsT
                | _ \<Rightarrow> False)
        else False)"

definition isUpgrade :: "request \<Rightarrow> bool" where
  "isUpgrade r \<longleftrightarrow>
     equalFold (header_get (rq_header r) ''Upgrade'') ''websocket'' \<or>
     contains (toLower (header_get (rq_header r) ''Connection'')) ''upgrade''"

definition normalizeEncoding :: "string \<Rightarrow> string" where
  "normalizeEncoding ae0 =
     (let ae = toLower ae0 in
      if contains ae ''br'' then ''br, gzip''
      else if contains ae ''gzip'' then ''gzip''
      else [])"

section \<open>State\<close>

text \<open>A background revalidation that has been started and not yet finished.\<close>

record job =
  j_key :: string
  j_request :: request
  j_snap :: snapshot
  j_policy :: policy

record proxy =
  px_cache :: cache
  px_metrics :: metrics
  px_refreshing :: "string list"
  px_jobs :: "job list"

definition Proxy_New :: "cache \<Rightarrow> proxy" where
  "Proxy_New c = \<lparr>px_cache = c, px_metrics = zero_metrics, px_refreshing = [], px_jobs = []\<rparr>"

section \<open>Serving\<close>

definition serve_header :: "header \<Rightarrow> object \<Rightarrow> time \<Rightarrow> string \<Rightarrow> header" where
  "serve_header h obj now status =
     header_set
       (header_set (foldl (\<lambda>h (k, vs). AList.update k vs h) h (o_header obj))
          ''Age'' (itoa (duration_seconds (Object_Age obj now))))
       ''X-Hubcdn-Cache'' status"

definition serveCached ::
  "env \<Rightarrow> time \<Rightarrow> writer \<Rightarrow> request \<Rightarrow> object \<Rightarrow> string \<Rightarrow> proxy \<Rightarrow> proxy \<times> writer" where
  "serveCached e now w r obj status p =
     (let h = serve_header (w_header w) obj now status;
          w1 = w\<lparr>w_header := h\<rparr>
      in if notModified (e_parseTime e) r obj then
           (p\<lparr>px_metrics := (px_metrics p)\<lparr>m_NotModified := m_NotModified (px_metrics p) + 1\<rparr>\<rparr>,
            w_WriteHeader 304 w1)
         else
           let w2 = w_WriteHeader (o_status obj)
                 (w1\<lparr>w_header := header_set h ''Content-Length'' (itoa (int (length (o_body obj))))\<rparr>)
           in (p, if rq_method r \<noteq> ''HEAD'' then w_Write (o_body obj) w2 else w2))"

text \<open>\<open>revalidate\<close> until the goroutine starts: the request rebuilt for the background fetch.\<close>

definition background_request :: "request \<Rightarrow> snapshot \<Rightarrow> string \<Rightarrow> request" where
  "background_request r snap enc =
     r\<lparr>rq_host := sn_host snap, rq_tls := False,
       rq_header := [(''Accept-Encoding'', [enc]), (''User-Agent'', [header_get (rq_header r) ''User-Agent''])]\<rparr>"

definition revalidate :: "string \<Rightarrow> request \<Rightarrow> snapshot \<Rightarrow> string \<Rightarrow> proxy \<Rightarrow> proxy" where
  "revalidate key r snap enc p =
     (if key \<in> set (px_refreshing p) then p
      else p\<lparr>px_refreshing := key # px_refreshing p,
             px_jobs := \<lparr>j_key = key, j_request = background_request r snap enc, j_snap = snap,
                         j_policy = Settings_Policy (sn_settings snap)\<rparr> # px_jobs p\<rparr>)"

text \<open>The body of the goroutine: \<open>None\<close> when it panics on a snapshot without origin.\<close>

definition run_job :: "env \<Rightarrow> (nat \<Rightarrow> time) \<Rightarrow> job \<Rightarrow> proxy \<Rightarrow> proxy option" where
  "run_job e clk j p =
     (let r = new_recorder newDiscardWriter (rq_path (j_request j)) (j_policy j);
          p1 = p\<lparr>px_jobs := remove1 j (px_jobs p),
                 px_refreshing := filter (\<lambda>k. k \<noteq> j_key j) (px_refreshing p)\<rparr>
      in case forward e (clk 1) False (j_snap j) (j_request j) (Tee r) of
           (_, True) \<Rightarrow> None
         | (Tee r1, False) \<Rightarrow>
             (case rec_object (clk 2) r1 of
                None \<Rightarrow> Some p1
              | Some obj \<Rightarrow>
                  (case Cache_Set (px_cache p) (j_key j) obj of
                     None \<Rightarrow> None
                   | Some c \<Rightarrow> Some (p1\<lparr>px_cache := c\<rparr>)))
         | (Direct _, False) \<Rightarrow> Some p1)"

abbreviation bump :: "(metrics \<Rightarrow> metrics) \<Rightarrow> proxy \<Rightarrow> proxy" where
  "bump f p \<equiv> p\<lparr>px_metrics := f (px_metrics p)\<rparr>"

text \<open>The result of a handler: the state, the client's writer, and whether it panicked.\<close>

fun sink_writer :: "rwriter \<Rightarrow> writer" where
  "sink_writer (Direct (ClientWriter w)) = w"
| "sink_writer (Direct (DiscardWriter h)) = new_writer"
| "sink_writer (Tee r) = (case rec_sink r of ClientWriter w \<Rightarrow> w | DiscardWriter h \<Rightarrow> new_writer)"

definition Proxy_ServeHTTP ::
  "env \<Rightarrow> (nat \<Rightarrow> time) \<Rightarrow> writer \<Rightarrow> request \<Rightarrow> snapshot \<Rightarrow> proxy \<Rightarrow> proxy \<times> writer \<times> bool" where
  "Proxy_ServeHTTP e clk w r snap p0 =
     (let p = bump (\<lambda>m. m\<lparr>m_ProxyRequests := m_ProxyRequests m + 1\<rparr>) p0;
          direct = (\<lambda>p w. let (w', panic) = forward e (clk 1) True snap r (Direct (ClientWriter w))
                          in (p, sink_writer w', panic))
      in
      if isUpgrade r then
        if \<not> cfg_websocket (sn_settings snap) then
          (p, sink_writer (Direct
             (http_Error ''hubCDN: websockets disabled for this domain'' 403 (ClientWriter w))), False)
        else direct (bump (\<lambda>m. m\<lparr>m_WebSocketUpgrades := m_WebSocketUpgrades m + 1\<rparr>) p) w
      else
        let policy = Settings_Policy (sn_settings snap) in
        if \<not> CacheableRequest policy (rq_method r) (rq_header r) then
          direct (bump (\<lambda>m. m\<lparr>m_CacheBypass := m_CacheBypass m + 1\<rparr>) p)
            (w\<lparr>w_header := header_set (w_header w) ''X-Hubcdn-Cache'' ''BYPASS''\<rparr>)
        else
          let enc = normalizeEncoding (header_get (rq_header r) ''Accept-Encoding'');
              key = Key (e_sha e) (sn_host snap) (rq_method r) (RequestURI r) enc
          in case Cache_Get (px_cache p) key (clk 0) of
               None \<Rightarrow> (p, w, True)
             | Some (c, Some obj, Fresh) \<Rightarrow>
                 (let p1 = bump (\<lambda>m. m\<lparr>m_CacheHits := m_CacheHits m + 1\<rparr>) (p\<lparr>px_cache := c\<rparr>);
                      (p2, w2) = serveCached e (clk 1) w r obj ''HIT'' p1
                  in (p2, w2, False))
             | Some (c, Some obj, Stale) \<Rightarrow>
                 (let p1 = bump (\<lambda>m. m\<lparr>m_CacheStales := m_CacheStales m + 1\<rparr>) (p\<lparr>px_cache := c\<rparr>);
                      (p2, w2) = serveCached e (clk 1) w r obj ''STALE'' (revalidate key r snap enc p1)
                  in (p2, w2, False))
             | Some (c, _, _) \<Rightarrow>
                 (let p1 = bump (\<lambda>m. m\<lparr>m_CacheMisses := m_CacheMisses m + 1\<rparr>) (p\<lparr>px_cache := c\<rparr>);
                      w1 = w\<lparr>w_header := header_set (w_header w) ''X-Hubcdn-Cache'' ''MISS''\<rparr>;
                      r1 = r\<lparr>rq_header := header_set (rq_header r) ''Accept-Encoding'' enc\<rparr>;
                      rec = new_recorder (ClientWriter w1) (rq_path r) policy;
                      (w', panic) = forward e (clk 1) True snap r1 (Tee rec)
                  in if panic then (p1, sink_writer w', True)
                     else case w' of
                       Direct _ \<Rightarrow> (p1, sink_writer w', False)
                     | Tee rec' \<Rightarrow>
                         (case rec_object (clk 2) rec' of
                            None \<Rightarrow> (p1, sink_writer w', False)
                          | Some obj \<Rightarrow>
                              (case Cache_Set (px_cache p1) key obj of
                                 None \<Rightarrow> (p1, sink_writer w', True)
                               | Some c' \<Rightarrow> (p1\<lparr>px_cache := c'\<rparr>, sink_writer w', False)))))"

end
