(* ===== verification/ProxyInv.thy ===== *)
theory ProxyInv
  imports Proxy
begin

text \<open>
  Lemmas on the data plane: the tee is transparent, what it records may be stored, and every
  step of the proxy keeps the cache free of anything else and the background jobs single.
\<close>

section \<open>The tee is transparent\<close>

fun rw_sink :: "rwriter \<Rightarrow> sink" where
  "rw_sink (Direct s) = s"
| "rw_sink (Tee r) = rec_sink r"

lemma rw_sink_ops [simp]:
  "rw_Header w = sink_Header (rw_sink w)"
  "rw_sink (rw_setHeader h w) = sink_setHeader h (rw_sink w)"
  "rw_sink (rw_WriteHeader e now c w) = sink_WriteHeader c (rw_sink w)"
  "rw_sink (rw_Write e now b w) = sink_Write b (rw_sink w)"
  by (cases w; simp)+

interpretation tee_or_not: writer_layer sink_Header sink_setHeader sink_WriteHeader sink_Write
    rw_sink rw_setHeader "rw_WriteHeader e now" "rw_Write e now" for e now
  by unfold_locales simp_all

lemma rw_sink_writes [simp]: "rw_sink (fold (rw_Write e now) bs w) = fold sink_Write bs (rw_sink w)"
  by (rule tee_or_not.wrapped_stream)

lemma rw_sink_infos:
  "rw_sink w = rw_sink w' \<Longrightarrow>
     rw_sink (fold (forward_info e now) infos w) = rw_sink (fold (forward_info e now) infos w')"
  by (induction infos arbitrary: w w') (simp_all add: forward_info_def)

lemma reverse_proxy_sink:
  assumes "rw_sink w = rw_sink w'"
  shows "rw_sink (fst (reverse_proxy e now srv reply w)) =
      rw_sink (fst (reverse_proxy e now srv reply w')) \<and>
    snd (reverse_proxy e now srv reply w) = snd (reverse_proxy e now srv reply w')"
proof (cases reply)
  case (OriginReply infos status h chunks broken)
  from rw_sink_infos [OF assms, of e now infos] show ?thesis
    by (simp add: reverse_proxy_def OriginReply Let_def)
qed (simp add: reverse_proxy_def origin_unreachable_def assms)

section \<open>The shape of a response writer\<close>

lemma rw_ops_Tee [simp]:
  "fold (rw_Write e now) bs (Tee r) = Tee (fold (rec_Write (e_parseTime e) now) bs r)"
  by (induction bs arbitrary: r) simp_all

lemma infos_Tee: "\<exists>r'. fold (forward_info e now) infos (Tee r) = Tee r'"
  by (induction infos arbitrary: r) (simp_all add: forward_info_def)

lemma forward_Tee:
  obtains r' where "fst (forward e now srv snap q (Tee r)) = Tee r'"
proof (cases "Rewrite e snap q")
  case None
  then show thesis by (intro that [of r]) (simp add: forward_def)
next
  case (Some out)
  show thesis
  proof (cases "e_fetch e out")
    case (OriginError gone)
    show thesis
    proof (cases gone)
      case True
      then show thesis
        using Some OriginError by (intro that [of r]) (simp add: forward_def reverse_proxy_def origin_unreachable_def)
    next
      case False
      then show thesis
        using Some OriginError
        by (intro that) (simp add: forward_def reverse_proxy_def origin_unreachable_def)
    qed
  next
    case (OriginReply infos status h chunks broken)
    obtain r1 where "fold (forward_info e now) infos (Tee r) = Tee r1" using infos_Tee by blast
    then show thesis
      using Some OriginReply by (intro that) (simp add: forward_def reverse_proxy_def Let_def)
  qed
qed

section \<open>What may be stored\<close>

text \<open>
  An object the policy allows: it comes from a response header for which \<open>ResponseTTL\<close> granted
  its lifetime, it carries none of the hop-by-hop fields, and its body is within the limit.
\<close>

definition storable :: "env \<Rightarrow> object \<Rightarrow> bool" where
  "storable e obj \<longleftrightarrow> (\<exists>p path now h.
     ResponseTTL (e_parseTime e) now p path (o_status obj) h = (o_ttl obj, True) \<and>
     o_header obj = strip_hop h \<and> o_staleFor obj = p_staleFor p \<and>
     int (length (o_body obj)) \<le> max 0 (p_maxObjectBytes p))"

definition rec_ok :: "env \<Rightarrow> recorder \<Rightarrow> bool" where
  "rec_ok e r \<longleftrightarrow> rec_bounded r \<and> (rec_store r \<longrightarrow> rec_wroteHeader r \<and> (\<exists>now h.
     ResponseTTL (e_parseTime e) now (rec_policy r) (rec_reqPath r) (rec_status r) h = (rec_ttl r, True) \<and>
     rec_header r = strip_hop h))"

lemma rec_ok_new [simp]: "rec_ok e (new_recorder s path p)"
  by (simp add: rec_ok_def rec_bounded_ops(1)) (simp add: new_recorder_def)

lemma rec_ok_setHeader [simp]: "rec_ok e r \<Longrightarrow> rec_ok e (rec_setHeader h r)"
  by (auto simp: rec_ok_def rec_setHeader_def intro: rec_bounded_ops(2) [unfolded rec_setHeader_def])

lemma rec_ok_WriteHeader [simp]:
  assumes "rec_ok e r"
  shows "rec_ok e (rec_WriteHeader (e_parseTime e) now c r)"
proof -
  have "rec_bounded (rec_WriteHeader (e_parseTime e) now c r)"
    using assms by (intro rec_bounded_ops) (simp add: rec_ok_def)
  with assms show ?thesis
    by (auto simp: rec_ok_def rec_WriteHeader_def Let_def split: prod.split)
qed

lemma rec_ok_Write [simp]:
  assumes "rec_ok e r"
  shows "rec_ok e (rec_Write (e_parseTime e) now b r)"
proof -
  let ?r = "if \<not> rec_wroteHeader r then rec_WriteHeader (e_parseTime e) now 200 r else r"
  have ok: "rec_ok e ?r" using assms by simp
  have "rec_bounded (rec_Write (e_parseTime e) now b r)"
    using assms by (intro rec_bounded_ops) (simp add: rec_ok_def)
  with ok show ?thesis
    unfolding rec_Write_def Let_def by (auto simp: rec_ok_def split: if_splits)
qed

definition rw_ok :: "env \<Rightarrow> rwriter \<Rightarrow> bool" where
  "rw_ok e w = (case w of Tee r \<Rightarrow> rec_ok e r | Direct _ \<Rightarrow> True)"

lemma rw_ok_ops [simp]:
  "rw_ok e w \<Longrightarrow> rw_ok e (rw_setHeader h w)"
  "rw_ok e w \<Longrightarrow> rw_ok e (rw_WriteHeader e now c w)"
  "rw_ok e w \<Longrightarrow> rw_ok e (rw_Write e now b w)"
  by (cases w; simp add: rw_ok_def)+

lemma rw_ok_folds [simp]:
  "rw_ok e w \<Longrightarrow> rw_ok e (fold (rw_Write e now) bs w)"
  "rw_ok e w \<Longrightarrow> rw_ok e (fold (forward_info e now) infos w)"
  by (induction bs arbitrary: w, simp_all, induction infos arbitrary: w, simp_all add: forward_info_def)

lemma forward_ok: "rw_ok e w \<Longrightarrow> rw_ok e (fst (forward e now srv snap q w))"
  by (simp add: forward_def reverse_proxy_def origin_unreachable_def Let_def
      split: option.split origin_reply.split)

lemma forward_ok_Tee:
  assumes "rec_ok e r" and "forward e now srv snap q (Tee r) = (Tee r', boom)"
  shows "rec_ok e r'"
  using forward_ok [of e "Tee r" now srv snap q] assms by (simp add: rw_ok_def)

lemma rec_object_storable:
  assumes "rec_ok e r" and "rec_object now r = Some obj"
  shows "storable e obj"
proof -
  have store: "rec_store r" using assms(2) by (simp add: rec_object_def split: if_splits)
  with assms(1) obtain t h where
    "ResponseTTL (e_parseTime e) t (rec_policy r) (rec_reqPath r) (rec_status r) h = (rec_ttl r, True)"
    "rec_header r = strip_hop h"
    by (auto simp: rec_ok_def)
  then show ?thesis
    unfolding storable_def using assms store
    by (intro exI [of _ "rec_policy r"] exI [of _ "rec_reqPath r"] exI [of _ t] exI [of _ h])
      (auto simp: rec_object_def rec_ok_def rec_bounded_def)
qed

section \<open>Steps\<close>

inductive proxy_step :: "env \<Rightarrow> proxy \<Rightarrow> proxy \<Rightarrow> bool" for e :: env where
  serve: "Proxy_ServeHTTP e clk w r snap p = (p', w', panic) \<Longrightarrow> proxy_step e p p'"
| revalidated: "j \<in> set (px_jobs p) \<Longrightarrow> run_job e clk j p = Some p' \<Longrightarrow> proxy_step e p p'"

inductive_cases proxy_stepE: "proxy_step e p p'"

definition jobs_ok :: "proxy \<Rightarrow> bool" where
  "jobs_ok p \<longleftrightarrow> distinct (map j_key (px_jobs p)) \<and> distinct (px_refreshing p) \<and>
     set (px_refreshing p) = set (map j_key (px_jobs p))"

definition store_ok :: "env \<Rightarrow> proxy \<Rightarrow> bool" where
  "store_ok e p \<longleftrightarrow> cache_wf (px_cache p) \<and>
     (\<forall>k obj. peek (px_cache p) k = Some obj \<longrightarrow> storable e obj)"

lemma store_ok_Get:
  assumes "store_ok e p" and "Cache_Get (px_cache p) key now = Some (c, x, f)"
  shows "store_ok e (p\<lparr>px_cache := c\<rparr>)"
  using assms Get_wf [OF _ assms(2)] Get_peek(2) [OF _ assms(2)]
  by (auto simp: store_ok_def split: if_splits)

lemma store_ok_Set:
  assumes "store_ok e p" and "storable e obj" and "Cache_Set (px_cache p) key obj = Some c"
  shows "store_ok e (p\<lparr>px_cache := c\<rparr>)"
proof -
  have wf: "cache_wf (px_cache p)" using assms(1) by (simp add: store_ok_def)
  have "storable e x" if "peek c k = Some x" for k x
  proof (cases "cache_admits (px_cache p) obj")
    case True
    show ?thesis
      using that Set_peek [OF wf assms(3)] True assms(1,2)
      by (cases "k = key") (auto simp: store_ok_def, metis option.distinct(1))
  next
    case False
    then have "c = px_cache p"
      using obj_cache.set_rejects [OF wf False assms(3)] by simp
    then show ?thesis using that assms(1) by (simp add: store_ok_def)
  qed
  then show ?thesis using Set_wf [OF wf assms(3)] by (simp add: store_ok_def)
qed

lemma store_ok_cong: "px_cache p' = px_cache p \<Longrightarrow> store_ok e p \<Longrightarrow> store_ok e p'"
  by (simp add: store_ok_def)

lemma serveCached_frame [simp]:
  "px_cache (fst (serveCached e now w r obj st p)) = px_cache p"
  "px_jobs (fst (serveCached e now w r obj st p)) = px_jobs p"
  "px_refreshing (fst (serveCached e now w r obj st p)) = px_refreshing p"
  by (simp_all add: serveCached_def Let_def)

lemma revalidate_frame [simp]: "px_cache (revalidate key r snap enc p) = px_cache p"
  by (simp add: revalidate_def)

lemma jobs_ok_revalidate [inv_pres]: "jobs_ok p \<Longrightarrow> jobs_ok (revalidate key r snap enc p)"
  by (auto simp: jobs_ok_def revalidate_def)

lemma jobs_ok_cong:
  "px_jobs p' = px_jobs p \<Longrightarrow> px_refreshing p' = px_refreshing p \<Longrightarrow> jobs_ok p \<Longrightarrow> jobs_ok p'"
  by (simp add: jobs_ok_def)

section \<open>A request, by cases\<close>

definition request_key :: "env \<Rightarrow> request \<Rightarrow> snapshot \<Rightarrow> string" where
  "request_key e r snap =
     Key (e_sha e) (sn_host snap) (rq_method r) (RequestURI r)
       (normalizeEncoding (header_get (rq_header r) ''Accept-Encoding''))"

definition uses_cache :: "request \<Rightarrow> snapshot \<Rightarrow> bool" where
  "uses_cache r snap \<longleftrightarrow> \<not> isUpgrade r \<and>
     CacheableRequest (Settings_Policy (sn_settings snap)) (rq_method r) (rq_header r)"

lemma serve_bypass:
  assumes "Proxy_ServeHTTP e clk w r snap p = (p', w', panic)" and "\<not> uses_cache r snap"
  shows "px_cache p' = px_cache p \<and> px_jobs p' = px_jobs p \<and> px_refreshing p' = px_refreshing p"
proof (cases "isUpgrade r")
  case True
  with assms(1) show ?thesis
    by (auto simp: Proxy_ServeHTTP_def Let_def split: if_splits prod.splits)
next
  case False
  with assms show ?thesis
    by (auto simp: Proxy_ServeHTTP_def Let_def uses_cache_def split: prod.splits)
qed

text \<open>The miss path: the recorder it uses, and what it does with the finished recording.\<close>

definition miss_recorder :: "writer \<Rightarrow> request \<Rightarrow> snapshot \<Rightarrow> recorder" where
  "miss_recorder w r snap =
     new_recorder (ClientWriter (w\<lparr>w_header := header_set (w_header w) ''X-Hubcdn-Cache'' ''MISS''\<rparr>))
       (rq_path r) (Settings_Policy (sn_settings snap))"

definition miss_request :: "request \<Rightarrow> request" where
  "miss_request r = r\<lparr>rq_header := header_set (rq_header r) ''Accept-Encoding''
     (normalizeEncoding (header_get (rq_header r) ''Accept-Encoding''))\<rparr>"

lemma serve_miss:
  assumes "Proxy_ServeHTTP e clk w r snap p = (p', w', panic)" and "uses_cache r snap"
    and "Cache_Get (px_cache p) (request_key e r snap) (clk 0) = Some (c, None, f)"
    and "forward e (clk 1) True snap (miss_request r) (Tee (miss_recorder w r snap)) = (Tee rec', boom)"
  shows "px_jobs p' = px_jobs p" and "px_refreshing p' = px_refreshing p"
    and "w' = sink_writer (Tee rec')"
    and "boom \<Longrightarrow> panic \<and> px_cache p' = c"
    and "\<not> boom \<Longrightarrow> rec_object (clk 2) rec' = None \<Longrightarrow> \<not> panic \<and> px_cache p' = c"
    and "\<not> boom \<Longrightarrow> rec_object (clk 2) rec' = Some obj \<Longrightarrow> Cache_Set c (request_key e r snap) obj = Some c' \<Longrightarrow>
      \<not> panic \<and> px_cache p' = c'"
    and "\<not> boom \<Longrightarrow> rec_object (clk 2) rec' = Some obj \<Longrightarrow> Cache_Set c (request_key e r snap) obj = None \<Longrightarrow>
      panic \<and> px_cache p' = c"
proof -
  have "(p', w', panic) = (let p1 = p\<lparr>px_cache := c, px_metrics := (px_metrics p)
          \<lparr>m_ProxyRequests := m_ProxyRequests (px_metrics p) + 1,
           m_CacheMisses := m_CacheMisses (px_metrics p) + 1\<rparr>\<rparr> in
      if boom then (p1, sink_writer (Tee rec'), True)
      else case rec_object (clk 2) rec' of
        None \<Rightarrow> (p1, sink_writer (Tee rec'), False)
      | Some obj \<Rightarrow>
          (case Cache_Set c (request_key e r snap) obj of
             None \<Rightarrow> (p1, sink_writer (Tee rec'), True)
           | Some c' \<Rightarrow> (p1\<lparr>px_cache := c'\<rparr>, sink_writer (Tee rec'), False)))"
    using assms
    by (cases boom; cases "rec_object (clk 2) rec'")
      (simp_all add: Proxy_ServeHTTP_def Let_def uses_cache_def request_key_def miss_recorder_def
        miss_request_def del: sink_writer.simps)
  note eq = this [unfolded Let_def]
  show "px_jobs p' = px_jobs p" "px_refreshing p' = px_refreshing p" "w' = sink_writer (Tee rec')"
    using eq by (auto split: if_splits option.splits simp del: sink_writer.simps)
  show "boom \<Longrightarrow> panic \<and> px_cache p' = c"
    using eq by (simp del: sink_writer.simps)
  show "\<not> boom \<Longrightarrow> rec_object (clk 2) rec' = None \<Longrightarrow> \<not> panic \<and> px_cache p' = c"
    using eq by (simp del: sink_writer.simps)
  show "\<not> boom \<Longrightarrow> rec_object (clk 2) rec' = Some obj \<Longrightarrow> Cache_Set c (request_key e r snap) obj = Some c' \<Longrightarrow>
      \<not> panic \<and> px_cache p' = c'"
    using eq by (simp del: sink_writer.simps)
  show "\<not> boom \<Longrightarrow> rec_object (clk 2) rec' = Some obj \<Longrightarrow> Cache_Set c (request_key e r snap) obj = None \<Longrightarrow>
      panic \<and> px_cache p' = c"
    using eq by (simp del: sink_writer.simps)
qed

lemma serve_fresh:
  assumes "uses_cache r snap"
    and "Cache_Get (px_cache p) (request_key e r snap) (clk 0) = Some (c, Some obj, Fresh)"
  shows "Proxy_ServeHTTP e clk w r snap p =
    (let (p2, w2) = serveCached e (clk 1) w r obj ''HIT''
       (p\<lparr>px_cache := c, px_metrics := (px_metrics p)\<lparr>m_ProxyRequests := m_ProxyRequests (px_metrics p) + 1,
          m_CacheHits := m_CacheHits (px_metrics p) + 1\<rparr>\<rparr>)
     in (p2, w2, False))"
  using assms by (simp add: Proxy_ServeHTTP_def Let_def uses_cache_def request_key_def)

lemma serve_stale:
  assumes "uses_cache r snap"
    and "Cache_Get (px_cache p) (request_key e r snap) (clk 0) = Some (c, Some obj, Stale)"
  shows "Proxy_ServeHTTP e clk w r snap p =
    (let (p2, w2) = serveCached e (clk 1) w r obj ''STALE''
       (revalidate (request_key e r snap) r snap
          (normalizeEncoding (header_get (rq_header r) ''Accept-Encoding''))
          (p\<lparr>px_cache := c, px_metrics := (px_metrics p)\<lparr>m_ProxyRequests := m_ProxyRequests (px_metrics p) + 1,
             m_CacheStales := m_CacheStales (px_metrics p) + 1\<rparr>\<rparr>))
     in (p2, w2, False))"
  using assms by (simp add: Proxy_ServeHTTP_def Let_def uses_cache_def request_key_def)

lemma Cache_Get_shape:
  assumes "cache_wf c" and "Cache_Get c key now = Some (c', x, f)"
  obtains "x = None" "f = Miss" | obj where "x = Some obj" "f = Fresh" | obj where "x = Some obj" "f = Stale"
  using Get_peek(1) [OF assms] by (auto simp: lookup_result_def split: option.splits if_splits)

text \<open>A miss stores what the recorder accepted, or nothing.\<close>

lemma serve_miss_step:
  assumes serve: "Proxy_ServeHTTP e clk w r snap p = (p', w', panic)" and use: "uses_cache r snap"
    and get: "Cache_Get (px_cache p) (request_key e r snap) (clk 0) = Some (c, None, f)"
    and ok: "store_ok e (p\<lparr>px_cache := c\<rparr>)" and "jobs_ok p"
  shows "store_ok e p' \<and> jobs_ok p'"
proof -
  obtain rec' where "fst (forward e (clk 1) True snap (miss_request r) (Tee (miss_recorder w r snap))) = Tee rec'"
    by (rule forward_Tee)
  then obtain boom where fw:
    "forward e (clk 1) True snap (miss_request r) (Tee (miss_recorder w r snap)) = (Tee rec', boom)"
    by (metis prod.collapse)
  have rec: "rec_ok e rec'"
    using forward_ok_Tee [OF _ fw] by (simp add: miss_recorder_def)
  note miss = serve_miss [OF serve use get fw]
  have jobs: "jobs_ok p'" using miss(1,2) assms(5) by (rule jobs_ok_cong)
  consider "px_cache p' = c" | obj where "rec_object (clk 2) rec' = Some obj"
      "Cache_Set c (request_key e r snap) obj = Some (px_cache p')"
    using miss(4-7) by (metis option.exhaust)
  then show ?thesis
  proof cases
    case 1
    with ok jobs show ?thesis by (simp add: store_ok_def)
  next
    case 2
    from store_ok_Set [OF ok rec_object_storable [OF rec 2(1)], of "request_key e r snap" "px_cache p'"] 2(2)
    have "store_ok e (p\<lparr>px_cache := px_cache p'\<rparr>)" by simp
    with jobs show ?thesis by (simp add: store_ok_def)
  qed
qed

lemma serve_step:
  assumes "Proxy_ServeHTTP e clk w r snap p = (p', w', panic)" and "store_ok e p" and "jobs_ok p"
  shows "store_ok e p' \<and> jobs_ok p'"
proof (cases "uses_cache r snap")
  case False
  with serve_bypass [OF assms(1)] assms(2,3) show ?thesis
    by (auto intro: store_ok_cong jobs_ok_cong)
next
  case use: True
  have wf: "cache_wf (px_cache p)" using assms(2) by (simp add: store_ok_def)
  show ?thesis
  proof (cases "Cache_Get (px_cache p) (request_key e r snap) (clk 0)")
    case None
    with use assms show ?thesis
      by (auto simp: Proxy_ServeHTTP_def Let_def uses_cache_def request_key_def store_ok_def jobs_ok_def)
  next
    case (Some cxf)
    obtain c x f where get: "Cache_Get (px_cache p) (request_key e r snap) (clk 0) = Some (c, x, f)"
      using Some by (cases cxf) auto
    note ok = store_ok_Get [OF assms(2) get]
    show ?thesis
    proof (cases rule: Cache_Get_shape [OF wf get])
      case 1
      with serve_miss_step [OF assms(1) use _ ok assms(3)] get show ?thesis by simp
    next
      case (2 obj)
      note hit = serve_fresh [where clk = clk and w = w, OF use get [unfolded 2]]
      from hit assms(1) have "px_cache p' = c" "px_jobs p' = px_jobs p" "px_refreshing p' = px_refreshing p"
        using serveCached_frame
        by (auto simp: Let_def case_prod_unfold)
      with ok assms(3) show ?thesis by (simp add: store_ok_def jobs_ok_def)
    next
      case (3 obj)
      note hit = serve_stale [where clk = clk and w = w, OF use get [unfolded 3]]
      let ?q = "revalidate (request_key e r snap) r snap
          (normalizeEncoding (header_get (rq_header r) ''Accept-Encoding''))
          (p\<lparr>px_cache := c, px_metrics := (px_metrics p)\<lparr>m_ProxyRequests := m_ProxyRequests (px_metrics p) + 1,
             m_CacheStales := m_CacheStales (px_metrics p) + 1\<rparr>\<rparr>)"
      from hit assms(1) have "px_cache p' = px_cache ?q" "px_jobs p' = px_jobs ?q"
          "px_refreshing p' = px_refreshing ?q"
        using serveCached_frame by (auto simp: Let_def case_prod_unfold)
      moreover have "jobs_ok ?q"
        using assms(3) by (intro jobs_ok_revalidate) (simp add: jobs_ok_def)
      ultimately show ?thesis using ok by (simp add: store_ok_def jobs_ok_def)
    qed
  qed
qed

lemma job_step:
  assumes "run_job e clk j p = Some p'" and "j \<in> set (px_jobs p)" and "store_ok e p" and "jobs_ok p"
  shows "store_ok e p' \<and> jobs_ok p'"
proof -
  let ?p1 = "p\<lparr>px_jobs := remove1 j (px_jobs p),
    px_refreshing := filter (\<lambda>k. k \<noteq> j_key j) (px_refreshing p)\<rparr>"
  let ?r = "new_recorder newDiscardWriter (rq_path (j_request j)) (j_policy j)"
  obtain rec' where "fst (forward e (clk 1) False (j_snap j) (j_request j) (Tee ?r)) = Tee rec'"
    by (rule forward_Tee)
  then obtain boom where fw: "forward e (clk 1) False (j_snap j) (j_request j) (Tee ?r) = (Tee rec', boom)"
    by (metis prod.collapse)
  have rec: "rec_ok e rec'"
    using forward_ok_Tee [OF _ fw] by simp
  have "distinct (map j_key (remove1 j (px_jobs p)))"
    using assms(4) by (simp add: jobs_ok_def distinct_map_remove1)
  moreover have "set (map j_key (remove1 j (px_jobs p))) = set (px_refreshing p) - {j_key j}"
    using assms(2,4) by (auto simp: jobs_ok_def distinct_map inj_on_def set_remove1_eq)
  ultimately have jobs: "jobs_ok ?p1" using assms(4) by (auto simp: jobs_ok_def)
  from assms(1) fw have "\<not> boom" and
    res: "Some p' = (case rec_object (clk 2) rec' of None \<Rightarrow> Some ?p1
      | Some obj \<Rightarrow> (case Cache_Set (px_cache p) (j_key j) obj of None \<Rightarrow> None
          | Some c \<Rightarrow> Some (?p1\<lparr>px_cache := c\<rparr>)))"
    by (auto simp: run_job_def Let_def split: if_splits bool.splits)
  show ?thesis
  proof (cases "rec_object (clk 2) rec'")
    case None
    with res have "p' = ?p1" by simp
    with jobs assms(3) show ?thesis by (auto intro: store_ok_cong)
  next
    case (Some obj)
    with res obtain c where c: "Cache_Set (px_cache p) (j_key j) obj = Some c" "p' = ?p1\<lparr>px_cache := c\<rparr>"
      by (auto split: option.splits)
    from store_ok_Set [OF assms(3) rec_object_storable [OF rec Some] c(1)]
    have "store_ok e p'" by (auto simp: c(2) store_ok_def)
    moreover have "jobs_ok p'" using jobs by (simp add: c(2) jobs_ok_def)
    ultimately show ?thesis by simp
  qed
qed

interpretation data_plane: step_invariant "proxy_step e" "\<lambda>p. store_ok e p \<and> jobs_ok p" for e
proof unfold_locales
  fix p p'
  assume "proxy_step e p p'" and "store_ok e p \<and> jobs_ok p"
  then show "store_ok e p' \<and> jobs_ok p'"
    using serve_step job_step by (cases rule: proxy_step.cases) blast+
qed

end
