(* ===== verification/ProxyProps.thy ===== *)
theory ProxyProps
  imports ProxyInv
begin

text \<open>The properties of the caching proxy: the tee is invisible, the cache holds only what may be
  stored, revalidation is single-flight, a stored response is replayed, and two ways in which
  recording goes wrong.\<close>

text \<open>
  C14. Recording is invisible to the client: whatever the origin answers (informational
  responses, errors and broken bodies included), forwarding through the recorder makes exactly
  the calls on the client's writer that forwarding without it makes, and panics alike.
\<close>

theorem tee_transparent:
  "(case forward e now srv snap r (Tee rec) of (w, panic) \<Rightarrow> (rw_sink w, panic)) =
   (case forward e now srv snap r (Direct (rec_sink rec)) of (w, panic) \<Rightarrow> (rw_sink w, panic))"
proof (cases "Rewrite e snap r")
  case (Some out)
  then show ?thesis
    using reverse_proxy_sink [of "Tee rec" "Direct (rec_sink rec)" e now srv "e_fetch e out"]
    by (simp add: forward_def case_prod_unfold)
qed (simp add: forward_def)

section \<open>What the cache holds\<close>

lemma Proxy_New_ok: "store_ok e (Proxy_New (Cache_New b)) \<and> jobs_ok (Proxy_New (Cache_New b))"
  by (simp add: store_ok_def jobs_ok_def Proxy_New_def cache_wf_New peek_def)
    (simp add: Cache_New_def empty_shard_def split: option.split)


text \<open>
  C16. Revalidation is single-flight: in every reachable state the background jobs have pairwise
  different keys and the set \<open>refreshing\<close> is exactly their keys, so another stale hit of a key
  whose refresh is in flight starts none.
\<close>

theorem revalidation_single_flight:
  assumes "(proxy_step e)\<^sup>*\<^sup>* (Proxy_New (Cache_New b)) p"
  shows "distinct (map j_key (px_jobs p)) \<and> set (px_refreshing p) = set (map j_key (px_jobs p)) \<and>
    length (px_refreshing p) = length (px_jobs p) \<and>
    (\<forall>j \<in> set (px_jobs p). revalidate (j_key j) r snap enc p = p)"
proof -
  have ok: "jobs_ok p" using data_plane.steps_inv [OF assms Proxy_New_ok] by blast
  then have "length (px_refreshing p) = length (map j_key (px_jobs p))"
    unfolding jobs_ok_def using distinct_card by metis
  with ok show ?thesis by (auto simp: jobs_ok_def revalidate_def)
qed

section \<open>Recording a response\<close>

lemma forward_reply:
  assumes "Rewrite e snap q = Some out" and "e_fetch e out = OriginReply [] status h chunks broken"
  shows "forward e now srv snap q (Tee r) =
    (Tee (fold (rec_Write (e_parseTime e) now) chunks
       (rec_WriteHeader (e_parseTime e) now status
          (rec_setHeader (copyHeader (sink_Header (rec_sink r)) h) r))), broken \<and> srv)"
  using assms by (simp add: forward_def reverse_proxy_def Let_def)

lemma recorded_object:
  assumes "ResponseTTL parseTime now pol path status (copyHeader (sink_Header s) h) = (ttl, True)"
    and "int (length (concat chunks)) \<le> p_maxObjectBytes pol"
  shows "rec_object t (fold (rec_Write parseTime now) chunks
      (rec_WriteHeader parseTime now status
        (rec_setHeader (copyHeader (sink_Header s) h) (new_recorder s path pol)))) =
    Some \<lparr>o_status = status, o_header = strip_hop (copyHeader (sink_Header s) h),
      o_body = concat chunks, o_storedAt = t, o_ttl = ttl, o_staleFor = p_staleFor pol\<rparr>"
proof -
  let ?r = "rec_WriteHeader parseTime now status
      (rec_setHeader (copyHeader (sink_Header s) h) (new_recorder s path pol))"
  have r: "rec_wroteHeader ?r" "rec_store ?r" "rec_status ?r = status" "rec_ttl ?r = ttl"
      "rec_header ?r = strip_hop (copyHeader (sink_Header s) h)" "rec_body ?r = []"
      "rec_policy ?r = pol"
    using assms(1) by (simp_all add: rec_WriteHeader_def rec_setHeader_def new_recorder_def Let_def)
  have "0 \<le> p_maxObjectBytes pol" using assms(2) by linarith
  with rec_writes_store [OF r(1,2), of parseTime now chunks] r(6,7) assms(2)
  have "rec_store (fold (rec_Write parseTime now) chunks ?r)"
    "rec_body (fold (rec_Write parseTime now) chunks ?r) = concat chunks" by simp_all
  with rec_writes [OF r(1), of parseTime now chunks] r show ?thesis
    by (simp add: rec_object_def)
qed

lemma ResponseTTL_status:
  "ResponseTTL parseTime now pol path status h = (ttl, True) \<Longrightarrow> 200 \<le> status \<and> 0 < ttl"
  using capTTL_pos [of "origin_ttl parseTime now h"]
  by (auto simp: ResponseTTL_eq forbidden_def cacheableStatus_def split: if_splits)

text \<open>
  A truncated refresh replaces a good copy: when the origin's body breaks off during a
  background revalidation, \<open>ReverseProxy\<close> only logs it, and the part received so far is stored
  as the complete object, fresh for its full TTL.
\<close>

theorem truncated_refresh_is_stored:
  assumes "Rewrite e (j_snap j) (j_request j) = Some out"
    and "e_fetch e out = OriginReply [] status h chunks True"
    and "ResponseTTL (e_parseTime e) (clk 1) (j_policy j) (rq_path (j_request j)) status
           (copyHeader [] h) = (ttl, True)"
    and "int (length (concat chunks)) \<le> p_maxObjectBytes (j_policy j)"
    and "obj = \<lparr>o_status = status, o_header = strip_hop (copyHeader [] h), o_body = concat chunks,
      o_storedAt = clk 2, o_ttl = ttl, o_staleFor = p_staleFor (j_policy j)\<rparr>"
    and "cache_wf (px_cache p)" and "cache_valid_key (j_key j)" and "cache_admits (px_cache p) obj"
  shows "\<exists>p'. run_job e clk j p = Some p' \<and> peek (px_cache p') (j_key j) = Some obj"
proof -
  obtain c where c: "Cache_Set (px_cache p) (j_key j) obj = Some c"
    using obj_cache.set_total [OF assms(6,7), of obj] by auto
  have "peek c (j_key j) = Some obj" using Set_peek(1) [OF assms(6) c assms(8)] .
  moreover have "px_cache (p\<lparr>px_jobs := remove1 j (px_jobs p),
      px_refreshing := filter (\<lambda>k. k \<noteq> j_key j) (px_refreshing p), px_cache := c\<rparr>) = c" by simp
  moreover have "run_job e clk j p = Some (p\<lparr>px_jobs := remove1 j (px_jobs p),
      px_refreshing := filter (\<lambda>k. k \<noteq> j_key j) (px_refreshing p), px_cache := c\<rparr>)"
    using recorded_object [where s = newDiscardWriter and t = "clk 2", OF _ assms(4), of "e_parseTime e" "clk 1"
        "rq_path (j_request j)" status h ttl] assms(3,5) c
    by (simp add: run_job_def Let_def forward_reply [OF assms(1,2)] newDiscardWriter_def new_recorder_def)
  ultimately show ?thesis by metis
qed


section \<open>A miss and then a hit\<close>

lemma copyHeader_other:
  "k \<notin> fst ` set h \<Longrightarrow> header_get (copyHeader own h) k = header_get own k"
proof (induction h arbitrary: own)
  case (Cons kv h)
  then show ?case
    by (cases kv) (simp add: copyHeader_def header_get_def update_conv')
qed (simp add: copyHeader_def)

lemma fold_sink_Write:
  "w_wrote w \<Longrightarrow> fold sink_Write bs (ClientWriter w) = ClientWriter (w\<lparr>w_body := w_body w @ concat bs\<rparr>)"
  by (induction bs arbitrary: w) (simp_all add: w_Write_def Let_def)

text \<open>What a client that gets a stored object receives.\<close>

lemma hit_reply:
  assumes "cache_wf (px_cache p)" and "cache_valid_key key" and "key = request_key e r snap"
    and "uses_cache r snap" and "peek (px_cache p) key = Some obj"
    and "\<not> Object_evictable obj (clk 0)" and "\<not> Object_Expired obj (clk 0)"
    and "\<not> notModified (e_parseTime e) r obj" and "200 \<le> o_status obj"
  shows "\<exists>p' w'. Proxy_ServeHTTP e clk new_writer r snap p = (p', w', False) \<and>
    w_status w' = o_status obj \<and>
    w_body w' = (if rq_method r \<noteq> ''HEAD'' then o_body obj else []) \<and>
    header_get (w_sent w') ''X-Hubcdn-Cache'' = ''HIT'' \<and>
    header_get (w_sent w') ''Content-Length'' = itoa (int (length (o_body obj))) \<and>
    m_CacheHits (px_metrics p') = m_CacheHits (px_metrics p) + 1 \<and>
    m_ProxyRequests (px_metrics p') = m_ProxyRequests (px_metrics p) + 1"
proof -
  obtain c x f where get: "Cache_Get (px_cache p) key (clk 0) = Some (c, x, f)"
    using obj_cache.get_total [OF assms(1,2), of "clk 0"] by (cases "Cache_Get (px_cache p) key (clk 0)") auto
  have "(x, f) = (Some obj, Fresh)"
    using Get_peek(1) [OF assms(1) get] assms(5-7) by (simp add: lookup_result_simps)
  with get have "Cache_Get (px_cache p) (request_key e r snap) (clk 0) = Some (c, Some obj, Fresh)"
    by (simp add: assms(3))
  note serve = serve_fresh [where w = new_writer and clk = clk, OF assms(4) this]
  show ?thesis
    unfolding serve using assms(8,9)
    by (auto simp: serveCached_def Let_def w_WriteHeader_def w_Write_def new_writer_def serve_header_def)
qed


text \<open>What the first client receives, and what is stored for the next.\<close>

definition miss_header :: "header \<Rightarrow> header" where
  "miss_header h = copyHeader [(''X-Hubcdn-Cache'', [''MISS''])] h"

lemma miss_stream:
  assumes "200 \<le> status"
  shows "rec_sink (fold (rec_Write parseTime now) chunks (rec_WriteHeader parseTime now status
      (rec_setHeader (miss_header h) (new_recorder (ClientWriter (new_writer\<lparr>w_header := own\<rparr>)) path pol)))) =
    ClientWriter (new_writer\<lparr>w_header := miss_header h, w_wrote := True,
      w_status := status, w_sent := miss_header h, w_body := concat chunks\<rparr>)"
  using assms
  by (simp add: tee.wrapped_response new_recorder_def w_WriteHeader_def new_writer_def)
    (simp add: fold_sink_Write)

lemma miss_reply:
  assumes "cache_wf (px_cache p)" and "cache_valid_key key" and "key = request_key e r snap"
    and "uses_cache r snap" and "peek (px_cache p) key = None"
    and "Rewrite e snap (miss_request r) = Some out"
    and "e_fetch e out = OriginReply [] status h chunks False"
    and "ResponseTTL (e_parseTime e) (clk 1) (Settings_Policy (sn_settings snap)) (rq_path r) status
           (miss_header h) = (ttl, True)"
    and "int (length (concat chunks)) \<le> p_maxObjectBytes (Settings_Policy (sn_settings snap))"
    and "obj = \<lparr>o_status = status, o_header = strip_hop (miss_header h), o_body = concat chunks,
      o_storedAt = clk 2, o_ttl = ttl, o_staleFor = p_staleFor (Settings_Policy (sn_settings snap))\<rparr>"
    and "cache_admits (px_cache p) obj"
  shows "\<exists>p' w'. Proxy_ServeHTTP e clk new_writer r snap p = (p', w', False) \<and>
    w_status w' = status \<and> w_body w' = concat chunks \<and> w_sent w' = miss_header h \<and>
    peek (px_cache p') key = Some obj \<and> cache_wf (px_cache p') \<and>
    px_jobs p' = px_jobs p \<and> px_refreshing p' = px_refreshing p"
proof -
  let ?pol = "Settings_Policy (sn_settings snap)"
  let ?own = "[(''X-Hubcdn-Cache'', [''MISS''])]"
  let ?s = "ClientWriter (new_writer\<lparr>w_header := ?own\<rparr>)"
  obtain c x f where get: "Cache_Get (px_cache p) key (clk 0) = Some (c, x, f)"
    using obj_cache.get_total [OF assms(1,2), of "clk 0"] by (cases "Cache_Get (px_cache p) key (clk 0)") auto
  have xf: "(x, f) = (None, Miss)"
    using Get_peek(1) [OF assms(1) get] assms(5) by (simp add: lookup_result_simps)
  have wf: "cache_wf c" and adm: "cache_admits c obj"
    using Get_wf [OF assms(1) get] Get_peek(3) [OF assms(1) get] assms(11)
    by (simp_all add: cache_admits_def)
  obtain c' where c': "Cache_Set c key obj = Some c'"
    using obj_cache.set_total [OF wf assms(2), of obj] by auto
  have rec: "miss_recorder new_writer r snap = new_recorder ?s (rq_path r) ?pol"
    by (simp add: miss_recorder_def new_writer_def header_set_def)
  let ?w = "rec_WriteHeader (e_parseTime e) (clk 1) status (rec_setHeader (miss_header h) (new_recorder ?s (rq_path r) ?pol))"
  let ?rec = "fold (rec_Write (e_parseTime e) (clk 1)) chunks ?w"
  have own: "sink_Header ?s = ?own" "sink_Header (rec_sink (new_recorder ?s (rq_path r) ?pol)) = ?own"
    by (simp_all add: new_recorder_def)
  have fw: "forward e (clk 1) True snap (miss_request r) (Tee (miss_recorder new_writer r snap)) = (Tee ?rec, False)"
    unfolding rec forward_reply [OF assms(6,7)] own miss_header_def by simp
  have obj: "rec_object (clk 2) ?rec = Some obj"
    using recorded_object [where s = ?s and t = "clk 2", OF _ assms(9), of "e_parseTime e" "clk 1" "rq_path r" status h ttl]
      assms(8,10) unfolding own miss_header_def by simp
  obtain p' w' panic where serve: "Proxy_ServeHTTP e clk new_writer r snap p = (p', w', panic)"
    by (cases "Proxy_ServeHTTP e clk new_writer r snap p") auto
  note miss = serve_miss [OF serve assms(4) _ fw, of c f]
  have get': "Cache_Get (px_cache p) (request_key e r snap) (clk 0) = Some (c, None, f)"
    using get xf assms(3) by simp
  have px: "\<not> panic" "px_cache p' = c'"
    using miss(6) [OF get' _ obj] c' assms(3) by auto
  note sent = miss_stream [OF ResponseTTL_status [OF assms(8), THEN conjunct1]]
  have "w_status w' = status" "w_body w' = concat chunks" "w_sent w' = miss_header h"
    using miss(3) [OF get'] sent by simp_all
  moreover have "peek c' key = Some obj" using Set_peek(1) [OF wf c' adm] .
  moreover have "cache_wf c'" using Set_wf [OF wf c'] .
  ultimately show ?thesis
    using serve px miss(1,2) [OF get'] by (intro exI [of _ p'] exI [of _ w']) simp
qed


text \<open>
  C9. A miss is answered from the origin and the next request for the same key from memory: the
  first client gets the origin's status, header and body while they are recorded, and as long as
  the object is fresh any later client that asks without a matching validator gets the same
  status and body, whatever the origin would answer by then. The hit is counted among
  \<open>ProxyRequests\<close> although nothing was forwarded.
\<close>

theorem miss_then_hit:
  assumes "uses_cache r snap" and "cache_wf (px_cache p)" and "cache_valid_key (request_key e r snap)"
    and "peek (px_cache p) (request_key e r snap) = None"
    and "Rewrite e snap (miss_request r) = Some out"
    and "e_fetch e out = OriginReply [] status h chunks False"
    and "ResponseTTL (e_parseTime e) (clk 1) (Settings_Policy (sn_settings snap)) (rq_path r) status
           (miss_header h) = (ttl, True)"
    and "int (length (concat chunks)) \<le> p_maxObjectBytes (Settings_Policy (sn_settings snap))"
    and "obj = \<lparr>o_status = status, o_header = strip_hop (miss_header h), o_body = concat chunks,
      o_storedAt = clk 2, o_ttl = ttl, o_staleFor = p_staleFor (Settings_Policy (sn_settings snap))\<rparr>"
    and "cache_admits (px_cache p) obj"
    and "uses_cache r2 snap2" and "request_key e2 r2 snap2 = request_key e r snap"
    and "\<not> Object_evictable obj (clk2 0)" and "\<not> Object_Expired obj (clk2 0)"
    and "\<not> notModified (e_parseTime e2) r2 obj"
  shows "\<exists>p1 w1 p2 w2.
    Proxy_ServeHTTP e clk new_writer r snap p = (p1, w1, False) \<and>
    w_status w1 = status \<and> w_sent w1 = miss_header h \<and> w_body w1 = concat chunks \<and>
    Proxy_ServeHTTP e2 clk2 new_writer r2 snap2 p1 = (p2, w2, False) \<and>
    w_status w2 = status \<and> w_body w2 = (if rq_method r2 \<noteq> ''HEAD'' then concat chunks else []) \<and>
    header_get (w_sent w2) ''X-Hubcdn-Cache'' = ''HIT'' \<and>
    header_get (w_sent w2) ''Content-Length'' = itoa (int (length (concat chunks))) \<and>
    m_CacheHits (px_metrics p2) = m_CacheHits (px_metrics p1) + 1 \<and>
    m_ProxyRequests (px_metrics p2) = m_ProxyRequests (px_metrics p1) + 1"
proof -
  obtain p1 w1 where 1: "Proxy_ServeHTTP e clk new_writer r snap p = (p1, w1, False)"
      "w_status w1 = status" "w_body w1 = concat chunks" "w_sent w1 = miss_header h"
      "peek (px_cache p1) (request_key e r snap) = Some obj" "cache_wf (px_cache p1)"
    using miss_reply [where clk = clk, OF assms(2,3) refl assms(1,4-10)] by blast
  have "200 \<le> o_status obj" using ResponseTTL_status [OF assms(7)] by (simp add: assms(9))
  from hit_reply [where clk = clk2, OF 1(6) assms(3) assms(12) [symmetric] assms(11) 1(5) assms(13-15) this] 1
  show ?thesis by (auto simp: assms(9))
qed

text \<open>A setting for the witnesses: an origin that answers every request alike.\<close>

definition sample_snap :: snapshot where
  "sample_snap =
     \<lparr>sn_host = ''a.com'', sn_apex = ''a.com'', sn_status = StatusActive,
      sn_origin = Some \<lparr>u_scheme = ''https'', u_user = None, u_host = ''o.example.org'', u_path = [],
        u_rawQuery = [], u_fragment = []\<rparr>,
      sn_originStr = ''https://o.example.org'', sn_settings = DefaultSettings 1000, sn_configText = [],
      sn_firstSeen = 0, sn_lastRefreshed = 0, sn_lastError = []\<rparr>"

definition sample_request :: "string \<Rightarrow> request" where
  "sample_request m =
     \<lparr>rq_method = m, rq_host = ''a.com'', rq_path = ''/'', rq_rawPath = [], rq_escaped = ''/'',
      rq_rawQuery = [], rq_header = [], rq_remoteAddr = [], rq_tls = True\<rparr>"

definition sample_env :: "origin_reply \<Rightarrow> env" where
  "sample_env reply =
     \<lparr>e_sha = (\<lambda>s. CHR ''k'' # s), e_parseTime = (\<lambda>_. None), e_outHeader = rq_header, e_fetch = (\<lambda>_. reply)\<rparr>"

definition sample_proxy :: proxy where
  "sample_proxy = Proxy_New (Cache_New 1000000)"

lemma sample_proxy_simps [simp]:
  "cache_wf (px_cache sample_proxy)" "peek (px_cache sample_proxy) k = None"
  "cache_admits (px_cache sample_proxy) obj \<longleftrightarrow> Object_size obj \<le> 1000000"
  by (simp_all add: sample_proxy_def Proxy_New_def cache_wf_New cache_admits_def)
    (simp_all add: Cache_New_def peek_def empty_shard_def split: option.split)

lemma sample_uses_cache [simp]:
  "uses_cache (sample_request ''GET'') sample_snap" "uses_cache (sample_request ''HEAD'') sample_snap"
  by code_simp+

lemma sample_key_ok [simp]: "cache_valid_key (request_key (sample_env reply) r snap)"
  unfolding request_key_def by (rule cache_valid_key_Key) (simp add: sample_env_def)

lemma sample_Rewrite [simp]: "\<exists>out. Rewrite (sample_env reply) sample_snap r = Some out"
  by (simp add: Rewrite_def sample_snap_def Let_def)

lemma sample_fetch [simp]: "e_fetch (sample_env reply) out = reply" "e_parseTime (sample_env reply) = (\<lambda>_. None)"
  by (simp_all add: sample_env_def)

lemma sample_key_env:
  "request_key (sample_env reply) r snap = request_key (sample_env (OriginError True)) r snap"
  by (simp add: request_key_def sample_env_def)

definition sample_policy :: policy where
  "sample_policy = Settings_Policy (sn_settings sample_snap)"

lemma sample_ttl:
  "ResponseTTL (\<lambda>_. None) (int n) sample_policy ''/'' 200
     (miss_header [(''Cache-Control'', [''max-age=60''])]) = (60000000000, True)"
  by code_simp


lemma sample_limits:
  "p_maxObjectBytes sample_policy = 1000" "p_staleFor sample_policy = 600000000000"
  by code_simp+

definition sample_object :: "bytes \<Rightarrow> time \<Rightarrow> object" where
  "sample_object body t =
     \<lparr>o_status = 200, o_header = strip_hop (miss_header [(''Cache-Control'', [''max-age=60''])]),
      o_body = body, o_storedAt = t, o_ttl = 60000000000, o_staleFor = 600000000000\<rparr>"

lemma sample_object_simps:
  "Object_size (sample_object ''hello'' t) = 302"
  "\<not> Object_evictable (sample_object body 2) 3" "\<not> Object_Expired (sample_object body 2) 3"
  "\<not> notModified (\<lambda>_. None) (sample_request m) obj"
  subgoal by code_simp
  subgoal by code_simp
  subgoal by code_simp
  subgoal by (simp add: notModified_def sample_request_def header_get_def)
  done

abbreviation sample_reply :: origin_reply where
  "sample_reply \<equiv> OriginReply [] 200 [(''Cache-Control'', [''max-age=60''])] [''hel'', ''lo''] False"

theorem miss_then_hit_witness:
  "\<exists>p1 w1 p2 w2.
    Proxy_ServeHTTP (sample_env sample_reply) int new_writer (sample_request ''GET'') sample_snap sample_proxy =
      (p1, w1, False) \<and> w_body w1 = ''hello'' \<and>
    Proxy_ServeHTTP (sample_env (OriginError False)) (\<lambda>_. 3) new_writer (sample_request ''GET'') sample_snap p1 =
      (p2, w2, False) \<and> w_status w2 = 200 \<and> w_body w2 = ''hello''"
proof -
  obtain out where out: "Rewrite (sample_env sample_reply) sample_snap (miss_request (sample_request ''GET'')) = Some out"
    using sample_Rewrite by blast
  have key: "request_key (sample_env (OriginError False)) r s = request_key (sample_env sample_reply) r s" for r s
    by (simp add: sample_key_env [of sample_reply] sample_key_env [of "OriginError False"])
  have path: "rq_path (sample_request m) = ''/''" for m by (simp add: sample_request_def)
  have obj: "sample_object ''hello'' 2 = \<lparr>o_status = 200,
      o_header = strip_hop (miss_header [(''Cache-Control'', [''max-age=60''])]),
      o_body = concat [''hel'', ''lo''], o_storedAt = int 2, o_ttl = 60000000000,
      o_staleFor = p_staleFor (Settings_Policy (sn_settings sample_snap))\<rparr>"
    using sample_limits by (simp add: sample_object_def sample_policy_def)
  have "m = ''GET'' \<Longrightarrow> rq_method (sample_request m) \<noteq> ''HEAD''" for m by (simp add: sample_request_def)
  with miss_then_hit [where clk = int and ?clk2.0 = "\<lambda>_. 3", OF sample_uses_cache(1) sample_proxy_simps(1) sample_key_ok
      sample_proxy_simps(2) out sample_fetch(1) _ _ obj _ sample_uses_cache(1) key]
    sample_ttl [of 1] sample_limits sample_object_simps
  show ?thesis by (auto simp: sample_policy_def path)
qed


text \<open>
  A cached HEAD response loses its length: the first client gets the \<open>Content-Length\<close> the
  origin sent, but the same request answered from memory reports the length of the recorded body,
  which is zero because a HEAD response has none.
\<close>

theorem HEAD_hit_loses_length:
  assumes "rq_method r = ''HEAD''"
    and "uses_cache r snap" and "cache_wf (px_cache p)" and "cache_valid_key (request_key e r snap)"
    and "peek (px_cache p) (request_key e r snap) = None"
    and "Rewrite e snap (miss_request r) = Some out"
    and "e_fetch e out = OriginReply [] status h [] False"
    and "ResponseTTL (e_parseTime e) (clk 1) (Settings_Policy (sn_settings snap)) (rq_path r) status
           (miss_header h) = (ttl, True)"
    and "0 \<le> p_maxObjectBytes (Settings_Policy (sn_settings snap))"
    and "obj = \<lparr>o_status = status, o_header = strip_hop (miss_header h), o_body = [],
      o_storedAt = clk 2, o_ttl = ttl, o_staleFor = p_staleFor (Settings_Policy (sn_settings snap))\<rparr>"
    and "cache_admits (px_cache p) obj"
    and "\<not> Object_evictable obj (clk2 0)" and "\<not> Object_Expired obj (clk2 0)"
    and "\<not> notModified (e_parseTime e) r obj"
  shows "\<exists>p1 w1 p2 w2.
    Proxy_ServeHTTP e clk new_writer r snap p = (p1, w1, False) \<and>
    Proxy_ServeHTTP e clk2 new_writer r snap p1 = (p2, w2, False) \<and>
    w_status w1 = w_status w2 \<and> w_sent w1 = miss_header h \<and>
    header_get (w_sent w2) ''Content-Length'' = ''0''"
proof -
  have "itoa (int (length (concat ([] :: bytes list)))) = ''0''"
    by code_simp
  with miss_then_hit [where clk = clk and ?clk2.0 = clk2, OF assms(2-8) _ _ assms(11,2) refl assms(12-14)] assms(9,10)
  show ?thesis by fastforce
qed

theorem HEAD_hit_loses_length_witness:
  "\<exists>p1 w1 p2 w2.
    Proxy_ServeHTTP (sample_env (OriginReply [] 200
        [(''Cache-Control'', [''max-age=60'']), (''Content-Length'', [''1234''])] [] False))
      int new_writer (sample_request ''HEAD'') sample_snap sample_proxy = (p1, w1, False) \<and>
    Proxy_ServeHTTP (sample_env (OriginReply [] 200
        [(''Cache-Control'', [''max-age=60'']), (''Content-Length'', [''1234''])] [] False))
      (\<lambda>_. 3) new_writer (sample_request ''HEAD'') sample_snap p1 = (p2, w2, False) \<and>
    header_get (w_sent w1) ''Content-Length'' = ''1234'' \<and> header_get (w_sent w2) ''Content-Length'' = ''0''"
proof -
  let ?h = "[(''Cache-Control'', [''max-age=60'']), (''Content-Length'', [''1234''])]"
  let ?obj = "\<lparr>o_status = 200, o_header = strip_hop (miss_header ?h), o_body = [], o_storedAt = int 2,
    o_ttl = 60000000000, o_staleFor = p_staleFor (Settings_Policy (sn_settings sample_snap))\<rparr>"
  obtain out where out: "Rewrite (sample_env (OriginReply [] 200 ?h [] False)) sample_snap
      (miss_request (sample_request ''HEAD'')) = Some out"
    using sample_Rewrite by blast
  have ttl: "ResponseTTL (\<lambda>_. None) (int 1) (Settings_Policy (sn_settings sample_snap))
      (rq_path (sample_request ''HEAD'')) 200 (miss_header ?h) = (60000000000, True)"
    by code_simp
  have obj: "Object_size ?obj \<le> 1000000" "\<not> Object_evictable ?obj 3" "\<not> Object_Expired ?obj 3"
      "\<not> notModified (\<lambda>_. None) (sample_request ''HEAD'') ?obj"
    by (code_simp, code_simp, code_simp, code_simp)
  have head: "rq_method (sample_request ''HEAD'') = ''HEAD''" by (simp add: sample_request_def)
  have sent: "header_get (miss_header ?h) ''Content-Length'' = ''1234''" by code_simp
  show ?thesis
    using HEAD_hit_loses_length [where clk = int and ?clk2.0 = "\<lambda>_. 3", OF head sample_uses_cache(2)
        sample_proxy_simps(1) sample_key_ok sample_proxy_simps(2) out sample_fetch(1) _ _ refl]
      ttl obj sample_limits(1) sent by (auto simp: sample_policy_def)
qed

section \<open>Informational responses\<close>

lemma rec_off_info:
  assumes "rec_wroteHeader r" and "\<not> rec_store r" and "forward_info e now ci (Tee r) = Tee r'"
  shows "rec_wroteHeader r' \<and> \<not> rec_store r'"
  using assms by (auto simp: forward_info_def rec_WriteHeader_def rec_setHeader_def Let_def)

lemma rec_off_infos:
  "rec_wroteHeader r \<Longrightarrow> \<not> rec_store r \<Longrightarrow> fold (forward_info e now) infos (Tee r) = Tee r' \<Longrightarrow>
     rec_wroteHeader r' \<and> \<not> rec_store r'"
proof (induction infos arbitrary: r)
  case (Cons ci infos)
  obtain r1 where r1: "forward_info e now ci (Tee r) = Tee r1" by (simp add: forward_info_def)
  with Cons.IH [of r1] Cons.prems rec_off_info [OF Cons.prems(1,2) r1] show ?case by simp
qed simp

lemma info_stops_recording:
  assumes "e_fetch e out = OriginReply ((code, hi) # infos) status h chunks broken" and "code < 200"
    and "Rewrite e snap q = Some out" and "forward e now srv snap q (Tee (new_recorder s path pol)) = (Tee r', boom)"
  shows "rec_object t r' = None"
proof -
  let ?r0 = "rec_WriteHeader (e_parseTime e) now code
      (rec_setHeader (copyHeader (sink_Header s) hi) (new_recorder s path pol))"
  have "ResponseTTL (e_parseTime e) now pol path code hd \<noteq> (ttl, True)" for hd ttl
    using assms(2) ResponseTTL_status [of "e_parseTime e" now pol path code hd ttl] by auto
  then have off: "rec_wroteHeader (rec_setHeader [] ?r0)" "\<not> rec_store (rec_setHeader [] ?r0)"
    by (auto simp: rec_WriteHeader_def rec_setHeader_def new_recorder_def Let_def split: prod.split)
  obtain r1 where r1: "fold (forward_info e now) infos (Tee (rec_setHeader [] ?r0)) = Tee r1"
    using infos_Tee by blast
  note off1 = rec_off_infos [OF off r1]
  let ?r2 = "rec_WriteHeader (e_parseTime e) now status
      (rec_setHeader (copyHeader (sink_Header (rec_sink r1)) h) r1)"
  have off2: "rec_wroteHeader ?r2" "\<not> rec_store ?r2"
    using off1 by (simp_all add: rec_WriteHeader_def Let_def)
  have "forward_info e now (code, hi) (Tee (new_recorder s path pol)) = Tee (rec_setHeader [] ?r0)"
    by (simp add: forward_info_def new_recorder_def)
  then have "r' = fold (rec_Write (e_parseTime e) now) chunks ?r2"
    using assms(1,3,4) r1 by (simp add: forward_def reverse_proxy_def Let_def)
  with rec_writes_off [OF off2] show ?thesis by (simp add: rec_object_def)
qed

text \<open>
  A page sent with early hints is never cached: an informational response (103 Early Hints,
  say) reaches the recorder's \<open>WriteHeader\<close> first, is taken for the final status and turns
  recording off, so whatever final response follows, the miss stores nothing under its key.
\<close>

theorem early_hints_disable_caching:
  assumes "uses_cache r snap" and "cache_wf (px_cache p)" and "cache_valid_key (request_key e r snap)"
    and "peek (px_cache p) (request_key e r snap) = None"
    and "Rewrite e snap (miss_request r) = Some out"
    and "e_fetch e out = OriginReply ((code, hi) # infos) status h chunks broken" and "code < 200"
    and "Proxy_ServeHTTP e clk w r snap p = (p', w', panic)"
  shows "peek (px_cache p') (request_key e r snap) = None"
proof -
  let ?key = "request_key e r snap"
  obtain c x f where get: "Cache_Get (px_cache p) ?key (clk 0) = Some (c, x, f)"
    using obj_cache.get_total [OF assms(2,3), of "clk 0"] by (cases "Cache_Get (px_cache p) ?key (clk 0)") auto
  have x: "x = None" using Get_peek(1) [OF assms(2) get] assms(4) by (simp add: lookup_result_simps)
  obtain r' boom where fw: "forward e (clk 1) True snap (miss_request r) (Tee (miss_recorder w r snap)) = (Tee r', boom)"
    using forward_Tee [of e "clk 1" True snap "miss_request r" "miss_recorder w r snap"] by (metis prod.collapse)
  have "rec_object (clk 2) r' = None"
    using info_stops_recording [OF assms(6,7,5) fw [unfolded miss_recorder_def]] .
  then have "px_cache p' = c"
    using serve_miss(4,5) [OF assms(8,1) get [unfolded x] fw] by blast
  then show ?thesis using Get_peek(2) [OF assms(2) get] x by simp
qed

theorem early_hints_disable_caching_witness:
  "peek (px_cache (fst (Proxy_ServeHTTP
       (sample_env (OriginReply [(103, [(''Link'', [''</a.css>'']) ])] 200
          [(''Cache-Control'', [''max-age=60''])] [''hello''] False))
       int new_writer (sample_request ''GET'') sample_snap sample_proxy)))
     (request_key (sample_env sample_reply) (sample_request ''GET'') sample_snap) = None"
proof -
  let ?e = "sample_env (OriginReply [(103, [(''Link'', [''</a.css>'']) ])] 200
          [(''Cache-Control'', [''max-age=60''])] [''hello''] False)"
  obtain out where out: "Rewrite ?e sample_snap (miss_request (sample_request ''GET'')) = Some out"
    using sample_Rewrite by blast
  obtain p' w' b where serve: "Proxy_ServeHTTP ?e int new_writer (sample_request ''GET'') sample_snap sample_proxy = (p', w', b)"
    by (cases "Proxy_ServeHTTP ?e int new_writer (sample_request ''GET'') sample_snap sample_proxy") auto
  have "request_key (sample_env sample_reply) (sample_request ''GET'') sample_snap =
      request_key ?e (sample_request ''GET'') sample_snap"
    by (simp add: request_key_def sample_env_def)
  with early_hints_disable_caching [OF sample_uses_cache(1) sample_proxy_simps(1) sample_key_ok sample_proxy_simps(2)
      out sample_fetch(1) _ serve] serve show ?thesis by simp
qed


section \<open>Instances\<close>

lemma sample_proxy_idle [simp]: "px_jobs sample_proxy = []" "px_refreshing sample_proxy = []"
  by (simp_all add: sample_proxy_def Proxy_New_def)

lemma sample_first_request:
  "\<exists>p1 w1. Proxy_ServeHTTP (sample_env sample_reply) int new_writer (sample_request ''GET'') sample_snap
      sample_proxy = (p1, w1, False) \<and> cache_wf (px_cache p1) \<and> px_jobs p1 = [] \<and>
    px_refreshing p1 = [] \<and> peek (px_cache p1) (request_key (sample_env sample_reply) (sample_request ''GET'') sample_snap) =
      Some (sample_object ''hello'' 2)"
proof -
  obtain out where out: "Rewrite (sample_env sample_reply) sample_snap (miss_request (sample_request ''GET'')) = Some out"
    using sample_Rewrite by blast
  have path: "rq_path (sample_request m) = ''/''" for m by (simp add: sample_request_def)
  have obj: "sample_object ''hello'' 2 = \<lparr>o_status = 200,
      o_header = strip_hop (miss_header [(''Cache-Control'', [''max-age=60''])]),
      o_body = concat [''hel'', ''lo''], o_storedAt = int 2, o_ttl = 60000000000,
      o_staleFor = p_staleFor (Settings_Policy (sn_settings sample_snap))\<rparr>"
    using sample_limits by (simp add: sample_object_def sample_policy_def)
  show ?thesis
    using miss_reply [where clk = int, OF sample_proxy_simps(1) sample_key_ok refl sample_uses_cache(1)
        sample_proxy_simps(2) out sample_fetch(1) _ _ obj]
      sample_ttl [of 1] sample_limits sample_object_simps(1)
    by (auto simp: sample_policy_def path)
qed

lemma sample_proxy_New [simp]: "Proxy_New (Cache_New 1000000) = sample_proxy"
  by (simp add: sample_proxy_def)


lemma sample_stale:
  "lookup_result (Some (sample_object ''hello'' 2)) 60000000003 = (Some (sample_object ''hello'' 2), Stale)"
  by (rule trans [OF lookup_result_simps(3)]) (code_simp, code_simp)

theorem revalidation_single_flight_witness:
  "\<exists>p j. px_jobs p = [j] \<and> px_refreshing p = [j_key j] \<and>
    revalidate (j_key j) (sample_request ''GET'') sample_snap [] p = p"
proof -
  let ?e = "sample_env sample_reply" and ?r = "sample_request ''GET''"
  let ?key = "request_key ?e ?r sample_snap"
  obtain p1 w1 where p1: "Proxy_ServeHTTP ?e int new_writer ?r sample_snap sample_proxy = (p1, w1, False)"
      "cache_wf (px_cache p1)" "peek (px_cache p1) ?key = Some (sample_object ''hello'' 2)"
      "px_jobs p1 = []" "px_refreshing p1 = []"
    using sample_first_request by blast
  have step1: "proxy_step ?e (Proxy_New (Cache_New 1000000)) p1"
    unfolding sample_proxy_New by (rule proxy_step.serve, rule p1(1))
  obtain c x f where get: "Cache_Get (px_cache p1) ?key 60000000003 = Some (c, x, f)"
    using obj_cache.get_total [where now = 60000000003, OF p1(2) sample_key_ok]
    by (metis option.exhaust prod.collapse)
  have "(x, f) = (Some (sample_object ''hello'' 2), Stale)"
    using Get_peek(1) [OF p1(2) get] p1(3) sample_stale by simp
  then have get: "Cache_Get (px_cache p1) ?key ((\<lambda>_. 60000000003) 0) =
      Some (c, Some (sample_object ''hello'' 2), Stale)"
    using get by simp
  obtain p2 w2 b where p2: "Proxy_ServeHTTP ?e (\<lambda>_. 60000000003) new_writer ?r sample_snap p1 = (p2, w2, b)"
    by (metis prod.collapse)
  have step2: "proxy_step ?e p1 p2" by (rule proxy_step.serve, rule p2)
  have run: "(proxy_step ?e)\<^sup>*\<^sup>* (Proxy_New (Cache_New 1000000)) p2"
    using step1 step2 by (rule converse_rtranclp_into_rtranclp [OF _ r_into_rtranclp])
  have "p2 = fst (Proxy_ServeHTTP ?e (\<lambda>_. 60000000003) new_writer ?r sample_snap p1)"
    by (simp add: p2)
  then have "length (px_jobs p2) = 1"
    unfolding serve_stale [where clk = "\<lambda>_. 60000000003" and w = new_writer, OF sample_uses_cache(1) get]
    by (simp add: case_prod_unfold revalidate_def p1(4,5) Let_def)
  with revalidation_single_flight [OF run, of ?r sample_snap "[]"] show ?thesis
    by (cases "px_jobs p2"; cases "px_refreshing p2") auto
qed


definition sample_job :: job where
  "sample_job = \<lparr>j_key = ''00'', j_request = background_request (sample_request ''GET'') sample_snap [],
     j_snap = sample_snap, j_policy = sample_policy\<rparr>"

theorem truncated_refresh_is_stored_witness:
  "\<exists>p' obj. run_job (sample_env (OriginReply [] 200 [(''Cache-Control'', [''max-age=60''])] [''hel''] True))
     int sample_job sample_proxy = Some p' \<and> peek (px_cache p') ''00'' = Some obj \<and> o_body obj = ''hel''"
proof -
  let ?e = "sample_env (OriginReply [] 200 [(''Cache-Control'', [''max-age=60''])] [''hel''] True)"
  let ?h = "[(''Cache-Control'', [''max-age=60''])]"
  let ?obj = "\<lparr>o_status = 200, o_header = strip_hop (copyHeader [] ?h), o_body = concat [''hel''],
    o_storedAt = int 2, o_ttl = 60000000000, o_staleFor = p_staleFor (j_policy sample_job)\<rparr>"
  have snap: "j_snap sample_job = sample_snap" by (simp add: sample_job_def)
  obtain out where out: "Rewrite ?e (j_snap sample_job) (j_request sample_job) = Some out"
    unfolding snap using sample_Rewrite by blast
  have "ResponseTTL (e_parseTime ?e) (int 1) (j_policy sample_job) (rq_path (j_request sample_job)) 200
      (copyHeader [] ?h) = (60000000000, True)" by code_simp
  moreover have "int (length (concat [''hel''])) \<le> p_maxObjectBytes (j_policy sample_job)" by code_simp
  moreover have "cache_valid_key (j_key sample_job)" unfolding cache_valid_key_def by code_simp
  moreover have "Object_size ?obj \<le> 1000000" by code_simp
  ultimately show ?thesis
    using truncated_refresh_is_stored [where clk = int and p = sample_proxy, OF out sample_fetch(1) _ _ refl]
    by (fastforce simp: sample_job_def)
qed

end
