(* ===== verification/GoFloat.thy ===== *)
theory GoFloat
  imports GoNet F64
begin

text \<open>
  \<open>strconv.ParseFloat(s, 64)\<close> and the values it returns: decimal and hexadecimal literals with
  underscores, signed infinities and NaN, correctly rounded, a range error on overflow.
\<close>

datatype float64 = Finite rat | Infinite bool | NaN

fun float_less :: "float64 \<Rightarrow> float64 \<Rightarrow> bool" where
  "float_less (Finite x) (Finite y) = (x < y)"
| "float_less (Finite x) (Infinite neg) = (\<not> neg)"
| "float_less (Infinite neg) (Finite y) = neg"
| "float_less (Infinite n) (Infinite m) = (n \<and> \<not> m)"
| "float_less _ NaN = False"
| "float_less NaN _ = False"

text \<open>\<open>special\<close>, on the whole string.\<close>

definition special_float :: "string \<Rightarrow> float64 option" where
  "special_float s0 =
     (let s = toLower s0;
          neg = hasPrefix s ''-'';
          t = (if hasPrefix s ''-'' \<or> hasPrefix s ''+'' then drop 1 s else s)
      in if t = ''inf'' \<or> t = ''infinity'' then Some (Infinite neg)
         else if s = ''nan'' then Some NaN
         else None)"

text \<open>The digits loop of \<open>readFloat\<close>: the digits, how many follow the dot, and the unread rest.\<close>

fun read_digits :: "bool \<Rightarrow> bool \<Rightarrow> string \<Rightarrow> nat \<Rightarrow> string \<Rightarrow> string \<times> nat \<times> string" where
  "read_digits hex sawdot ds nfrac [] = (ds, nfrac, [])"
| "read_digits hex sawdot ds nfrac (c # s) =
     (if c = CHR ''_'' then read_digits hex sawdot ds nfrac s
      else if c = CHR ''.'' then
        (if sawdot then (ds, nfrac, c # s) else read_digits hex True ds nfrac s)
      else if is_digit c \<or> (hex \<and> is_hex c) then
        read_digits hex sawdot (ds @ [c]) (if sawdot then Suc nfrac else nfrac) s
      else (ds, nfrac, c # s))"

text \<open>The exponent: digits beyond 9999 are dropped.\<close>

definition read_exponent :: "string \<Rightarrow> int" where
  "read_exponent s =
     foldl (\<lambda>e c. if c = CHR ''_'' then e else if e < 10000 then 10 * e + digit_val c else e) 0 s"

text \<open>\<open>underscoreOK\<close>: an underscore stands between digits, or after a base prefix.\<close>

fun underscores_ok :: "bool \<Rightarrow> char \<Rightarrow> string \<Rightarrow> bool" where
  "underscores_ok hex saw [] = (saw \<noteq> CHR ''_'')"
| "underscores_ok hex saw (c # s) =
     (if is_digit c \<or> (hex \<and> is_hex c) then underscores_ok hex CHR ''0'' s
      else if c = CHR ''_'' then saw = CHR ''0'' \<and> underscores_ok hex CHR ''_'' s
      else saw \<noteq> CHR ''_'' \<and> underscores_ok hex CHR ''!'' s)"

definition underscoreOK :: "string \<Rightarrow> bool" where
  "underscoreOK s0 =
     (let s = (if hasPrefix s0 ''-'' \<or> hasPrefix s0 ''+'' then drop 1 s0 else s0) in
      if 2 \<le> length s \<and> s ! 0 = CHR ''0'' \<and> lower_char (s ! 1) \<in> {CHR ''b'', CHR ''o'', CHR ''x''}
      then underscores_ok (lower_char (s ! 1) = CHR ''x'') CHR ''0'' (drop 2 s)
      else underscores_ok False CHR ''^'' s)"

definition pow_int :: "rat \<Rightarrow> int \<Rightarrow> rat" where
  "pow_int b e = (if e \<ge> 0 then b ^ nat e else 1 / b ^ nat (- e))"

definition read_float :: "string \<Rightarrow> rat option" where
  "read_float s =
     (let neg = hasPrefix s ''-'';
          t = (if hasPrefix s ''-'' \<or> hasPrefix s ''+'' then drop 1 s else s);
          hex = (3 \<le> length t \<and> t ! 0 = CHR ''0'' \<and> lower_char (t ! 1) = CHR ''x'');
          (ds, nfrac, rest) = read_digits hex False [] 0 (if hex then drop 2 t else t);
          mant = of_int (if hex then hex_group ds else dec_val ds);
          result = (\<lambda>e. if CHR ''_'' \<in> set s \<and> \<not> underscoreOK s then None
            else Some ((if neg then - 1 else 1) *
              (if hex then mant * pow_int 2 (e - 4 * int nfrac) else mant * pow_int 10 (e - int nfrac))))
      in if ds = [] then None
         else if rest = [] then (if hex then None else result 0)
         else if lower_char (hd rest) \<noteq> (if hex then CHR ''p'' else CHR ''e'') then None
         else
           let r1 = tl rest; eneg = hasPrefix r1 ''-'';
               r2 = (if hasPrefix r1 ''-'' \<or> hasPrefix r1 ''+'' then drop 1 r1 else r1)
           in if r2 = [] \<or> \<not> is_digit (hd r2) then None
              else if \<not> list_all (\<lambda>c. is_digit c \<or> c = CHR ''_'') r2 then None
              else result (if eneg then - read_exponent r2 else read_exponent r2))"

definition ParseFloat :: "string \<Rightarrow> float64 option" where
  "ParseFloat s =
     (case special_float s of
        Some v \<Rightarrow> Some v
      | None \<Rightarrow>
          (case read_float s of
             None \<Rightarrow> None
           | Some x \<Rightarrow> let y = f64 x in if 2 ^ 1024 \<le> \<lfloor>\<bar>y\<bar>\<rfloor> then None else Some (Finite y)))"


section \<open>Arithmetic\<close>

text \<open>
  Conversions and operations on operands the program combines: integers below \<open>2^53\<close> in absolute
  value, which are exact as doubles. A conversion to \<open>int\<close> that is out of range gives the
  smallest integer, as on amd64.
\<close>

definition float_to_int :: "float64 \<Rightarrow> int" where
  "float_to_int f =
     (case f of
        Finite x \<Rightarrow>
          (let n = (if x \<ge> 0 then \<lfloor>x\<rfloor> else \<lceil>x\<rceil>) in if int64 n then n else - (2 ^ 63))
      | _ \<Rightarrow> - (2 ^ 63))"

definition float_div :: "int \<Rightarrow> int \<Rightarrow> float64" where
  "float_div a b =
     (if b = 0 then (if a = 0 then NaN else Infinite (a < 0))
      else Finite (f64 (of_int a / of_int b)))"

definition float_mul :: "int \<Rightarrow> float64 \<Rightarrow> float64" where
  "float_mul a f =
     (case f of
        Finite y \<Rightarrow> Finite (f64 (of_int a * y))
      | Infinite neg \<Rightarrow> if a = 0 then NaN else Infinite (neg \<noteq> (a < 0))
      | NaN \<Rightarrow> NaN)"

definition float_add_half :: "float64 \<Rightarrow> float64" where
  "float_add_half f = (case f of Finite x \<Rightarrow> Finite (f64 (x + 1/2)) | _ \<Rightarrow> f)"

text \<open>\<open>math.Min\<close> and the comparison \<open>f >= 1\<close>.\<close>

definition float_min :: "float64 \<Rightarrow> float64 \<Rightarrow> float64" where
  "float_min f g =
     (if f = Infinite True \<or> g = Infinite True then Infinite True
      else if f = NaN \<or> g = NaN then NaN
      else if float_less f g then f else g)"

definition float_ge_one :: "float64 \<Rightarrow> bool" where
  "float_ge_one f \<longleftrightarrow> f \<noteq> NaN \<and> \<not> float_less f (Finite 1)"

end
