(* ===== verification/ImageParams.thy ===== *)
theory ImageParams
  imports GoFloat Http
begin

text \<open>
  \<open>internal/imageproc/params.go\<close>: the transformation options of an image URL. The messages of
  the errors are constructors; a number that \<open>strconv\<close> rejects is \<open>BadNumber\<close>.
\<close>

definition MaxDim :: int where "MaxDim = 4096"
definition maxSrcPixels :: int where "maxSrcPixels = 50 * 2 ^ 20"

datatype fit = FitScaleDown | FitContain | FitCover | FitFill
datatype img_format = FormatAuto | FormatJPEG | FormatPNG | FormatGIF

record params =
  pm_Width :: int
  pm_Height :: int
  pm_DPR :: float64
  pm_Fit :: fit
  pm_Quality :: int
  pm_Format :: img_format
  pm_Gray :: bool
  pm_Blur :: float64
  pm_FlipH :: bool
  pm_FlipV :: bool

definition Defaults :: params where
  "Defaults =
     \<lparr>pm_Width = 0, pm_Height = 0, pm_DPR = Finite 1, pm_Fit = FitScaleDown, pm_Quality = 80,
      pm_Format = FormatAuto, pm_Gray = False, pm_Blur = Finite 0, pm_FlipH = False, pm_FlipV = False\<rparr>"

datatype value_error = BadNumber | OutOfRange | NotAllowed

datatype param_error = NotKeyValue string | UnknownOption string | BadOption string value_error

section \<open>Values\<close>

definition parseDim :: "string \<Rightarrow> value_error + int" where
  "parseDim v =
     (case atoi v of
        None \<Rightarrow> Inl BadNumber
      | Some n \<Rightarrow> if n < 1 \<or> n > MaxDim then Inl OutOfRange else Inr n)"

definition parseRange :: "string \<Rightarrow> rat \<Rightarrow> rat \<Rightarrow> value_error + float64" where
  "parseRange v lo hi =
     (case ParseFloat v of
        None \<Rightarrow> Inl BadNumber
      | Some f \<Rightarrow>
          if float_less f (Finite lo) \<or> float_less (Finite hi) f then Inl OutOfRange else Inr f)"

definition parseQuality :: "string \<Rightarrow> value_error + int" where
  "parseQuality v =
     (case atoi v of
        None \<Rightarrow> Inl BadNumber
      | Some n \<Rightarrow> if n < 1 \<or> n > 100 then Inl OutOfRange else Inr n)"

definition parseFit :: "string \<Rightarrow> value_error + fit" where
  "parseFit v =
     (if v = ''scaledown'' \<or> v = ''scale-down'' then Inr FitScaleDown
      else if v = ''contain'' then Inr FitContain
      else if v = ''cover'' then Inr FitCover
      else if v = ''fill'' then Inr FitFill
      else Inl NotAllowed)"

definition parseFormat :: "string \<Rightarrow> value_error + img_format" where
  "parseFormat v =
     (if v = ''auto'' then Inr FormatAuto
      else if v = ''jpeg'' \<or> v = ''jpg'' then Inr FormatJPEG
      else if v = ''png'' then Inr FormatPNG
      else if v = ''gif'' then Inr FormatGIF
      else Inl NotAllowed)"

definition parseBool :: "string \<Rightarrow> value_error + bool" where
  "parseBool v =
     (if v = ''1'' \<or> v = ''true'' \<or> v = ''on'' \<or> v = ''yes'' then Inr True
      else if v = ''0'' \<or> v = ''false'' \<or> v = ''off'' \<or> v = ''no'' then Inr False
      else Inl NotAllowed)"

definition parseFlip :: "string \<Rightarrow> params \<Rightarrow> value_error + params" where
  "parseFlip v p =
     (if v = ''h'' then Inr (p\<lparr>pm_FlipH := True\<rparr>)
      else if v = ''v'' then Inr (p\<lparr>pm_FlipV := True\<rparr>)
      else if v = ''hv'' \<or> v = ''vh'' then Inr (p\<lparr>pm_FlipH := True, pm_FlipV := True\<rparr>)
      else Inl NotAllowed)"

section \<open>Options\<close>

text \<open>The value of an option is stored by a setter, or its error is reported with the key.\<close>

fun set_value :: "string \<Rightarrow> value_error + 'v \<Rightarrow> ('v \<Rightarrow> params) \<Rightarrow> param_error + params" where
  "set_value key (Inl e) put = Inl (BadOption key e)"
| "set_value key (Inr v) put = Inr (put v)"

definition parse_option :: "string \<Rightarrow> params \<Rightarrow> param_error + params" where
  "parse_option pair p =
     (case cut CHR ''='' pair of
        None \<Rightarrow> Inl (NotKeyValue pair)
      | Some (k, v) \<Rightarrow>
          (let key = toLower (trimSpace k); val = toLower (trimSpace v) in
           if key = ''w'' \<or> key = ''width'' then set_value key (parseDim val) (\<lambda>n. p\<lparr>pm_Width := n\<rparr>)
           else if key = ''h'' \<or> key = ''height'' then set_value key (parseDim val) (\<lambda>n. p\<lparr>pm_Height := n\<rparr>)
           else if key = ''dpr'' then set_value key (parseRange val (1/2) 3) (\<lambda>f. p\<lparr>pm_DPR := f\<rparr>)
           else if key = ''fit'' then set_value key (parseFit val) (\<lambda>f. p\<lparr>pm_Fit := f\<rparr>)
           else if key = ''q'' \<or> key = ''quality'' then set_value key (parseQuality val) (\<lambda>n. p\<lparr>pm_Quality := n\<rparr>)
           else if key = ''f'' \<or> key = ''format'' then set_value key (parseFormat val) (\<lambda>f. p\<lparr>pm_Format := f\<rparr>)
           else if key = ''gray'' \<or> key = ''grayscale'' then set_value key (parseBool val) (\<lambda>b. p\<lparr>pm_Gray := b\<rparr>)
           else if key = ''blur'' then set_value key (parseRange val 0 50) (\<lambda>f. p\<lparr>pm_Blur := f\<rparr>)
           else if key = ''flip'' then set_value key (parseFlip val p) (\<lambda>q. q)
           else Inl (UnknownOption key)))"

fun parse_options :: "string list \<Rightarrow> params \<Rightarrow> param_error + params" where
  "parse_options [] p = Inr p"
| "parse_options (pair # pairs) p =
     (case parse_option pair p of
        Inl e \<Rightarrow> Inl e
      | Inr q \<Rightarrow> parse_options pairs q)"

definition Params_Parse :: "string \<Rightarrow> param_error + params" where
  "Params_Parse s =
     (if s = [] \<or> s = ''_'' then Inr Defaults
      else parse_options (splitOn CHR '','' s) Defaults)"

section \<open>What is accepted\<close>

definition in_range :: "rat \<Rightarrow> rat \<Rightarrow> float64 \<Rightarrow> bool" where
  "in_range lo hi f = (case f of Finite x \<Rightarrow> lo \<le> x \<and> x \<le> hi | Infinite _ \<Rightarrow> False | NaN \<Rightarrow> True)"

definition params_ok :: "params \<Rightarrow> bool" where
  "params_ok p \<longleftrightarrow>
     0 \<le> pm_Width p \<and> pm_Width p \<le> 4096 \<and> 0 \<le> pm_Height p \<and> pm_Height p \<le> 4096 \<and>
     1 \<le> pm_Quality p \<and> pm_Quality p \<le> 100 \<and> in_range (1/2) 3 (pm_DPR p) \<and> in_range 0 50 (pm_Blur p)"

lemma Defaults_ok [simp]: "params_ok Defaults"
  by (simp add: params_ok_def Defaults_def in_range_def)

lemma parseRange_in_range: "parseRange v lo hi = Inr f \<Longrightarrow> in_range lo hi f"
  by (cases f) (auto simp: parseRange_def in_range_def split: option.splits if_splits)

lemma set_value_Inr: "set_value key r put = Inr q \<Longrightarrow> \<exists>v. r = Inr v \<and> q = put v"
  by (cases r) auto

lemma parseDim_range: "parseDim v = Inr n \<Longrightarrow> 1 \<le> n \<and> n \<le> 4096"
  by (auto simp: parseDim_def MaxDim_def split: option.splits if_splits)

lemma parseQuality_range: "parseQuality v = Inr n \<Longrightarrow> 1 \<le> n \<and> n \<le> 100"
  by (auto simp: parseQuality_def split: option.splits if_splits)

lemma parseFlip_fields:
  "parseFlip v p = Inr q \<Longrightarrow> params_ok p \<Longrightarrow> params_ok q"
  by (auto simp: parseFlip_def params_ok_def split: if_splits)

lemma parse_option_ok [inv_pres]: "parse_option pair p = Inr q \<Longrightarrow> params_ok p \<Longrightarrow> params_ok q"
  unfolding parse_option_def Let_def
  by (split option.splits, simp, split prod.splits, simp split: if_splits)
    (auto dest!: set_value_Inr parseRange_in_range parseDim_range parseQuality_range
      dest: parseFlip_fields simp: params_ok_def)

lemma parse_options_ok: "parse_options pairs p = Inr q \<Longrightarrow> params_ok p \<Longrightarrow> params_ok q"
  by (induction pairs arbitrary: p) (auto split: sum.splits dest: parse_option_ok)


section \<open>Printing options\<close>

fun fit_name :: "fit \<Rightarrow> string" where
  "fit_name FitScaleDown = ''scaledown''"
| "fit_name FitContain = ''contain''"
| "fit_name FitCover = ''cover''"
| "fit_name FitFill = ''fill''"

fun format_name :: "img_format \<Rightarrow> string" where
  "format_name FormatAuto = ''auto''"
| "format_name FormatJPEG = ''jpeg''"
| "format_name FormatPNG = ''png''"
| "format_name FormatGIF = ''gif''"

text \<open>An option list that spells out the parameters other than \<open>dpr\<close> and \<open>blur\<close>.\<close>

definition option_pairs :: "params \<Rightarrow> (string \<times> string) list" where
  "option_pairs p =
     (if pm_Width p = 0 then [] else [(''w'', itoa (pm_Width p))]) @
     (if pm_Height p = 0 then [] else [(''h'', itoa (pm_Height p))]) @
     [(''fit'', fit_name (pm_Fit p)), (''q'', itoa (pm_Quality p)), (''f'', format_name (pm_Format p)),
      (''gray'', if pm_Gray p then ''on'' else ''off'')] @
     (if pm_FlipH p then [(''flip'', ''h'')] else []) @ (if pm_FlipV p then [(''flip'', ''v'')] else [])"

fun join_pairs :: "(string \<times> string) list \<Rightarrow> string" where
  "join_pairs [] = []"
| "join_pairs [(k, v)] = k @ ''='' @ v"
| "join_pairs ((k, v) # kvs) = k @ ''='' @ v @ '','' @ join_pairs kvs"

definition print_params :: "params \<Rightarrow> string" where
  "print_params p = join_pairs (option_pairs p)"

definition plain_pair :: "string \<times> string \<Rightarrow> bool" where
  "plain_pair kv \<longleftrightarrow> list_all plain_char (fst kv) \<and> list_all plain_char (snd kv)"

lemma split_joined:
  "list_all plain_pair kvs \<Longrightarrow> kvs \<noteq> [] \<Longrightarrow>
     splitOn CHR '','' (join_pairs kvs) = map (\<lambda>(k, v). k @ ''='' @ v) kvs"
proof (induction kvs rule: join_pairs.induct)
  case (2 k v)
  then show ?case by (auto simp: plain_pair_def plain_text intro!: splitOn_absent)
next
  case (3 k v kv kvs)
  then have "CHR '','' \<notin> set (k @ ''='' @ v)" by (auto simp: plain_pair_def plain_text)
  from splitOn_append [OF this, of "join_pairs (kv # kvs)"] 3 show ?case by simp
qed simp

lemma parse_plain:
  assumes "plain_pair (k, v)"
  shows "cut CHR ''='' (k @ ''='' @ v) = Some (k, v)" "toLower (trimSpace k) = k" "toLower (trimSpace v) = v"
  using assms cut_append [of "CHR ''=''" k v] by (simp_all add: plain_pair_def plain_text)

lemma itoa_plain: "0 \<le> n \<Longrightarrow> list_all plain_char (itoa n)"
  using nat_digits_plain(1) [of "nat n"] by (auto simp: itoa_def list_all_iff is_digit_def plain_char_def)

lemma plain_names: "list_all plain_char (fit_name f)" "list_all plain_char (format_name g)"
  by (cases f; simp add: plain_char_def) (cases g; simp add: plain_char_def)

lemma option_pairs_plain:
  assumes "params_ok p"
  shows "list_all plain_pair (option_pairs p)"
proof -
  have "list_all plain_char (itoa (pm_Width p))" "list_all plain_char (itoa (pm_Height p))"
    "list_all plain_char (itoa (pm_Quality p))"
    using assms by (simp_all add: params_ok_def itoa_plain)
  then show ?thesis
    by (simp add: option_pairs_def plain_pair_def plain_names plain_char_def)
qed

text \<open>What each printed option does when it is read.\<close>

lemma option_simps:
  "1 \<le> n \<Longrightarrow> n \<le> 4096 \<Longrightarrow> parse_option (''w='' @ itoa n) p = Inr (p\<lparr>pm_Width := n\<rparr>)"
  "1 \<le> n \<Longrightarrow> n \<le> 4096 \<Longrightarrow> parse_option (''h='' @ itoa n) p = Inr (p\<lparr>pm_Height := n\<rparr>)"
  "1 \<le> n \<Longrightarrow> n \<le> 100 \<Longrightarrow> parse_option (''q='' @ itoa n) p = Inr (p\<lparr>pm_Quality := n\<rparr>)"
  "parse_option (''fit='' @ fit_name f) p = Inr (p\<lparr>pm_Fit := f\<rparr>)"
  "parse_option (''f='' @ format_name g) p = Inr (p\<lparr>pm_Format := g\<rparr>)"
  "parse_option ''gray=on'' p = Inr (p\<lparr>pm_Gray := True\<rparr>)"
  "parse_option ''gray=off'' p = Inr (p\<lparr>pm_Gray := False\<rparr>)"
  "parse_option ''flip=h'' p = Inr (p\<lparr>pm_FlipH := True\<rparr>)"
  "parse_option ''flip=v'' p = Inr (p\<lparr>pm_FlipV := True\<rparr>)"
proof -
  have num: "parse_option (k @ ''='' @ itoa n) p =
      (let val = itoa n in
           if k = ''w'' \<or> k = ''width'' then set_value k (parseDim val) (\<lambda>n. p\<lparr>pm_Width := n\<rparr>)
           else if k = ''h'' \<or> k = ''height'' then set_value k (parseDim val) (\<lambda>n. p\<lparr>pm_Height := n\<rparr>)
           else set_value k (parseQuality val) (\<lambda>n. p\<lparr>pm_Quality := n\<rparr>))"
    if "0 \<le> n" "k \<in> {''w'', ''h'', ''q''}" for n k
  proof -
    have "plain_pair (k, itoa n)" using that itoa_plain [of n] by (auto simp: plain_pair_def plain_char_def)
    from parse_plain [OF this] that(2) show ?thesis by (auto simp: parse_option_def Let_def)
  qed
  have dim: "parseDim (itoa n) = Inr n" if "1 \<le> n" "n \<le> 4096" for n
    using that atoi_itoa [of n] by (simp add: parseDim_def MaxDim_def)
  show "1 \<le> n \<Longrightarrow> n \<le> 4096 \<Longrightarrow> parse_option (''w='' @ itoa n) p = Inr (p\<lparr>pm_Width := n\<rparr>)"
    using num [of n "''w''"] dim [of n] by simp
  show "1 \<le> n \<Longrightarrow> n \<le> 4096 \<Longrightarrow> parse_option (''h='' @ itoa n) p = Inr (p\<lparr>pm_Height := n\<rparr>)"
    using num [of n "''h''"] dim [of n] by simp
  show "1 \<le> n \<Longrightarrow> n \<le> 100 \<Longrightarrow> parse_option (''q='' @ itoa n) p = Inr (p\<lparr>pm_Quality := n\<rparr>)"
    using num [of n "''q''"] atoi_itoa [of n] by (simp add: parseQuality_def)
  show "parse_option (''fit='' @ fit_name f) p = Inr (p\<lparr>pm_Fit := f\<rparr>)"
    by (cases f; simp only: fit_name.simps; code_simp)
  show "parse_option (''f='' @ format_name g) p = Inr (p\<lparr>pm_Format := g\<rparr>)"
    by (cases g; simp only: format_name.simps; code_simp)
qed (code_simp+)

lemma parse_printed_value:
  assumes "list_all plain_pair kvs" and "kvs \<noteq> []"
  shows "Params_Parse (join_pairs kvs) = parse_options (map (\<lambda>(k, v). k @ ''='' @ v) kvs) Defaults"
proof -
  obtain k v kvs' where kvs: "kvs = (k, v) # kvs'" using assms(2) by (cases kvs) auto
  have "CHR ''='' \<in> set (join_pairs kvs)" unfolding kvs by (cases kvs') auto
  then have "join_pairs kvs \<noteq> []" "join_pairs kvs \<noteq> ''_''" by auto
  then show ?thesis by (simp add: Params_Parse_def split_joined [OF assms])
qed

end
