(* ===== verification/Transform.thy ===== *)
theory Transform
  imports ImageParams
begin

text \<open>
  \<open>internal/imageproc/transform.go\<close>: decoding, resizing, flipping, grayscale, blur and encoding.
  The codecs and the resampling filter are parameters (a record); everything the program itself
  computes on dimensions and pixels is written out. A result \<open>None\<close> of an image operation is a
  panic of the allocation. Floating-point expressions are evaluated as on amd64, without fused
  operations.
\<close>

section \<open>Images\<close>

text \<open>An \<open>image.NRGBA\<close> with its origin, width and height; the stride is four times the width.\<close>

record nrgba =
  im_minX :: int
  im_minY :: int
  im_w :: int
  im_h :: int
  im_pix :: "8 word list"

type_synonym rect = "int \<times> int \<times> int \<times> int"

definition PixOffset :: "nrgba \<Rightarrow> int \<Rightarrow> int \<Rightarrow> int" where
  "PixOffset img x y = (y - im_minY img) * (4 * im_w img) + (x - im_minX img) * 4"

text \<open>
  \<open>image.NewNRGBA(image.Rect(0, 0, w, h))\<close>: a zeroed image, a panic when the buffer size
  overflows or exceeds what the runtime can address (2^48 bytes).
\<close>

definition NewNRGBA :: "int \<Rightarrow> int \<Rightarrow> nrgba option" where
  "NewNRGBA w h =
     (let dx = wrap64 (max 0 w - min 0 w); dy = wrap64 (max 0 h - min 0 h) in
      if dx < 0 \<or> dy < 0 \<or> 2 ^ 48 < 4 * dx * dy then None
      else Some \<lparr>im_minX = min 0 w, im_minY = min 0 h, im_w = dx, im_h = dy,
                 im_pix = replicate (nat (4 * dx * dy)) 0\<rparr>)"

section \<open>The codecs\<close>

datatype decoded = DecodedNRGBA nrgba | DecodedOther int int "8 word list"

record codec =
  c_DecodeConfig :: "bytes \<Rightarrow> (int \<times> int \<times> string) option"
  c_Decode :: "bytes \<Rightarrow> decoded option"
  c_gifFrames :: "bytes \<Rightarrow> nat option"
  c_scale :: "nrgba \<Rightarrow> rect \<Rightarrow> nrgba \<Rightarrow> 8 word list"
  c_overWhite :: "nrgba \<Rightarrow> 8 word list"
  c_jpeg :: "nrgba \<Rightarrow> int \<Rightarrow> bytes option"
  c_png :: "nrgba \<Rightarrow> bytes option"
  c_gif :: "nrgba \<Rightarrow> bytes option"

definition isAnimated :: "codec \<Rightarrow> bytes \<Rightarrow> bool" where
  "isAnimated x src = (case c_gifFrames x src of Some n \<Rightarrow> n > 1 | None \<Rightarrow> False)"

fun toNRGBA :: "decoded \<Rightarrow> nrgba" where
  "toNRGBA (DecodedNRGBA n) = n"
| "toNRGBA (DecodedOther dx dy px) = \<lparr>im_minX = 0, im_minY = 0, im_w = dx, im_h = dy, im_pix = px\<rparr>"

section \<open>Resizing\<close>

definition defaultMaxDim :: int where "defaultMaxDim = 2048"

definition scaleDim :: "int \<Rightarrow> float64 \<Rightarrow> int" where
  "scaleDim side dpr =
     (if side = 0 then 0 else min (float_to_int (float_add_half (float_mul side dpr))) MaxDim)"

definition scaleTo :: "codec \<Rightarrow> nrgba \<Rightarrow> rect \<Rightarrow> int \<Rightarrow> int \<Rightarrow> nrgba option" where
  "scaleTo x img srcRect w h =
     (case NewNRGBA w h of
        None \<Rightarrow> None
      | Some dst \<Rightarrow> Some (dst\<lparr>im_pix := c_scale x img srcRect dst\<rparr>))"

definition bounds :: "nrgba \<Rightarrow> rect" where
  "bounds img = (im_minX img, im_minY img, im_minX img + im_w img, im_minY img + im_h img)"

text \<open>The dimensions a request asks for; \<open>None\<close> when it asks for none and the source is small.\<close>

definition asked_dims :: "int \<Rightarrow> int \<Rightarrow> params \<Rightarrow> (int \<times> int) option" where
  "asked_dims sw sh p =
     (let reqW = scaleDim (pm_Width p) (pm_DPR p); reqH = scaleDim (pm_Height p) (pm_DPR p) in
      if reqW = 0 \<and> reqH = 0 then
        if sw \<le> defaultMaxDim \<and> sh \<le> defaultMaxDim then None
        else if sw \<ge> sh then Some (defaultMaxDim, reqH)
        else Some (reqW, defaultMaxDim)
      else Some (reqW, reqH))"

text \<open>A missing dimension keeps the aspect ratio. Division by zero panics.\<close>

definition derived :: "int \<Rightarrow> int \<Rightarrow> int \<Rightarrow> int option" where
  "derived a req b = (if b = 0 then None else Some (max 1 (go_div (wrap64 (a * req)) b)))"

definition box_dims :: "int \<Rightarrow> int \<Rightarrow> int \<Rightarrow> int \<Rightarrow> (int \<times> int) option" where
  "box_dims sw sh askedW askedH =
     (case (if askedW = 0 then derived sw askedH sh else Some askedW) of
        None \<Rightarrow> None
      | Some reqW \<Rightarrow>
          (case (if askedH = 0 then derived sh reqW sw else Some askedH) of
             None \<Rightarrow> None
           | Some reqH \<Rightarrow> Some (reqW, reqH)))"

definition crop_dims :: "int \<Rightarrow> int \<Rightarrow> int \<Rightarrow> int \<Rightarrow> int \<times> int" where
  "crop_dims sw sh reqW reqH =
     (if wrap64 (sw * reqH) > wrap64 (sh * reqW)
      then (max 1 (go_div (wrap64 (sh * reqW)) reqH), sh)
      else (sw, max 1 (go_div (wrap64 (sw * reqH)) reqW)))"

definition fit_ratio :: "int \<Rightarrow> int \<Rightarrow> int \<Rightarrow> int \<Rightarrow> float64" where
  "fit_ratio sw sh askedW askedH =
     (if askedW > 0 \<and> askedH > 0 then float_min (float_div askedW sw) (float_div askedH sh)
      else if askedW > 0 then float_div askedW sw
      else float_div askedH sh)"

definition fitted :: "int \<Rightarrow> float64 \<Rightarrow> int" where
  "fitted side ratio = max 1 (float_to_int (float_add_half (float_mul side ratio)))"

definition resize :: "codec \<Rightarrow> nrgba \<Rightarrow> params \<Rightarrow> nrgba option" where
  "resize x img p =
     (let sw = im_w img; sh = im_h img in
      case asked_dims sw sh p of
        None \<Rightarrow> Some img
      | Some (askedW, askedH) \<Rightarrow>
          (case box_dims sw sh askedW askedH of
             None \<Rightarrow> None
           | Some (reqW, reqH) \<Rightarrow>
               (case pm_Fit p of
                  FitFill \<Rightarrow> scaleTo x img (bounds img) reqW reqH
                | FitCover \<Rightarrow>
                    (let (cropW, cropH) = crop_dims sw sh reqW reqH;
                         x0 = im_minX img + go_div (sw - cropW) 2;
                         y0 = im_minY img + go_div (sh - cropH) 2
                     in scaleTo x img (x0, y0, x0 + cropW, y0 + cropH) reqW reqH)
                | _ \<Rightarrow>
                    (let ratio = fit_ratio sw sh askedW askedH in
                     if pm_Fit p = FitScaleDown \<and> float_ge_one ratio then Some img
                     else scaleTo x img (bounds img) (fitted sw ratio) (fitted sh ratio)))))"

section \<open>Pixels\<close>

definition write_at :: "'a list \<Rightarrow> nat \<Rightarrow> 'a list \<Rightarrow> 'a list" where
  "write_at xs i ys = take i xs @ ys @ drop (i + length ys) xs"

definition read4 :: "8 word list \<Rightarrow> nat \<Rightarrow> 8 word list" where
  "read4 pix i = take 4 (drop i pix)"

definition flip_pixel :: "nrgba \<Rightarrow> bool \<Rightarrow> bool \<Rightarrow> nat \<Rightarrow> nat \<Rightarrow> nrgba \<Rightarrow> nrgba" where
  "flip_pixel img horizontal vertical y xx dst =
     (let w = im_w img; h = im_h img;
          sy = (if vertical then h - 1 - int y else int y);
          sx = (if horizontal then w - 1 - int xx else int xx);
          si = PixOffset img (im_minX img + sx) (im_minY img + sy);
          di = PixOffset dst (int xx) (int y)
      in dst\<lparr>im_pix := write_at (im_pix dst) (nat di) (read4 (im_pix img) (nat si))\<rparr>)"

definition flip :: "nrgba \<Rightarrow> bool \<Rightarrow> bool \<Rightarrow> nrgba option" where
  "flip img horizontal vertical =
     (case NewNRGBA (im_w img) (im_h img) of
        None \<Rightarrow> None
      | Some dst \<Rightarrow>
          Some (fold (\<lambda>y. fold (\<lambda>xx. flip_pixel img horizontal vertical y xx) [0..<nat (im_w img)])
                 [0..<nat (im_h img)] dst))"

fun gray_pix :: "8 word list \<Rightarrow> 8 word list" where
  "gray_pix (r # g # b # a # rest) =
     (let l = word_of_int ((299 * uint r + 587 * uint g + 114 * uint b) div 1000)
      in l # l # l # a # gray_pix rest)"
| "gray_pix rest = rest"

definition grayscale :: "nrgba \<Rightarrow> nrgba" where
  "grayscale img = img\<lparr>im_pix := gray_pix (im_pix img)\<rparr>"

section \<open>Blur\<close>

definition clampInt :: "int \<Rightarrow> int \<Rightarrow> int \<Rightarrow> int" where
  "clampInt v lo hi = (if v < lo then lo else if v > hi then hi else v)"

definition blur_idx :: "nat \<Rightarrow> bool \<Rightarrow> nat \<Rightarrow> nat \<Rightarrow> nat" where
  "blur_idx w horizontal k i = (if horizontal then (k * w + i) * 4 else (i * w + k) * 4)"

text \<open>The value of channel \<open>c\<close> at position \<open>i\<close> of the line buffer.\<close>

definition line_at :: "8 word list \<Rightarrow> int \<Rightarrow> nat \<Rightarrow> int" where
  "line_at line i c = uint (line ! (nat i * 4 + c))"

definition window_sum :: "8 word list \<Rightarrow> nat \<Rightarrow> int \<Rightarrow> nat \<Rightarrow> int" where
  "window_sum line inner radius c =
     (\<Sum>i \<leftarrow> [- radius .. radius]. line_at line (clampInt i 0 (int inner - 1)) c)"

definition blur_step ::
  "8 word list \<Rightarrow> nat \<Rightarrow> int \<Rightarrow> (nat \<Rightarrow> nat) \<Rightarrow> nat \<Rightarrow> 8 word list \<times> int list \<Rightarrow> 8 word list \<times> int list" where
  "blur_step line inner radius idx i = (\<lambda>(pix, acc).
     let window = 2 * radius + 1;
         enter = clampInt (int i + radius + 1) 0 (int inner - 1);
         exitI = clampInt (int i - radius) 0 (int inner - 1)
     in (write_at pix (idx i) (map (\<lambda>s. word_of_int (go_div s window)) acc),
         map (\<lambda>c. acc ! c + line_at line enter c - line_at line exitI c) [0..<4]))"

definition blur_line :: "nat \<Rightarrow> int \<Rightarrow> (nat \<Rightarrow> nat) \<Rightarrow> 8 word list \<Rightarrow> 8 word list" where
  "blur_line inner radius idx pix =
     (let line = concat (map (\<lambda>i. read4 pix (idx i)) [0..<inner]);
          acc = map (window_sum line inner radius) [0..<4]
      in fst (fold (blur_step line inner radius idx) [0..<inner] (pix, acc)))"

definition blurAxis :: "8 word list \<Rightarrow> nat \<Rightarrow> nat \<Rightarrow> int \<Rightarrow> bool \<Rightarrow> 8 word list" where
  "blurAxis pix w h radius horizontal =
     (let outer = (if horizontal then h else w); inner = (if horizontal then w else h) in
      fold (\<lambda>k. blur_line inner radius (blur_idx w horizontal k)) [0..<outer] pix)"

definition boxBlur :: "nrgba \<Rightarrow> int \<Rightarrow> nrgba" where
  "boxBlur img radius =
     (if radius < 1 then img
      else
        let w = nat (im_w img); h = nat (im_h img);
            pass = (\<lambda>pix. blurAxis (blurAxis pix w h radius True) w h radius False)
        in img\<lparr>im_pix := pass (pass (im_pix img))\<rparr>)"

section \<open>Encoding\<close>

fun has_alpha :: "8 word list \<Rightarrow> bool" where
  "has_alpha (r # g # b # a # rest) = (a \<noteq> 0xFF \<or> has_alpha rest)"
| "has_alpha rest = False"

definition hasAlpha :: "nrgba \<Rightarrow> bool" where
  "hasAlpha img = has_alpha (im_pix img)"

datatype transform_error =
    Unsupported
  | DimensionsExceedLimits int int
  | EncodingFails
  | UnhandledFormat
  | Panics

record img_result =
  res_Data :: bytes
  res_ContentType :: string

definition encoded :: "bytes option \<Rightarrow> string \<Rightarrow> transform_error + img_result" where
  "encoded data ct =
     (case data of None \<Rightarrow> Inl EncodingFails | Some d \<Rightarrow> Inr \<lparr>res_Data = d, res_ContentType = ct\<rparr>)"

definition encode :: "codec \<Rightarrow> nrgba \<Rightarrow> params \<Rightarrow> transform_error + img_result" where
  "encode x img p =
     (let format = (if pm_Format p = FormatAuto then if hasAlpha img then FormatPNG else FormatJPEG
                    else pm_Format p)
      in case format of
           FormatJPEG \<Rightarrow>
             (let flat = (if hasAlpha img then img\<lparr>im_pix := c_overWhite x img\<rparr> else img)
              in encoded (c_jpeg x flat (pm_Quality p)) ''image/jpeg'')
         | FormatPNG \<Rightarrow> encoded (c_png x img) ''image/png''
         | FormatGIF \<Rightarrow> encoded (c_gif x img) ''image/gif''
         | FormatAuto \<Rightarrow> Inl UnhandledFormat)"

section \<open>The pipeline\<close>

definition apply_effects :: "params \<Rightarrow> nrgba \<Rightarrow> nrgba" where
  "apply_effects p img =
     (let gray = (if pm_Gray p then grayscale img else img)
      in if float_less (Finite 0) (pm_Blur p)
         then boxBlur gray (float_to_int (float_add_half (pm_Blur p))) else gray)"

definition Transform :: "codec \<Rightarrow> bytes \<Rightarrow> params \<Rightarrow> transform_error + img_result" where
  "Transform x src p =
     (case c_DecodeConfig x src of
        None \<Rightarrow> Inl Unsupported
      | Some (cw, ch, srcFormat) \<Rightarrow>
          if cw \<le> 0 \<or> ch \<le> 0 \<or> wrap64 (cw * ch) > maxSrcPixels then Inl (DimensionsExceedLimits cw ch)
          else if srcFormat = ''gif'' \<and> isAnimated x src then
            Inr \<lparr>res_Data = src, res_ContentType = ''image/gif''\<rparr>
          else
            (case c_Decode x src of
               None \<Rightarrow> Inl Unsupported
             | Some decoded \<Rightarrow>
                 (case resize x (toNRGBA decoded) p of
                    None \<Rightarrow> Inl Panics
                  | Some img \<Rightarrow>
                      (case (if pm_FlipH p \<or> pm_FlipV p then flip img (pm_FlipH p) (pm_FlipV p) else Some img) of
                         None \<Rightarrow> Inl Panics
                       | Some img \<Rightarrow> encode x (apply_effects p img) p))))"

end
