(* ===== verification/TransformInv.thy ===== *)
theory TransformInv
  imports Transform
begin

text \<open>
  Lemmas on pixels: writing disjoint groups of four bytes, the pixels of a flipped image, the
  sliding window of the blur.
\<close>

section \<open>Writing groups of four\<close>

lemma length_write_at [simp]: "i + length ys \<le> length xs \<Longrightarrow> length (write_at xs i ys) = length xs"
  by (simp add: write_at_def)

lemma nth_write_at:
  assumes "i + length ys \<le> length xs" and "j < length xs"
  shows "write_at xs i ys ! j = (if i \<le> j \<and> j < i + length ys then ys ! (j - i) else xs ! j)"
  using assms by (auto simp: write_at_def nth_append min_def)

lemma read4_nth: "i + 4 \<le> length xs \<Longrightarrow> read4 xs i = map (\<lambda>c. xs ! (i + c)) [0..<4]"
  by (auto simp: read4_def intro!: nth_equalityI)

lemma length_read4 [simp]: "i + 4 \<le> length xs \<Longrightarrow> length (read4 xs i) = 4"
  by (simp add: read4_def)

lemma read4_write_at:
  assumes "length ys = 4" and "4 * i + 4 \<le> length xs" and "4 * j + 4 \<le> length xs"
  shows "read4 (write_at xs (4 * i) ys) (4 * j) = (if i = j then ys else read4 xs (4 * j))"
proof (cases "i = j")
  case True
  with assms show ?thesis by (simp add: read4_def write_at_def)
next
  case False
  have "\<not> (4 * i \<le> 4 * j + c \<and> 4 * j + c < 4 * i + 4)" if "c < 4" for c
    using False that by linarith
  with assms False show ?thesis by (auto simp: read4_nth nth_write_at)
qed

text \<open>Two pixel buffers agree when their groups do.\<close>

lemma pix_eqI:
  assumes "length xs = 4 * n" and "length ys = 4 * n" and "\<And>k. k < n \<Longrightarrow> read4 xs (4 * k) = read4 ys (4 * k)"
  shows "xs = ys"
proof (rule nth_equalityI)
  fix j assume "j < length xs"
  then have k: "j div 4 < n" "j = 4 * (j div 4) + j mod 4" "j mod 4 < 4" using assms(1) by auto
  then have "read4 xs (4 * (j div 4)) ! (j mod 4) = read4 ys (4 * (j div 4)) ! (j mod 4)"
    using assms(3) by simp
  moreover have "4 * (j div 4) + 4 \<le> 4 * n" using k(1) by linarith
  ultimately show "xs ! j = ys ! j"
    using k(2,3) assms(1,2) by (simp add: read4_def)
qed (use assms in simp)

lemma fold_write4:
  assumes "\<And>k. k \<in> set ks \<Longrightarrow> length (g k) = 4 \<and> 4 * f k + 4 \<le> length pix"
    and "inj_on f (set ks)" and "distinct ks"
  shows "length (fold (\<lambda>k px. write_at px (4 * f k) (g k)) ks pix) = length pix"
    and "k \<in> set ks \<Longrightarrow> read4 (fold (\<lambda>k px. write_at px (4 * f k) (g k)) ks pix) (4 * f k) = g k"
    and "4 * m + 4 \<le> length pix \<Longrightarrow> m \<notin> f ` set ks \<Longrightarrow>
      read4 (fold (\<lambda>k px. write_at px (4 * f k) (g k)) ks pix) (4 * m) = read4 pix (4 * m)"
proof -
  let ?F = "\<lambda>ks pix. fold (\<lambda>k px. write_at px (4 * f k) (g k)) ks pix"
  have frame: "length (?F ks pix) = length pix \<and>
      (4 * m + 4 \<le> length pix \<longrightarrow> m \<notin> f ` set ks \<longrightarrow> read4 (?F ks pix) (4 * m) = read4 pix (4 * m))"
    if "\<And>k. k \<in> set ks \<Longrightarrow> length (g k) = 4 \<and> 4 * f k + 4 \<le> length pix" for ks pix m
    using that by (induction ks arbitrary: pix) (simp_all add: read4_write_at)
  show "length (?F ks pix) = length pix" using frame assms(1) by blast
  show "4 * m + 4 \<le> length pix \<Longrightarrow> m \<notin> f ` set ks \<Longrightarrow> read4 (?F ks pix) (4 * m) = read4 pix (4 * m)"
    using frame assms(1) by blast
  show "k \<in> set ks \<Longrightarrow> read4 (?F ks pix) (4 * f k) = g k"
    using assms
  proof (induction ks arbitrary: pix)
    case (Cons l ks)
    let ?p = "write_at pix (4 * f l) (g l)"
    have l: "length (g l) = 4" "4 * f l + 4 \<le> length pix" using Cons.prems(2) [of l] by auto
    then have len: "length ?p = length pix" by simp
    show ?case
    proof (cases "k = l")
      case True
      then have "k \<notin> set ks" "f k \<notin> f ` set ks"
        using Cons.prems(3,4) by (auto simp: inj_on_def)
      moreover have "read4 (?F ks ?p) (4 * f k) = read4 ?p (4 * f k)"
        using frame [of ks ?p "f k"] Cons.prems(2) len \<open>f k \<notin> f ` set ks\<close> l True by auto
      ultimately show ?thesis using l True by (simp add: read4_write_at)
    next
      case False
      with Cons.prems len show ?thesis by (simp add: Cons.IH inj_on_def)
    qed
  qed simp
qed

section \<open>Flipping\<close>

lemma fold_product:
  "fold (\<lambda>y. fold (f y) xs) ys s = fold (\<lambda>(y, x). f y x) (List.product ys xs) s"
  by (induction ys arbitrary: s) (simp_all add: fold_map o_def)

text \<open>An image whose buffer matches its size.\<close>

definition image_ok :: "nrgba \<Rightarrow> bool" where
  "image_ok img \<longleftrightarrow> 0 \<le> im_w img \<and> 0 \<le> im_h img \<and> int (length (im_pix img)) = 4 * im_w img * im_h img \<and>
     4 * im_w img * im_h img \<le> 2 ^ 48 \<and> im_w img < 2 ^ 63 \<and> im_h img < 2 ^ 63"

text \<open>The pixel in column \<open>xx\<close> and row \<open>y\<close> of an image.\<close>

definition pixel :: "nrgba \<Rightarrow> nat \<Rightarrow> nat \<Rightarrow> 8 word list" where
  "pixel img xx y = read4 (im_pix img) (nat (PixOffset img (im_minX img + int xx) (im_minY img + int y)))"

lemma PixOffset_nat:
  "0 \<le> im_w img \<Longrightarrow> nat (PixOffset img (im_minX img + int xx) (im_minY img + int y)) = 4 * (y * nat (im_w img) + xx)"
proof -
  assume "0 \<le> im_w img"
  then obtain w where w: "im_w img = int w" by (metis nat_0_le)
  have "PixOffset img (im_minX img + int xx) (im_minY img + int y) = int (4 * (y * w + xx))"
    by (simp add: PixOffset_def w algebra_simps)
  then show ?thesis unfolding w by (simp only: nat_int)
qed

lemma NewNRGBA_ok:
  assumes "image_ok img"
  shows "NewNRGBA (im_w img) (im_h img) =
    Some \<lparr>im_minX = 0, im_minY = 0, im_w = im_w img, im_h = im_h img,
      im_pix = replicate (nat (4 * im_w img * im_h img)) 0\<rparr>"
  using assms by (simp add: NewNRGBA_def image_ok_def int64_def Let_def mult.commute)

definition flip_source :: "bool \<Rightarrow> nat \<Rightarrow> nat \<Rightarrow> nat" where
  "flip_source on n i = (if on then n - 1 - i else i)"

lemma flip_source_less: "i < n \<Longrightarrow> flip_source b n i < n"
  by (auto simp: flip_source_def)

lemma flip_source_twice [simp]: "i < n \<Longrightarrow> flip_source b n (flip_source b n i) = i"
  by (auto simp: flip_source_def)

lemma block_div [simp]: "x < w \<Longrightarrow> (y * w + x) div w = y" "x < w \<Longrightarrow> (y * w + x) mod w = (x :: nat)"
  by (simp_all add: div_add1_eq)

lemma block_inj: "x < w \<Longrightarrow> x' < w \<Longrightarrow> y * w + x = y' * w + x' \<longleftrightarrow> y = y' \<and> x = (x' :: nat)"
  by (metis block_div)

lemma block_less: "x < w \<Longrightarrow> y < h \<Longrightarrow> y * w + x < w * (h :: nat)"
proof -
  assume "x < w" "y < h"
  then have "y * w + x < Suc y * w" by simp
  also have "\<dots> \<le> h * w" using \<open>y < h\<close> by (intro mult_le_mono1) simp
  finally show ?thesis by (simp add: mult.commute)
qed


lemma flip_pixel_write:
  assumes "im_w img = int w" "im_h img = int h" and "xx < w" "y < h"
    and "im_minX d = 0" "im_minY d = 0" "im_w d = int w"
  shows "flip_pixel img hz vt y xx d =
    d\<lparr>im_pix := write_at (im_pix d) (4 * (y * w + xx)) (pixel img (flip_source hz w xx) (flip_source vt h y))\<rparr>"
proof -
  have "(if hz then int w - 1 - int xx else int xx) = int (flip_source hz w xx)"
    "(if vt then int h - 1 - int y else int y) = int (flip_source vt h y)"
    using assms(3,4) by (simp_all add: flip_source_def of_nat_diff)
  then have src: "read4 (im_pix img) (nat (PixOffset img (im_minX img + (if hz then int w - 1 - int xx else int xx))
      (im_minY img + (if vt then int h - 1 - int y else int y)))) =
      pixel img (flip_source hz w xx) (flip_source vt h y)"
    unfolding pixel_def by (simp only: prod.case)
  show ?thesis
    using src PixOffset_nat [of d xx y] assms(3-7) by (simp add: flip_pixel_def Let_def assms(1,2))
qed

lemma flip_pixel_run:
  assumes "im_w img = int w" "im_h img = int h" and "set ks \<subseteq> set (List.product [0..<h] [0..<w])"
    and "im_minX d = 0" "im_minY d = 0" "im_w d = int w"
  shows "fold (\<lambda>(y, xx). flip_pixel img hz vt y xx) ks d =
    d\<lparr>im_pix := fold (\<lambda>k px. write_at px (4 * (\<lambda>(y, xx). y * w + xx) k)
      ((\<lambda>(y, xx). pixel img (flip_source hz w xx) (flip_source vt h y)) k)) ks (im_pix d)\<rparr>"
  using assms(3-6)
proof (induction ks arbitrary: d)
  case (Cons k ks)
  obtain y xx where k: "k = (y, xx)" by (cases k)
  with Cons.prems(1) have "xx < w" "y < h" by auto
  from flip_pixel_write [OF assms(1,2) this Cons.prems(2-4)] Cons show ?case by (simp add: k)
qed simp

lemma flip_pixels:
  assumes "image_ok img"
  shows "\<exists>out. flip img hz vt = Some out \<and> image_ok out \<and> im_minX out = 0 \<and> im_minY out = 0 \<and>
    im_w out = im_w img \<and> im_h out = im_h img \<and>
    (\<forall>xx < nat (im_w img). \<forall>y < nat (im_h img). pixel out xx y =
       pixel img (flip_source hz (nat (im_w img)) xx) (flip_source vt (nat (im_h img)) y))"
proof -
  obtain w h where wh: "im_w img = int w" "im_h img = int h"
    using assms by (metis image_ok_def nat_0_le)
  have "int (length (im_pix img)) = int (4 * w * h)"
    using assms by (simp add: image_ok_def wh)
  then have len: "length (im_pix img) = 4 * w * h" by (simp only: of_nat_eq_iff)
  let ?dst = "\<lparr>im_minX = 0, im_minY = 0, im_w = int w, im_h = int h, im_pix = replicate (4 * w * h) (0 :: 8 word)\<rparr>"
  let ?f = "\<lambda>(y, xx). y * w + xx"
  let ?g = "\<lambda>(y, xx). pixel img (flip_source hz w xx) (flip_source vt h y)"
  let ?ks = "List.product [0..<h] [0..<w]"
  let ?out = "?dst\<lparr>im_pix := fold (\<lambda>k px. write_at px (4 * ?f k) (?g k)) ?ks (im_pix ?dst)\<rparr>"
  have new: "NewNRGBA (im_w img) (im_h img) = Some ?dst"
    using NewNRGBA_ok [OF assms] by (simp add: wh nat_mult_distrib)
  have "flip img hz vt = Some (fold (\<lambda>y. fold (flip_pixel img hz vt y) [0..<w]) [0..<h] ?dst)"
    unfolding flip_def new by (simp add: wh)
  then have out: "flip img hz vt = Some ?out"
    using flip_pixel_run [OF wh, of ?ks ?dst hz vt]
      fold_product [of "flip_pixel img hz vt" "[0..<w]" "[0..<h]" ?dst] by simp
  have blocks: "length (?g k) = 4 \<and> 4 * ?f k + 4 \<le> length (im_pix ?dst)" if ks: "k \<in> set ?ks" for k
  proof -
    obtain y xx where k: "k = (y, xx)" "xx < w" "y < h" using ks by auto
    have "4 * (flip_source vt h y * w + flip_source hz w xx) + 4 \<le> 4 * w * h"
      using block_less [OF flip_source_less [OF k(2), of hz] flip_source_less [OF k(3), of vt]] by simp
    then have "length (pixel img (flip_source hz w xx) (flip_source vt h y)) = 4"
      using PixOffset_nat [of img "flip_source hz w xx" "flip_source vt h y"] len
      by (simp add: pixel_def wh)
    then show ?thesis using block_less [OF k(2,3)] by (simp add: k(1))
  qed
  have inj: "inj_on ?f (set ?ks)"
    by (auto simp: inj_on_def block_inj)
  have dist: "distinct ?ks" by (simp add: distinct_product)
  note res = fold_write4 [where f = ?f and g = ?g, OF blocks inj dist]
  have "length (im_pix ?out) = 4 * w * h" using res(1) by simp
  then have ok: "image_ok ?out" using assms by (simp add: image_ok_def wh)
  have "pixel ?out xx y = pixel img (flip_source hz w xx) (flip_source vt h y)" if "xx < w" "y < h" for xx y
    using res(2) [of "(y, xx)"] that PixOffset_nat [of ?out xx y] by (simp add: pixel_def)
  with out ok show ?thesis by (simp add: wh)
qed

end
