(* ===== verification/BlurInv.thy ===== *)
theory BlurInv
  imports TransformInv
begin

text \<open>
  The blur: the sliding window of a line is the sum over the window at every position, a line is
  written without disturbing the others, so an axis pass replaces every byte by the mean of its
  window in the original picture.
\<close>

section \<open>The sliding window\<close>

definition window_at :: "8 word list \<Rightarrow> nat \<Rightarrow> int \<Rightarrow> int \<Rightarrow> nat \<Rightarrow> int" where
  "window_at line inner radius i c =
     (\<Sum>j \<leftarrow> [- radius .. radius]. line_at line (clampInt (i + j) 0 (int inner - 1)) c)"

lemma window_slides:
  assumes "0 \<le> radius"
  shows "window_at line inner radius (i + 1) c =
    window_at line inner radius i c + line_at line (clampInt (i + radius + 1) 0 (int inner - 1)) c -
    line_at line (clampInt (i - radius) 0 (int inner - 1)) c"
proof -
  let ?g = "\<lambda>q. line_at line (clampInt q 0 (int inner - 1)) c"
  have conv: "window_at line inner radius q c = (\<Sum>j \<in> {q - radius .. q + radius}. ?g j)" for q
  proof -
    have "window_at line inner radius q c = (\<Sum>j \<in> {- radius .. radius}. ?g (q + j))"
      by (simp add: window_at_def interv_sum_list_conv_sum_set_int)
    also have "\<dots> = (\<Sum>j \<in> {q - radius .. q + radius}. ?g j)"
      by (rule sum.reindex_bij_witness [of _ "\<lambda>j. j - q" "\<lambda>j. q + j"]) auto
    finally show ?thesis .
  qed
  have "{i - radius .. i + 1 + radius} = insert (i + 1 + radius) {i - radius .. i + radius}"
    using assms by auto
  then have *: "(\<Sum>j \<in> {i - radius .. i + 1 + radius}. ?g j) =
      ?g (i + 1 + radius) + (\<Sum>j \<in> {i - radius .. i + radius}. ?g j)" by simp
  have "{i - radius .. i + 1 + radius} = insert (i - radius) {i + 1 - radius .. i + 1 + radius}"
    using assms by auto
  then have "(\<Sum>j \<in> {i - radius .. i + 1 + radius}. ?g j) =
      ?g (i - radius) + (\<Sum>j \<in> {i + 1 - radius .. i + 1 + radius}. ?g j)" by simp
  with * show ?thesis unfolding conv by (simp add: add.commute add.left_commute)
qed

definition blur_vals :: "8 word list \<Rightarrow> nat \<Rightarrow> int \<Rightarrow> nat \<Rightarrow> 8 word list" where
  "blur_vals line inner radius i =
     map (\<lambda>c. word_of_int (go_div (window_at line inner radius (int i) c) (2 * radius + 1))) [0..<4]"

lemma length_blur_vals [simp]: "length (blur_vals line inner radius i) = 4"
  by (simp add: blur_vals_def)

lemma upt4: "[0..<4] = [0, 1, 2, 3 :: nat]"
  by (simp add: upt_rec)

lemma blur_loop:
  assumes "0 \<le> radius"
  shows "fold (blur_step line inner radius idx) [0..<n] (pix, map (window_at line inner radius 0) [0..<4]) =
    (fold (\<lambda>i px. write_at px (idx i) (blur_vals line inner radius i)) [0..<n] pix,
     map (window_at line inner radius (int n)) [0..<4])"
proof (induction n)
  case (Suc n)
  have "map (\<lambda>c. map (window_at line inner radius (int n)) [0..<4] ! c +
        line_at line (clampInt (int n + radius + 1) 0 (int inner - 1)) c -
        line_at line (clampInt (int n - radius) 0 (int inner - 1)) c) [0..<4] =
      map (window_at line inner radius (int (Suc n))) [0..<4]"
    using window_slides [OF assms, of line inner "int n"] by (simp add: add.commute)
  then show ?case
    using Suc by (simp add: blur_step_def Let_def blur_vals_def o_def)
qed simp

lemma window_sum_at: "window_sum line inner radius = window_at line inner radius 0"
  by (simp add: fun_eq_iff window_sum_def window_at_def)

section \<open>Lines\<close>

definition the_line :: "8 word list \<Rightarrow> nat \<Rightarrow> (nat \<Rightarrow> nat) \<Rightarrow> 8 word list" where
  "the_line pix inner f = concat (map (\<lambda>i. read4 pix (4 * f i)) [0..<inner])"

lemma blur_line_writes:
  assumes "0 \<le> radius"
  shows "blur_line inner radius (\<lambda>i. 4 * f i) pix =
    fold (\<lambda>i px. write_at px (4 * f i) (blur_vals (the_line pix inner f) inner radius i)) [0..<inner] pix"
  using blur_loop [OF assms, of "the_line pix inner f" inner "\<lambda>i. 4 * f i" inner pix]
  by (simp add: blur_line_def Let_def window_sum_at the_line_def)

lemma the_line_length:
  assumes "\<And>i. i < inner \<Longrightarrow> 4 * f i + 4 \<le> length pix"
  shows "length (the_line pix inner f) = 4 * inner"
  using assms by (induction inner) (simp_all add: the_line_def)

lemma the_line_nth:
  assumes "\<And>i. i < inner \<Longrightarrow> 4 * f i + 4 \<le> length pix" and "i < inner" and "c < 4"
  shows "the_line pix inner f ! (i * 4 + c) = pix ! (4 * f i + c)"
  using assms
proof (induction inner)
  case (Suc n)
  have line: "the_line pix (Suc n) f = the_line pix n f @ read4 pix (4 * f n)" by (simp add: the_line_def)
  have len: "length (the_line pix n f) = 4 * n" using Suc.prems(1) by (intro the_line_length) simp
  show ?case
  proof (cases "i = n")
    case True
    then show ?thesis
      using len Suc.prems by (simp add: line nth_append mult.commute read4_nth)
  next
    case False
    then have "i < n" "i * 4 + c < 4 * n" using Suc.prems(2,3) by auto
    then show ?thesis using Suc len by (simp add: line nth_append)
  qed
qed simp

text \<open>The line depends only on its own groups.\<close>

lemma the_line_cong:
  "(\<And>i. i < inner \<Longrightarrow> read4 px (4 * f i) = read4 pix (4 * f i)) \<Longrightarrow> the_line px inner f = the_line pix inner f"
  unfolding the_line_def by (intro arg_cong [of _ _ concat] map_cong) auto

section \<open>An axis\<close>

lemma blur_lines:
  assumes "0 \<le> radius" and "\<And>k i. k < outer \<Longrightarrow> i < inner \<Longrightarrow> 4 * f k i + 4 \<le> length pix"
    and "\<And>k i k' i'. k < outer \<Longrightarrow> i < inner \<Longrightarrow> k' < outer \<Longrightarrow> i' < inner \<Longrightarrow>
      f k i = f k' i' \<Longrightarrow> k = k' \<and> i = i'"
    and "n \<le> outer"
  shows "length (fold (\<lambda>k. blur_line inner radius (\<lambda>i. 4 * f k i)) [0..<n] pix) = length pix \<and>
    (\<forall>k < outer. \<forall>i < inner.
       read4 (fold (\<lambda>k. blur_line inner radius (\<lambda>i. 4 * f k i)) [0..<n] pix) (4 * f k i) =
         (if k < n then blur_vals (the_line pix inner (f k)) inner radius i else read4 pix (4 * f k i)))"
  using assms(4)
proof (induction n)
  case (Suc n)
  let ?px = "fold (\<lambda>k. blur_line inner radius (\<lambda>i. 4 * f k i)) [0..<n] pix"
  let ?new = "blur_line inner radius (\<lambda>i. 4 * f n i) ?px"
  have n: "n < outer" "length ?px = length pix" using Suc by auto
  have "read4 ?px (4 * f n i) = read4 pix (4 * f n i)" if "i < inner" for i
    using Suc n(1) that by simp
  then have line: "the_line ?px inner (f n) = the_line pix inner (f n)" by (rule the_line_cong)
  have new: "?new = fold (\<lambda>i px. write_at px (4 * f n i) (blur_vals (the_line pix inner (f n)) inner radius i))
      [0..<inner] ?px"
    using blur_line_writes [OF assms(1), of inner "f n" ?px] by (simp add: line)
  have blocks: "length (blur_vals (the_line pix inner (f n)) inner radius i) = 4 \<and> 4 * f n i + 4 \<le> length ?px"
    if "i \<in> set [0..<inner]" for i
    using that assms(2) [OF n(1)] n(2) by simp
  have inj: "inj_on (f n) (set [0..<inner])"
    using assms(3) [OF n(1) _ n(1)] by (auto simp: inj_on_def)
  note res = fold_write4 [where f = "f n" and g = "blur_vals (the_line pix inner (f n)) inner radius",
      OF blocks inj distinct_upt, folded new]
  have "read4 ?new (4 * f k i) =
      (if k < Suc n then blur_vals (the_line pix inner (f k)) inner radius i else read4 pix (4 * f k i))"
    if "k < outer" "i < inner" for k i
  proof (cases "k = n")
    case True
    with res(2) [of i] that show ?thesis by simp
  next
    case False
    have "f k i \<notin> f n ` set [0..<inner]"
    proof
      assume "f k i \<in> f n ` set [0..<inner]"
      then obtain x where "x < inner" "f k i = f n x" by auto
      with assms(3) [OF that n(1)] False show False by blast
    qed
    with res(3) [of "f k i"] assms(2) [OF that] n(2) have "read4 ?new (4 * f k i) = read4 ?px (4 * f k i)"
      by simp
    with Suc n(1) that False show ?thesis by (auto simp: less_Suc_eq)
  qed
  with res(1) n(2) show ?case by simp
qed simp

definition axis_block :: "nat \<Rightarrow> bool \<Rightarrow> nat \<Rightarrow> nat \<Rightarrow> nat" where
  "axis_block w horizontal k i = (if horizontal then k * w + i else i * w + k)"

lemma blur_idx_block: "blur_idx w horizontal k = (\<lambda>i. 4 * axis_block w horizontal k i)"
  by (auto simp: blur_idx_def axis_block_def fun_eq_iff)

lemma blurAxis_groups:
  assumes "0 \<le> radius" and "length pix = 4 * (w * h)"
    and "k < (if horizontal then h else w)" and "i < (if horizontal then w else h)"
  shows "length (blurAxis pix w h radius horizontal) = length pix \<and>
    read4 (blurAxis pix w h radius horizontal) (4 * axis_block w horizontal k i) =
      blur_vals (the_line pix (if horizontal then w else h) (axis_block w horizontal k))
        (if horizontal then w else h) radius i"
proof -
  let ?outer = "if horizontal then h else w" and ?inner = "if horizontal then w else h"
  have fits: "4 * axis_block w horizontal k i + 4 \<le> length pix" if "k < ?outer" "i < ?inner" for k i
  proof -
    have "axis_block w horizontal k i < w * h"
      using that block_less [of i w k h] block_less [of k w i h] by (cases horizontal) (simp_all add: axis_block_def)
    then show ?thesis unfolding assms(2) by linarith
  qed
  have inj: "k = k' \<and> i = i'" if "k < ?outer" "i < ?inner" "k' < ?outer" "i' < ?inner"
    "axis_block w horizontal k i = axis_block w horizontal k' i'" for k i k' i'
  proof (cases horizontal)
    case True
    with that have "i < w" "i' < w" "k * w + i = k' * w + i'" by (simp_all add: axis_block_def)
    then show ?thesis using block_inj by blast
  next
    case False
    with that have "k < w" "k' < w" "i * w + k = i' * w + k'" by (simp_all add: axis_block_def)
    then show ?thesis using block_inj by blast
  qed
  have eq: "blurAxis pix w h radius horizontal =
      fold (\<lambda>k. blur_line ?inner radius (\<lambda>i. 4 * axis_block w horizontal k i)) [0..<?outer] pix"
    unfolding blurAxis_def Let_def blur_idx_block ..
  let ?res = "fold (\<lambda>k. blur_line ?inner radius (\<lambda>i. 4 * axis_block w horizontal k i)) [0..<?outer] pix"
  have res: "length ?res = length pix \<and> (\<forall>k < ?outer. \<forall>i < ?inner.
      read4 ?res (4 * axis_block w horizontal k i) =
        (if k < ?outer then blur_vals (the_line pix ?inner (axis_block w horizontal k)) ?inner radius i
         else read4 pix (4 * axis_block w horizontal k i)))"
  proof (rule blur_lines [OF assms(1)])
    show "k = k' \<and> i = i'" if "k < ?outer" "i < ?inner" "k' < ?outer" "i' < ?inner"
      "axis_block w horizontal k i = axis_block w horizontal k' i'" for k i k' i'
      by (rule inj [OF that])
    show "4 * axis_block w horizontal k i + 4 \<le> length pix" if "k < ?outer" "i < ?inner" for k i
      by (rule fits [OF that])
  qed simp
  show ?thesis
    unfolding eq using conjunct1 [OF res] conjunct2 [OF res, rule_format, OF assms(3,4)] assms(3)
    by (simp only: if_True simp_thms)
qed

text \<open>The mean of the window around position \<open>i\<close> of line \<open>k\<close>, the ends repeated.\<close>

definition window_mean :: "8 word list \<Rightarrow> nat \<Rightarrow> nat \<Rightarrow> int \<Rightarrow> bool \<Rightarrow> nat \<Rightarrow> nat \<Rightarrow> nat \<Rightarrow> int" where
  "window_mean pix w h radius horizontal k i c =
     (\<Sum>j \<leftarrow> [- radius .. radius].
        uint (pix ! (blur_idx w horizontal k
          (nat (clampInt (int i + j) 0 (int (if horizontal then w else h) - 1))) + c))) div (2 * radius + 1)"

end
