(* ===== verification/F64Bounds.thy ===== *)
theory F64Bounds
  imports F64
begin

text \<open>
  Error bounds for the double arithmetic of the model: a positive number that is not subnormal is
  rounded with relative error at most \<open>2^-53\<close>, and never below a power of two it exceeds.
\<close>

section \<open>Scaling\<close>

lemma bit_len_pos: "0 < n \<Longrightarrow> 0 < bit_len n"
proof (induction n rule: bit_len.induct)
  case (1 n)
  moreover have "0 < n div 2" if "n \<noteq> 1" using 1(2) that by linarith
  ultimately have "0 \<le> bit_len (n div 2)" by (cases "n = 1") (auto simp: bit_len.simps [of 0])
  then show ?case using 1(2) by (simp add: bit_len.simps [of n])
qed

lemma bit_len_int: "0 < n \<Longrightarrow> 2 ^ nat (bit_len n - 1) \<le> n \<and> n < 2 ^ nat (bit_len n)"
proof (induction n rule: bit_len.induct)
  case (1 n)
  show ?case
  proof (cases "n = 1")
    case True
    then show ?thesis by (simp add: bit_len.simps [of 1] bit_len.simps [of 0])
  next
    case False
    let ?k = "bit_len (n div 2)"
    have half: "0 < n div 2" using 1(2) False by linarith
    then have IH: "2 ^ nat (?k - 1) \<le> n div 2" "n div 2 < 2 ^ nat ?k" and k: "0 < ?k"
      using 1 bit_len_pos by auto
    have len: "bit_len n = ?k + 1" using 1(2) by (simp add: bit_len.simps [of n])
    have "nat ?k = Suc (nat (?k - 1))" "nat (?k + 1) = Suc (nat ?k)" using k by simp_all
    then have "(2 :: int) ^ nat ?k = 2 * 2 ^ nat (?k - 1)" "(2 :: int) ^ nat (?k + 1) = 2 * 2 ^ nat ?k"
      by (simp_all only: power_Suc)
    with IH have "2 ^ nat ?k \<le> 2 * (n div 2)" "2 * (n div 2) + 2 \<le> 2 ^ nat (?k + 1)" by linarith+
    then show ?thesis unfolding len by (simp add: algebra_simps) linarith
  qed
qed

lemma bit_len_rat:
  assumes "0 < n"
  shows "2 powi (bit_len n - 1) \<le> (of_int n :: rat)" and "(of_int n :: rat) < 2 powi bit_len n"
proof -
  have pow: "(2 :: rat) powi k = of_int (2 ^ nat k)" if "0 \<le> k" for k
    using that by (simp add: power_int_def)
  show "2 powi (bit_len n - 1) \<le> (of_int n :: rat)" "(of_int n :: rat) < 2 powi bit_len n"
    using bit_len_int [OF assms] bit_len_pos [OF assms]
    by (simp_all only: pow of_int_le_iff of_int_less_iff le_diff_eq order_less_imp_le zless_imp_add1_zle
        int_one_le_iff_zero_less add_0 zero_less_diff)
qed

lemma scaled_ratio:
  assumes "scaled n d e = (n', d')" and "0 < d"
  shows "(of_int n' / of_int d' :: rat) = of_int n / of_int d / 2 powi e"
  using assms by (auto simp: scaled_def power_int_def field_simps power_inverse split: if_splits)

lemma round_even_error:
  assumes "0 < d"
  shows "\<bar>of_int (round_even n d) - of_int n / of_int d :: rat\<bar> \<le> 1 / 2"
proof -
  let ?q = "n div d" and ?r = "n mod d"
  have n: "n = ?q * d + ?r" by simp
  have r: "0 \<le> ?r" "?r < d" using assms by simp_all
  have low: "2 * (m * d - n) = - (2 * r)" and high: "2 * ((m + 1) * d - n) = 2 * (d - r)" if "n = m * d + r" for m r
    using that by (simp_all add: algebra_simps)
  have "round_even n d = ?q \<and> 2 * ?r \<le> d \<or> round_even n d = ?q + 1 \<and> d \<le> 2 * ?r"
    unfolding round_even_def Let_def by auto
  then have "\<bar>2 * (round_even n d * d - n)\<bar> \<le> d"
  proof (elim disjE conjE)
    assume "round_even n d = ?q" "2 * ?r \<le> d"
    then have "2 * (round_even n d * d - n) = - (2 * ?r)" using low [OF n] by (simp only:)
    then show ?thesis using \<open>2 * ?r \<le> d\<close> r by (simp only: abs_le_iff) linarith
  next
    assume "round_even n d = ?q + 1" "d \<le> 2 * ?r"
    then have "2 * (round_even n d * d - n) = 2 * (d - ?r)" using high [OF n] by (simp only:)
    moreover have "\<bar>2 * (d - k)\<bar> \<le> d" if "d \<le> 2 * k" "k < d" for k
      using that by (intro abs_leI) (simp_all add: algebra_simps)
    ultimately show ?thesis using \<open>d \<le> 2 * ?r\<close> r by (simp only:)
  qed
  then have "\<bar>2 * (of_int (round_even n d) * of_int d - of_int n) :: rat\<bar> \<le> of_int d"
    by (metis (mono_tags) of_int_abs of_int_diff of_int_le_iff of_int_mult of_int_numeral)
  moreover have "\<bar>2 * z\<bar> \<le> b \<Longrightarrow> \<bar>z\<bar> \<le> b / 2" for z b :: rat by (simp add: abs_mult)
  ultimately have *: "\<bar>of_int (round_even n d) * of_int d - of_int n :: rat\<bar> \<le> of_int d / 2" by blast
  have "(of_int (round_even n d) - of_int n / of_int d :: rat) =
      (of_int (round_even n d) * of_int d - of_int n) / of_int d"
    using assms by (simp add: diff_divide_distrib)
  then show ?thesis using * assms by (simp add: abs_divide divide_le_eq)
qed

section \<open>The shape of a rounded number\<close>

lemma pow_if: "(if 0 \<le> e then 2 ^ nat e else 1 / 2 ^ nat (- e)) = (2 :: rat) powi e"
  by (simp add: power_int_def inverse_eq_divide power_one_over)

lemma f64_pos_shape:
  assumes "0 < n" and "0 < d" and "x = of_int n / (of_int d :: rat)" and "2 powi (- 1000) \<le> x"
  shows "\<exists>e m. f64_pos n d = of_int m * 2 powi e \<and> 2 powi (52 + e) \<le> x \<and> x < 2 powi (53 + e) \<and>
    \<bar>of_int m - x / 2 powi e\<bar> \<le> 1 / 2 \<and> 2 ^ 52 \<le> m"
proof -
  let ?e0 = "bit_len n - bit_len d - 53"
  have pos: "(0 :: rat) < of_int n" "(0 :: rat) < of_int d" using assms(1,2) by simp_all
  have low: "2 powi (52 + ?e0) < x"
  proof -
    have "2 powi (52 + ?e0) = 2 powi (bit_len n - 1) / (2 :: rat) powi bit_len d"
      by (simp add: algebra_simps flip: power_int_diff)
    also have "\<dots> < of_int n / of_int d"
      using bit_len_rat [OF assms(1)] bit_len_rat [OF assms(2)] pos by (intro frac_less2) simp_all
    finally show ?thesis by (simp add: assms(3))
  qed
  have high: "x < 2 powi (54 + ?e0)"
  proof -
    have "of_int n / of_int d < 2 powi bit_len n / (2 :: rat) powi (bit_len d - 1)"
      using bit_len_rat [OF assms(1)] bit_len_rat [OF assms(2)] pos by (intro frac_less) simp_all
    also have "\<dots> = 2 powi (bit_len n - (bit_len d - 1))" by (simp flip: power_int_diff)
    also have "bit_len n - (bit_len d - 1) = 54 + ?e0" by simp
    finally show ?thesis by (simp add: assms(3))
  qed
  obtain n0 d0 where s0: "scaled n d ?e0 = (n0, d0)" by fastforce
  have p0: "0 < n0" "0 < d0" using scaled_pos [OF assms(1,2) s0] by auto
  have r0: "(of_int n0 / of_int d0 :: rat) = x / 2 powi ?e0"
    using scaled_ratio [OF s0 assms(2)] by (simp add: assms(3))
  have cmp: "n0 < 2 ^ k * d0 \<longleftrightarrow> x < 2 powi (int k + ?e0)" for k
  proof -
    have "n0 < 2 ^ k * d0 \<longleftrightarrow> (of_int n0 :: rat) < of_int (2 ^ k * d0)" by (simp only: of_int_less_iff)
    also have "\<dots> \<longleftrightarrow> (of_int n0 / of_int d0 :: rat) < 2 ^ k"
      using p0 by (simp add: divide_less_eq)
    also have "\<dots> \<longleftrightarrow> x < 2 powi (int k + ?e0)"
      unfolding r0 by (simp add: divide_less_eq power_int_add)
    finally show ?thesis .
  qed
  define e where "e = (if n0 < 2 ^ 52 * d0 then ?e0 - 1 else if n0 \<ge> 2 ^ 53 * d0 then ?e0 + 1 else ?e0)"
  have e: "2 powi (52 + e) \<le> x" "x < 2 powi (53 + e)"
    using cmp [of 52] cmp [of 53] low high by (auto simp: e_def not_less algebra_simps)
  have "- 1000 < 53 + e"
    using assms(4) e(2) power_int_increasing [of "53 + e" "- 1000" "2 :: rat"] by force
  then have max: "max (- 1074) e = e" by simp
  obtain n1 d1 where s1: "scaled n d e = (n1, d1)" by fastforce
  have p1: "0 < d1" using scaled_pos [OF assms(1,2) s1] by auto
  have r1: "(of_int n1 / of_int d1 :: rat) = x / 2 powi e"
    using scaled_ratio [OF s1 assms(2)] by (simp add: assms(3))
  let ?m = "round_even n1 d1"
  have err: "\<bar>of_int ?m - x / 2 powi e\<bar> \<le> 1 / 2"
    using round_even_error [OF p1, of n1] by (simp add: r1)
  have "2 ^ 52 \<le> x / 2 powi e" using e(1) by (simp add: le_divide_eq power_int_add)
  moreover have "- (of_int ?m - x / 2 powi e) \<le> 1 / 2" using err by (simp only: abs_le_iff)
  ultimately have "2 ^ 52 < of_int ?m + (1 :: rat)" by linarith
  then have "(of_int (2 ^ 52) :: rat) < of_int (?m + 1)" by (simp only: of_int_add of_int_1 of_int_power of_int_numeral)
  then have "2 ^ 52 \<le> ?m" by (simp only: of_int_less_iff zless_add1_eq order_le_less) 
  moreover have "f64_pos n d = of_int ?m * 2 powi e"
    unfolding f64_pos_def Let_def s0 prod.case e_def [symmetric] max s1 pow_if ..
  ultimately show ?thesis using e err by (intro exI [of _ e] exI [of _ ?m]) simp
qed

lemma f64_shape:
  assumes "2 powi (- 1000) \<le> x"
  shows "\<exists>e m. f64 x = of_int m * 2 powi e \<and> 2 powi (52 + e) \<le> x \<and> x < 2 powi (53 + e) \<and>
    \<bar>of_int m - x / 2 powi e\<bar> \<le> 1 / 2 \<and> 2 ^ 52 \<le> m"
proof -
  obtain n d where q: "quotient_of x = (n, d)" by fastforce
  have d: "0 < d" and x: "x = of_int n / of_int d"
    using q by (auto intro: quotient_of_denom_pos quotient_of_div)
  have "0 < x" using assms zero_less_power_int [of "2 :: rat" "- 1000"] by (simp del: zero_less_power_int)
  with d have n: "0 < n" by (simp add: x zero_less_divide_iff)
  from f64_pos_shape [OF n d x assms] n show ?thesis by (simp add: f64_def q)
qed

section \<open>Bounds\<close>

lemma f64_error:
  assumes "2 powi (- 1000) \<le> x"
  shows "\<bar>f64 x - x\<bar> \<le> x / 2 ^ 53"
proof -
  obtain e m where s: "f64 x = of_int m * 2 powi e" "2 powi (52 + e) \<le> x" "\<bar>of_int m - x / 2 powi e\<bar> \<le> 1 / 2"
    using f64_shape [OF assms] by blast
  have p: "(0 :: rat) < 2 powi e" by simp
  have "f64 x - x = (of_int m - x / 2 powi e) * 2 powi e" by (simp add: s(1) left_diff_distrib)
  then have "\<bar>f64 x - x\<bar> = \<bar>of_int m - x / 2 powi e\<bar> * 2 powi e"
    using p by (simp add: abs_mult)
  also have "\<dots> \<le> 1 / 2 * 2 powi e" using s(3) p by (intro mult_right_mono) simp_all
  also have "\<dots> \<le> x / 2 ^ 53" using s(2) by (simp add: power_int_add field_simps)
  finally show ?thesis .
qed

lemma f64_ge_pow:
  assumes "2 powi k \<le> x" and "- 1000 \<le> k"
  shows "2 powi k \<le> f64 x"
proof -
  have "2 powi (- 1000) \<le> (2 :: rat) powi k" using assms(2) by (intro power_int_increasing) simp_all
  then have "2 powi (- 1000) \<le> x" using assms(1) by linarith
  then obtain e m where s: "f64 x = of_int m * 2 powi e" "x < 2 powi (53 + e)" "2 ^ 52 \<le> m"
    using f64_shape by blast
  have "k < 53 + e"
    using assms(1) s(2) power_int_increasing [of "53 + e" k "2 :: rat"] by force
  then have "(2 :: rat) powi k \<le> 2 powi (52 + e)" by (intro power_int_increasing) simp_all
  also have "\<dots> = of_int (2 ^ 52) * 2 powi e" by (simp add: power_int_add)
  also have "\<dots> \<le> of_int m * 2 powi e" using s(3) by (intro mult_right_mono) (simp_all only: of_int_le_iff, simp)
  finally show ?thesis by (simp add: s(1))
qed

lemma f64_bounds:
  assumes "1 / 2 ^ 100 \<le> x"
  shows "x * (1 - 1 / 2 ^ 53) \<le> f64 x" and "f64 x \<le> x * (1 + 1 / 2 ^ 53)"
proof -
  have "(2 :: rat) powi (- 1000) \<le> 2 powi (- 100)" by (intro power_int_increasing) simp_all
  also have "\<dots> \<le> x" using assms by (simp add: power_int_def field_simps)
  finally have "\<bar>f64 x - x\<bar> \<le> x / 2 ^ 53" by (rule f64_error)
  then have "f64 x - x \<le> x / 2 ^ 53" "- (f64 x - x) \<le> x / 2 ^ 53" by (simp_all only: abs_le_iff)
  then show "x * (1 - 1 / 2 ^ 53) \<le> f64 x" "f64 x \<le> x * (1 + 1 / 2 ^ 53)"
    by (simp_all add: algebra_simps)
qed

end
