(* ===== verification/ResizeInv.thy ===== *)
theory ResizeInv
  imports Transform F64Bounds
begin

text \<open>
  Lemmas on the dimensions: what \<open>scaleDim\<close> returns for accepted parameters, and that the rounding
  of a fitted side never leaves the box nor falls short of the side that was asked for.
\<close>

section \<open>Rounded products\<close>

abbreviation ulp1 :: rat where "ulp1 \<equiv> 1 / 2 ^ 53"

lemma float_to_int_Finite:
  assumes "0 \<le> x" and "x < 2 ^ 62"
  shows "float_to_int (Finite x) = \<lfloor>x\<rfloor>"
proof -
  have "0 \<le> \<lfloor>x\<rfloor>" "\<lfloor>x\<rfloor> < 2 ^ 62" using assms by (simp_all add: floor_less_iff)
  then have "int64 \<lfloor>x\<rfloor>" by (simp add: int64_def)
  with assms(1) show ?thesis by (simp add: float_to_int_def Let_def)
qed

lemma f64_half_ge:
  assumes "1 / 2 \<le> x"
  shows "1 / 2 \<le> f64 x"
  using f64_ge_pow [of "- 1" x] assms by (simp add: power_int_minus)

lemma f64_one_ge:
  assumes "1 \<le> x"
  shows "1 \<le> f64 x"
  using f64_ge_pow [of 0 x] assms by simp

text \<open>The rounded value of a positive quantity plus one half, from above and from below.\<close>

lemma round_half_le:
  fixes b :: int
  assumes "1 / 2 ^ 90 \<le> y" and "y \<le> of_int b * (1 + ulp1)" and "1 \<le> b" and "b \<le> 2 ^ 30"
  shows "f64 (f64 y + 1 / 2) < of_int b + 1" and "0 \<le> f64 (f64 y + 1 / 2)"
proof -
  have y: "1 / 2 ^ 100 \<le> y" using assms(1) by (simp add: field_simps)
  have a: "f64 y \<le> of_int b * (1 + ulp1) * (1 + ulp1)"
  proof -
    have "y * (1 + ulp1) \<le> of_int b * (1 + ulp1) * (1 + ulp1)" by (rule mult_right_mono [OF assms(2)]) simp
    with f64_bounds(2) [OF y] show ?thesis by linarith
  qed
  have a0: "0 \<le> f64 y" using assms(1) by (intro f64_nonneg) (simp add: order_trans [OF _ assms(1)])
  let ?z = "f64 y + 1 / 2"
  have "1 / 2 ^ 100 \<le> ?z" using a0 by (simp add: field_simps)
  from f64_bounds(2) [OF this] have "f64 ?z \<le> ?z * (1 + ulp1)" .
  also have "\<dots> \<le> (of_int b * (1 + ulp1) * (1 + ulp1) + 1 / 2) * (1 + ulp1)"
    using a by (intro mult_right_mono) simp_all
  also have "\<dots> = of_int b + (of_int b * ((1 + ulp1) ^ 3 - 1) + (1 + ulp1) / 2)"
    by (simp add: field_simps power3_eq_cube)
  also have "\<dots> < of_int b + 1"
  proof -
    have "(of_int b :: rat) \<le> of_int (2 ^ 30)" using assms(4) by (simp only: of_int_le_iff)
    then have "of_int b * ((1 + ulp1) ^ 3 - 1) \<le> 2 ^ 30 * ((1 + ulp1) ^ 3 - 1)"
      by (intro mult_right_mono) simp_all
    also have "\<dots> < 1 / 4" by (simp add: power3_eq_cube)
    finally show ?thesis by simp
  qed
  finally show "f64 ?z < of_int b + 1" .
  show "0 \<le> f64 ?z" using a0 by (intro f64_nonneg) simp
qed

lemma round_half_ge:
  fixes b :: int
  assumes "of_int b * (1 - ulp1) \<le> y" and "1 \<le> b" and "b \<le> 2 ^ 30"
  shows "of_int b \<le> f64 (f64 y + 1 / 2)"
proof -
  have b: "(1 :: rat) \<le> of_int b" using assms(2) by simp
  have "1 / 2 ^ 100 \<le> (1 :: rat) * (1 - ulp1)" by simp
  also have "\<dots> \<le> of_int b * (1 - ulp1)" using b by (intro mult_right_mono) simp_all
  finally have y: "1 / 2 ^ 100 \<le> y" using assms(1) by linarith
  have a: "of_int b * (1 - ulp1) * (1 - ulp1) \<le> f64 y"
    using f64_bounds(1) [OF y] mult_right_mono [OF assms(1), of "1 - ulp1"] by simp
  let ?z = "f64 y + 1 / 2"
  have "0 \<le> of_int b * (1 - ulp1) * (1 - ulp1)" using b by simp
  with a have "1 / 2 ^ 100 \<le> ?z" by (simp add: field_simps)
  note z = f64_bounds(1) [OF this]
  have "of_int b \<le> (of_int b * (1 - ulp1) * (1 - ulp1) + 1 / 2) * (1 - ulp1)"
  proof -
    have "(of_int b :: rat) \<le> of_int (2 ^ 30)" using assms(3) by (simp only: of_int_le_iff)
    then have "of_int b * (1 - (1 - ulp1) ^ 3) \<le> 2 ^ 30 * (1 - (1 - ulp1) ^ 3)"
      by (intro mult_right_mono) (simp_all add: power3_eq_cube)
    also have "\<dots> \<le> (1 - ulp1) / 2" by (simp add: power3_eq_cube)
    finally show ?thesis by (simp add: field_simps power3_eq_cube)
  qed
  also have "\<dots> \<le> ?z * (1 - ulp1)" using a by (intro mult_right_mono) simp_all
  finally show ?thesis using z by linarith
qed

section \<open>Sides\<close>

lemma fitted_le:
  assumes "1 \<le> side" and "1 / 2 ^ 60 \<le> r" and "r \<le> q * (1 + ulp1)" and "of_int side * q \<le> of_int b"
    and "1 \<le> b" and "b \<le> 2 ^ 30"
  shows "1 \<le> fitted side (Finite r) \<and> fitted side (Finite r) \<le> b"
proof -
  let ?y = "of_int side * r"
  have side: "(1 :: rat) \<le> of_int side" using assms(1) by simp
  have r: "0 \<le> r" using assms(2) by (rule order_trans [rotated]) simp
  have "1 / 2 ^ 90 \<le> (1 / 2 ^ 60 :: rat)" by simp
  also have "\<dots> \<le> 1 * r" using assms(2) by simp
  also have "\<dots> \<le> ?y" using side r by (intro mult_right_mono)
  finally have y: "1 / 2 ^ 90 \<le> ?y" .
  have "?y \<le> of_int side * (q * (1 + ulp1))" using assms(3) side by (intro mult_left_mono) simp_all
  also have "\<dots> = of_int side * q * (1 + ulp1)" by simp
  also have "\<dots> \<le> of_int b * (1 + ulp1)" using assms(4) by (intro mult_right_mono) simp_all
  finally have "?y \<le> of_int b * (1 + ulp1)" .
  note res = round_half_le [OF y this assms(5,6)]
  let ?v = "f64 (f64 ?y + 1 / 2)"
  have "(of_int b :: rat) \<le> of_int (2 ^ 30)" using assms(6) by (simp only: of_int_le_iff)
  then have "?v < 2 ^ 62" using res(1) by simp
  then have "fitted side (Finite r) = max 1 \<lfloor>?v\<rfloor>"
    using float_to_int_Finite [OF res(2)] by (simp add: fitted_def float_mul_def float_add_half_def)
  moreover have "\<lfloor>?v\<rfloor> \<le> b" using res(1) by (simp add: floor_le_iff)
  ultimately show ?thesis using assms(5) by simp
qed

lemma fitted_exact:
  assumes "1 \<le> side" and "1 \<le> b" and "b \<le> 2 ^ 30" and "side \<le> 2 ^ 30"
  shows "fitted side (Finite (f64 (of_int b / of_int side))) = b"
proof -
  let ?q = "of_int b / of_int side :: rat" and ?r = "f64 (of_int b / of_int side)"
  have side: "(1 :: rat) \<le> of_int side" "(of_int side :: rat) \<le> 2 ^ 30" and b: "(1 :: rat) \<le> of_int b"
    using assms of_int_le_iff [of side "2 ^ 30", where ?'a = rat] by simp_all
  have q: "1 / 2 ^ 30 \<le> ?q" using side b by (intro frac_le) simp_all
  have "1 / 2 ^ 100 \<le> (1 / 2 ^ 30 :: rat)" by simp
  also note q
  finally have "1 / 2 ^ 100 \<le> ?q" .
  note r = f64_bounds [OF this]
  have "1 / 2 ^ 60 \<le> (1 / 2 ^ 30 :: rat) * (1 - ulp1)" by simp
  also have "\<dots> \<le> ?q * (1 - ulp1)" using q by (intro mult_right_mono) simp_all
  finally have r60: "1 / 2 ^ 60 \<le> ?r" using r(1) by linarith
  have eq: "of_int side * ?q = of_int b" using side by simp
  have le: "fitted side (Finite ?r) \<le> b"
    using fitted_le [OF assms(1) r60 r(2) _ assms(2,3)] eq by simp
  let ?y = "of_int side * ?r"
  have "of_int b * (1 - ulp1) = of_int side * (?q * (1 - ulp1))" using side by simp
  also have "\<dots> \<le> ?y" using r(1) side by (intro mult_left_mono) simp_all
  finally have y: "of_int b * (1 - ulp1) \<le> ?y" .
  let ?v = "f64 (f64 ?y + 1 / 2)"
  have v: "of_int b \<le> ?v" using round_half_ge [OF y assms(2,3)] .
  have "1 / 2 ^ 90 \<le> (1 :: rat) * (1 - ulp1)" by simp
  also have "\<dots> \<le> of_int b * (1 - ulp1)" using b by (intro mult_right_mono) simp_all
  also note y
  finally have y90: "1 / 2 ^ 90 \<le> ?y" .
  have "?y \<le> of_int side * (?q * (1 + ulp1))" using r(2) side by (intro mult_left_mono) simp_all
  also have "\<dots> = of_int b * (1 + ulp1)" using side by simp
  finally have "?v < of_int b + 1" using round_half_le(1) [OF y90 _ assms(2,3)] by blast
  moreover have "(of_int b :: rat) \<le> of_int (2 ^ 30)" using assms(3) by (simp only: of_int_le_iff)
  ultimately have "\<lfloor>?v\<rfloor> = b" "0 \<le> ?v" "?v < 2 ^ 62" using v b by (simp_all add: floor_eq_iff)
  with float_to_int_Finite [of ?v] assms(2) show ?thesis
    by (simp add: fitted_def float_mul_def float_add_half_def)
qed

lemma scaleDim_range:
  assumes "1 \<le> side" and "side \<le> 4096" and "1 / 2 \<le> x" and "x \<le> 3"
  shows "1 \<le> scaleDim side (Finite x) \<and> scaleDim side (Finite x) \<le> 4096"
proof -
  let ?y = "of_int side * x"
  have side: "(1 :: rat) \<le> of_int side" "(of_int side :: rat) \<le> 4096"
    using assms(1,2) by simp_all
  have "1 * (1 / 2) \<le> ?y" using side assms(3) by (intro mult_mono) simp_all
  then have half: "1 / 2 \<le> ?y" by simp
  then have "1 \<le> f64 (f64 ?y + 1 / 2)"
    using f64_half_ge [OF half] by (intro f64_one_ge) simp
  moreover have "f64 (f64 ?y + 1 / 2) < 2 ^ 62"
  proof -
    have "?y \<le> 4096 * 3" using side assms(3,4) by (intro mult_mono) simp_all
    then have y: "?y \<le> of_int 12288 * (1 + ulp1)" by simp
    have "1 / 2 ^ 90 \<le> ?y" using half by simp
    from round_half_le(1) [OF this y] show ?thesis by simp
  qed
  ultimately have "float_to_int (float_add_half (float_mul side (Finite x))) \<ge> 1"
    using float_to_int_Finite [of "f64 (f64 ?y + 1 / 2)"]
    by (simp add: float_mul_def float_add_half_def le_floor_iff)
  then show ?thesis using assms(1) by (simp add: scaleDim_def MaxDim_def)
qed


section \<open>Ratios\<close>

text \<open>A source image as it comes out of the check in \<open>Transform\<close>.\<close>

definition source_ok :: "nrgba \<Rightarrow> bool" where
  "source_ok img \<longleftrightarrow> 1 \<le> im_w img \<and> 1 \<le> im_h img \<and> im_w img * im_h img \<le> maxSrcPixels"

lemma source_sides:
  assumes "source_ok img"
  shows "1 \<le> im_w img" "im_w img \<le> 2 ^ 26" "1 \<le> im_h img" "im_h img \<le> 2 ^ 26"
proof -
  have ok: "1 \<le> im_w img" "1 \<le> im_h img" "im_w img * im_h img \<le> 52428800"
    using assms by (simp_all add: source_ok_def maxSrcPixels_def)
  have "im_w img * 1 \<le> im_w img * im_h img" "1 * im_h img \<le> im_w img * im_h img"
    using ok by (intro mult_left_mono; simp) (intro mult_right_mono; use ok in simp)
  with ok(3) have "im_w img \<le> 52428800" "im_h img \<le> 52428800" by linarith+
  with ok(1,2) show "1 \<le> im_w img" "im_w img \<le> 2 ^ 26" "1 \<le> im_h img" "im_h img \<le> 2 ^ 26"
    by simp_all
qed

lemma quotient_range:
  fixes a b :: int
  assumes "1 \<le> a" and "1 \<le> b" and "b \<le> 2 ^ 26"
  shows "1 / 2 ^ 60 \<le> f64 (of_int a / of_int b)"
    and "f64 (of_int a / of_int b) \<le> of_int a / of_int b * (1 + ulp1)"
    and "1 \<le> f64 (of_int a / of_int b) \<Longrightarrow> b \<le> a"
proof -
  let ?q = "of_int a / of_int b :: rat"
  have b: "(1 :: rat) \<le> of_int b" "(of_int b :: rat) \<le> 2 ^ 26" and a: "(1 :: rat) \<le> of_int a"
    using assms of_int_le_iff [of b "2 ^ 26", where ?'a = rat] by simp_all
  have q: "1 / 2 ^ 26 \<le> ?q" using a b by (intro frac_le) simp_all
  have "1 / 2 ^ 100 \<le> (1 / 2 ^ 26 :: rat)" by simp
  also note q
  finally have "1 / 2 ^ 100 \<le> ?q" .
  note r = f64_bounds [OF this]
  have "1 / 2 ^ 60 \<le> (1 / 2 ^ 26 :: rat) * (1 - ulp1)" by simp
  also have "\<dots> \<le> ?q * (1 - ulp1)" using q by (intro mult_right_mono) simp_all
  finally show "1 / 2 ^ 60 \<le> f64 ?q" using r(1) by linarith
  show "f64 ?q \<le> ?q * (1 + ulp1)" by (rule r(2))
  show "b \<le> a" if one: "1 \<le> f64 ?q"
  proof (rule ccontr)
    assume "\<not> b \<le> a"
    then have "(of_int a :: rat) \<le> of_int (b - 1)" by (simp only: of_int_le_iff)
    then have "?q \<le> (of_int b - 1) / of_int b" using b by (intro divide_right_mono) simp_all
    also have "\<dots> = 1 - 1 / of_int b" using b by (simp add: diff_divide_distrib)
    also have "\<dots> \<le> 1 - 1 / 2 ^ 26" using b by (simp add: frac_le)
    finally have "?q * (1 + ulp1) \<le> (1 - 1 / 2 ^ 26) * (1 + ulp1)" by (intro mult_right_mono) simp_all
    also have "\<dots> < 1" by simp
    finally show False using one r(2) by linarith
  qed
qed

lemma float_div_pos: "1 \<le> b \<Longrightarrow> float_div a b = Finite (f64 (of_int a / of_int b))"
  by (simp add: float_div_def)

lemma fit_ratio_both:
  assumes "1 \<le> W" and "1 \<le> H" and "1 \<le> sw" and "1 \<le> sh"
  shows "fit_ratio sw sh W H = Finite (min (f64 (of_int W / of_int sw)) (f64 (of_int H / of_int sh)))"
  using assms by (simp add: fit_ratio_def float_div_pos float_min_def min_def)

lemma scaleTo_dims:
  assumes "1 \<le> w" and "1 \<le> h" and "w \<le> 2 ^ 40" and "h \<le> 2 ^ 40" and "4 * w * h \<le> 2 ^ 48"
  shows "\<exists>out. scaleTo x img rct w h = Some out \<and> im_w out = w \<and> im_h out = h \<and> im_minX out = 0 \<and> im_minY out = 0"
  using assms by (simp add: scaleTo_def NewNRGBA_def int64_def Let_def mult.commute)

lemma scaleTo_small:
  assumes "1 \<le> w" and "1 \<le> h" and "w \<le> 2 ^ 20" and "h \<le> 2 ^ 20"
  shows "\<exists>out. scaleTo x img rct w h = Some out \<and> im_w out = w \<and> im_h out = h \<and> im_minX out = 0 \<and> im_minY out = 0"
proof (rule scaleTo_dims [OF assms(1,2)])
  have "w * h \<le> 2 ^ 20 * 2 ^ 20" using assms by (intro mult_mono) simp_all
  then show "4 * w * h \<le> 2 ^ 48" by (simp add: mult.commute)
qed (use assms in simp_all)

lemma wrap64_small: "\<bar>a\<bar> \<le> 2 ^ 26 \<Longrightarrow> \<bar>b\<bar> \<le> 2 ^ 26 \<Longrightarrow> wrap64 (a * b) = a * b"
proof -
  assume "\<bar>a\<bar> \<le> 2 ^ 26" "\<bar>b\<bar> \<le> 2 ^ 26"
  then have "\<bar>a * b\<bar> \<le> 2 ^ 26 * 2 ^ 26" unfolding abs_mult by (intro mult_mono) simp_all
  then show ?thesis by (intro wrap64_id) (simp add: int64_def abs_le_iff)
qed

section \<open>Resizing into a box\<close>

text \<open>What the fit modes do with a box given on both sides.\<close>

definition in_box :: "nrgba \<Rightarrow> fit \<Rightarrow> int \<Rightarrow> int \<Rightarrow> nrgba \<Rightarrow> bool" where
  "in_box img f W H out \<longleftrightarrow>
     1 \<le> im_w out \<and> im_w out \<le> W \<and> 1 \<le> im_h out \<and> im_h out \<le> H \<and>
     (case f of
        FitFill \<Rightarrow> im_w out = W \<and> im_h out = H
      | FitCover \<Rightarrow> im_w out = W \<and> im_h out = H
      | FitContain \<Rightarrow> im_w out = W \<or> im_h out = H
      | FitScaleDown \<Rightarrow> im_w out \<le> im_w img \<and> im_h out \<le> im_h img)"

lemma resize_into_box:
  assumes "source_ok img" and "asked_dims (im_w img) (im_h img) p = Some (W, H)"
    and "1 \<le> W" and "W \<le> 4096" and "1 \<le> H" and "H \<le> 4096"
  shows "\<exists>out. resize x img p = Some out \<and> in_box img (pm_Fit p) W H out"
proof -
  let ?sw = "im_w img" and ?sh = "im_h img"
  note sides = source_sides [OF assms(1)]
  have box: "box_dims ?sw ?sh W H = Some (W, H)" using assms(3,5) by (simp add: box_dims_def)
  let ?r1 = "f64 (of_int W / of_int ?sw)" and ?r2 = "f64 (of_int H / of_int ?sh)"
  let ?r = "min ?r1 ?r2"
  have ratio: "fit_ratio ?sw ?sh W H = Finite ?r" using assms(3,5) sides by (intro fit_ratio_both)
  note q1 = quotient_range [OF assms(3) sides(1,2)] and q2 = quotient_range [OF assms(5) sides(3,4)]
  have r: "1 / 2 ^ 60 \<le> ?r" "?r \<le> of_int W / of_int ?sw * (1 + ulp1)" "?r \<le> of_int H / of_int ?sh * (1 + ulp1)"
    using q1(1,2) q2(1,2) by linarith+
  let ?tw = "fitted ?sw (Finite ?r)" and ?th = "fitted ?sh (Finite ?r)"
  have tw: "1 \<le> ?tw" "?tw \<le> W"
    using fitted_le [OF sides(1) r(1,2)] assms(3,4) sides(1) by (simp_all add: of_int_le_iff)
  have th: "1 \<le> ?th" "?th \<le> H"
    using fitted_le [OF sides(3) r(1,3)] assms(5,6) sides(3) by (simp_all add: of_int_le_iff)
  have exact: "?tw = W \<or> ?th = H"
    using fitted_exact [OF sides(1) assms(3)] fitted_exact [OF sides(3) assms(5)] assms(4,6) sides(2,4)
    by (simp add: min_def)
  have down: "?tw \<le> ?sw \<and> ?th \<le> ?sh" if "?r < 1"
  proof -
    have "?r \<le> 1 * (1 + ulp1)" using that by simp
    from fitted_le [OF sides(1) r(1) this _ sides(1)] fitted_le [OF sides(3) r(1) this _ sides(3)] sides
    show ?thesis by simp
  qed
  have fits: "?sw \<le> W \<and> ?sh \<le> H" if "\<not> ?r < 1"
    using that q1(3) q2(3) by simp
  have to: "\<exists>out. scaleTo x img rct w h = Some out \<and> im_w out = w \<and> im_h out = h"
    if "1 \<le> w" "1 \<le> h" "w \<le> W" "h \<le> H" for w h rct
    using scaleTo_small [of w h x img rct] that assms(4,6) by auto
  note res = resize_def [of x img p, unfolded Let_def assms(2) option.case prod.case box ratio]
  show ?thesis
  proof (cases "pm_Fit p")
    case FitScaleDown
    show ?thesis
    proof (cases "?r < 1")
      case True
      then have "\<not> float_ge_one (Finite ?r)" by (simp add: float_ge_one_def)
      then show ?thesis
        using to [OF tw(1) th(1) tw(2) th(2), of "bounds img"] down [OF True] tw th
        by (auto simp: res FitScaleDown in_box_def)
    next
      case False
      then have "float_ge_one (Finite ?r)" by (simp add: float_ge_one_def)
      then show ?thesis using fits [OF False] sides by (simp add: res FitScaleDown in_box_def)
    qed
  next
    case FitContain
    then show ?thesis
      using to [OF tw(1) th(1) tw(2) th(2), of "bounds img"] tw th exact by (auto simp: res in_box_def)
  next
    case FitFill
    then show ?thesis using to [of W H "bounds img"] assms(3,5) by (auto simp: res in_box_def)
  next
    case FitCover
    then show ?thesis using to [of W H] assms(3,5) by (simp add: res in_box_def split: prod.split) blast
  qed
qed


lemma asked_both:
  assumes "params_ok p" and "pm_DPR p \<noteq> NaN" and "pm_Width p \<noteq> 0" and "pm_Height p \<noteq> 0"
  shows "asked_dims sw sh p = Some (scaleDim (pm_Width p) (pm_DPR p), scaleDim (pm_Height p) (pm_DPR p))"
    and "1 \<le> scaleDim (pm_Width p) (pm_DPR p)" "scaleDim (pm_Width p) (pm_DPR p) \<le> 4096"
    and "1 \<le> scaleDim (pm_Height p) (pm_DPR p)" "scaleDim (pm_Height p) (pm_DPR p) \<le> 4096"
proof -
  obtain f where f: "pm_DPR p = Finite f" "1 / 2 \<le> f" "f \<le> 3"
    using assms(1,2) by (cases "pm_DPR p") (auto simp: params_ok_def in_range_def)
  have dims: "1 \<le> pm_Width p" "pm_Width p \<le> 4096" "1 \<le> pm_Height p" "pm_Height p \<le> 4096"
    using assms by (auto simp: params_ok_def)
  show w: "1 \<le> scaleDim (pm_Width p) (pm_DPR p)" "scaleDim (pm_Width p) (pm_DPR p) \<le> 4096"
    using scaleDim_range [OF dims(1,2) f(2,3)] by (simp_all add: f(1))
  show "1 \<le> scaleDim (pm_Height p) (pm_DPR p)" "scaleDim (pm_Height p) (pm_DPR p) \<le> 4096"
    using scaleDim_range [OF dims(3,4) f(2,3)] by (simp_all add: f(1))
  show "asked_dims sw sh p = Some (scaleDim (pm_Width p) (pm_DPR p), scaleDim (pm_Height p) (pm_DPR p))"
    using w by (simp add: asked_dims_def Let_def)
qed

section \<open>One side asked for\<close>

lemma scaleTo_w:
  assumes "scaleTo x img rct w h = Some out" and "0 \<le> w" and "w \<le> 2 ^ 40"
  shows "im_w out = w"
  using assms by (auto simp: scaleTo_def NewNRGBA_def int64_def Let_def split: if_splits)

lemma fit_ratio_width: "1 \<le> W \<Longrightarrow> 1 \<le> sw \<Longrightarrow> fit_ratio sw sh W 0 = Finite (f64 (of_int W / of_int sw))"
  by (simp add: fit_ratio_def float_div_pos)

lemma resize_asked_width:
  assumes "source_ok img" and "asked_dims (im_w img) (im_h img) p = Some (W, 0)"
    and "1 \<le> W" and "W \<le> 4096"
  shows "resize x img p =
    (let H = max 1 (im_h img * W div im_w img); r = Finite (f64 (of_int W / of_int (im_w img))) in
     case pm_Fit p of
       FitFill \<Rightarrow> scaleTo x img (bounds img) W H
     | FitCover \<Rightarrow>
         (let (cropW, cropH) = crop_dims (im_w img) (im_h img) W H;
              x0 = im_minX img + go_div (im_w img - cropW) 2; y0 = im_minY img + go_div (im_h img - cropH) 2
          in scaleTo x img (x0, y0, x0 + cropW, y0 + cropH) W H)
     | _ \<Rightarrow> if pm_Fit p = FitScaleDown \<and> float_ge_one r then Some img
            else scaleTo x img (bounds img) W (fitted (im_h img) r))"
proof -
  note sides = source_sides [OF assms(1)]
  have "wrap64 (im_h img * W) = im_h img * W" using sides assms(3,4) by (intro wrap64_small) simp_all
  then have "derived (im_h img) W (im_w img) = Some (max 1 (im_h img * W div im_w img))"
    using sides assms(3) by (simp add: derived_def)
  then have box: "box_dims (im_w img) (im_h img) W 0 = Some (W, max 1 (im_h img * W div im_w img))"
    using assms(3) by (simp add: box_dims_def)
  have "fitted (im_w img) (Finite (f64 (of_int W / of_int (im_w img)))) = W"
    using sides assms(3,4) by (intro fitted_exact) simp_all
  then show ?thesis
    unfolding resize_def Let_def assms(2) option.case prod.case box fit_ratio_width [OF assms(3) sides(1)]
    by (simp split: fit.split)
qed

lemma resize_default_width:
  assumes "source_ok img" and "asked_dims (im_w img) (im_h img) p = Some (2048, 0)" and "im_h img \<le> im_w img"
  shows "\<exists>out. resize x img p = Some out \<and> (out = img \<or> im_w out = 2048 \<and> 1 \<le> im_h out \<and> im_h out \<le> 2048)"
proof -
  note sides = source_sides [OF assms(1)]
  let ?H = "max 1 (im_h img * 2048 div im_w img)" and ?r = "f64 (of_int 2048 / of_int (im_w img))"
  have "im_h img * 2048 div im_w img \<le> im_w img * 2048 div im_w img"
    using assms(3) sides by (intro zdiv_mono1) simp_all
  then have H: "1 \<le> ?H" "?H \<le> 2048" using sides by simp_all
  note q = quotient_range [OF _ sides(1,2), of 2048]
  have "(of_int (im_h img) :: rat) \<le> of_int (im_w img)" using assms(3) by simp
  then have "of_int (im_h img) * (of_int 2048 / of_int (im_w img)) \<le> (of_int 2048 :: rat)"
    using sides by (simp add: divide_le_eq)
  then have th: "1 \<le> fitted (im_h img) (Finite ?r)" "fitted (im_h img) (Finite ?r) \<le> 2048"
    using fitted_le [OF sides(3) q(1,2), of 2048] by simp_all
  have to: "\<exists>out. scaleTo x img rct 2048 h = Some out \<and> im_w out = 2048 \<and> im_h out = h" if "1 \<le> h" "h \<le> 2048" for h rct
    using scaleTo_small [of 2048 h x img rct] that by auto
  have "(1 :: int) \<le> 2048" "(2048 :: int) \<le> 4096" by simp_all
  note res = resize_asked_width [OF assms(1,2) this, of x, unfolded Let_def]
  show ?thesis
  proof (cases "pm_Fit p")
    case FitScaleDown
    then show ?thesis
      using to [OF th, of "bounds img"] th by (cases "float_ge_one (Finite ?r)") (auto simp: res)
  next
    case FitContain
    then show ?thesis using to [OF th, of "bounds img"] th by (auto simp: res)
  next
    case FitFill
    then show ?thesis using to [OF H, of "bounds img"] H by (auto simp: res)
  next
    case FitCover
    obtain cw ch where crop: "crop_dims (im_w img) (im_h img) 2048 ?H = (cw, ch)" by fastforce
    show ?thesis unfolding res FitCover fit.case crop prod.case using to [OF H] H by metis
  qed
qed

lemma resize_default_height:
  assumes "source_ok img" and "asked_dims (im_w img) (im_h img) p = Some (0, 2048)" and "im_w img \<le> im_h img"
  shows "\<exists>out. resize x img p = Some out \<and> (out = img \<or> im_h out = 2048 \<and> 1 \<le> im_w out \<and> im_w out \<le> 2048)"
proof -
  note sides = source_sides [OF assms(1)]
  let ?W = "max 1 (im_w img * 2048 div im_h img)" and ?r = "f64 (of_int 2048 / of_int (im_h img))"
  have "im_w img * 2048 div im_h img \<le> im_h img * 2048 div im_h img"
    using assms(3) sides by (intro zdiv_mono1) simp_all
  then have W: "1 \<le> ?W" "?W \<le> 2048" using sides by simp_all
  note q = quotient_range [OF _ sides(3,4), of 2048]
  have "(of_int (im_w img) :: rat) \<le> of_int (im_h img)" using assms(3) by simp
  then have "of_int (im_w img) * (of_int 2048 / of_int (im_h img)) \<le> (of_int 2048 :: rat)"
    using sides by (simp add: divide_le_eq)
  then have tw: "1 \<le> fitted (im_w img) (Finite ?r)" "fitted (im_w img) (Finite ?r) \<le> 2048"
    using fitted_le [OF sides(1) q(1,2), of 2048] by simp_all
  have th: "fitted (im_h img) (Finite ?r) = 2048"
    using fitted_exact [of "im_h img" 2048] sides by simp
  have to: "\<exists>out. scaleTo x img rct w 2048 = Some out \<and> im_w out = w \<and> im_h out = 2048" if "1 \<le> w" "w \<le> 2048" for w rct
    using scaleTo_small [of w 2048 x img rct] that by auto
  have "wrap64 (im_w img * 2048) = im_w img * 2048" using sides by (intro wrap64_small) simp_all
  then have "derived (im_w img) 2048 (im_h img) = Some ?W"
    using sides by (simp add: derived_def)
  then have box: "box_dims (im_w img) (im_h img) 0 2048 = Some (?W, 2048)" by (simp add: box_dims_def)
  have ratio: "fit_ratio (im_w img) (im_h img) 0 2048 = Finite ?r"
    using sides by (simp add: fit_ratio_def float_div_pos)
  note res = resize_def [of x img p, unfolded Let_def assms(2) option.case prod.case box ratio]
  show ?thesis
  proof (cases "pm_Fit p")
    case FitScaleDown
    then show ?thesis
      using to [OF tw, of "bounds img"] tw th by (cases "float_ge_one (Finite ?r)") (auto simp: res)
  next
    case FitContain
    then show ?thesis using to [OF tw, of "bounds img"] tw th by (auto simp: res)
  next
    case FitFill
    then show ?thesis using to [OF W, of "bounds img"] W by (auto simp: res)
  next
    case FitCover
    obtain cw ch where crop: "crop_dims (im_w img) (im_h img) ?W 2048 = (cw, ch)" by fastforce
    show ?thesis unfolding res FitCover fit.case crop prod.case using to [OF W] W by metis
  qed
qed

lemma resize_default:
  assumes "source_ok img" and "pm_Width p = 0" and "pm_Height p = 0"
  shows "\<exists>out. resize x img p = Some out \<and> (out = img \<or> im_w out \<le> 2048 \<and> im_h out \<le> 2048) \<and>
    1 \<le> im_w out \<and> 1 \<le> im_h out \<and> (im_w img \<le> 2048 \<longrightarrow> im_h img \<le> 2048 \<longrightarrow> out = img)"
proof -
  note sides = source_sides [OF assms(1)]
  have zero: "scaleDim 0 f = 0" for f by (simp add: scaleDim_def)
  have asked: "asked_dims (im_w img) (im_h img) p =
      (if im_w img \<le> 2048 \<and> im_h img \<le> 2048 then None
       else if im_h img \<le> im_w img then Some (2048, 0) else Some (0, 2048))"
    using assms(2,3) zero by (simp add: asked_dims_def defaultMaxDim_def)
  consider "im_w img \<le> 2048" "im_h img \<le> 2048" "asked_dims (im_w img) (im_h img) p = None"
    | "\<not> (im_w img \<le> 2048 \<and> im_h img \<le> 2048)" "im_h img \<le> im_w img"
      "asked_dims (im_w img) (im_h img) p = Some (2048, 0)"
    | "\<not> (im_w img \<le> 2048 \<and> im_h img \<le> 2048)" "im_w img < im_h img"
      "asked_dims (im_w img) (im_h img) p = Some (0, 2048)"
    using asked
    by (cases "im_w img \<le> 2048 \<and> im_h img \<le> 2048"; cases "im_h img \<le> im_w img")
      (simp_all only: if_True if_False simp_thms not_le)
  then show ?thesis
  proof cases
    case 1
    then show ?thesis using sides by (simp add: resize_def Let_def)
  next
    case 2
    with resize_default_width [OF assms(1) 2(3,2), of x] sides show ?thesis by fastforce
  next
    case 3
    with resize_default_height [OF assms(1) 3(3) less_imp_le [OF 3(2)], of x] sides show ?thesis by fastforce
  qed
qed

section \<open>A scale factor that is not a number\<close>

lemma scaleDim_NaN: "side \<noteq> 0 \<Longrightarrow> scaleDim side NaN = - (2 ^ 63)"
  by (simp add: scaleDim_def float_mul_def float_add_half_def float_to_int_def MaxDim_def)

lemma wrap64_min: "wrap64 (k * - (2 ^ 63)) \<le> 0"
proof -
  have "(k * - c + c) mod (c * 2) = c * ((1 - k) mod 2)" for c :: int
  proof -
    have "k * - c + c = c * (1 - k)" by (simp add: right_diff_distrib)
    then show ?thesis by (simp only: mult_mod_right)
  qed
  from this [of "2 ^ 63"] have "(k * - (2 ^ 63) + 2 ^ 63) mod 2 ^ 64 = 2 ^ 63 * ((1 - k) mod (2 :: int))"
    by simp
  also have "\<dots> \<le> 2 ^ 63 * 1" by (intro mult_left_mono) simp_all
  finally show ?thesis by (simp add: wrap64_def)
qed

lemma go_div_nonpos:
  assumes "a \<le> 0" and "0 < b"
  shows "go_div a b \<le> 0"
proof (cases "a = 0")
  case False
  with assms have "sgn a = - 1" "sgn b = 1" "0 \<le> \<bar>a\<bar> div \<bar>b\<bar>"
    by (simp_all add: pos_imp_zdiv_nonneg_iff)
  then show ?thesis by (simp add: go_div_def)
qed (simp add: go_div_def)

lemma fitted_zero: "fitted side (Finite 0) = 1"
proof -
  have "f64 0 = 0" "f64 (1 / 2) = 1 / 2" by code_simp+
  then show ?thesis by (simp add: fitted_def float_mul_def float_add_half_def float_to_int_def Let_def int64_def)
qed

lemma resize_NaN_width:
  assumes "source_ok img" and "pm_DPR p = NaN" and "pm_Width p \<noteq> 0" and "pm_Height p = 0"
    and "pm_Fit p \<in> {FitScaleDown, FitContain}"
  shows "resize x img p = scaleTo x img (bounds img) 1 1"
proof -
  note sides = source_sides [OF assms(1)]
  have asked: "asked_dims (im_w img) (im_h img) p = Some (- (2 ^ 63), 0)"
    using assms(2-4) by (simp add: asked_dims_def scaleDim_NaN) (simp add: scaleDim_def)
  have "go_div (wrap64 (im_h img * - (2 ^ 63))) (im_w img) \<le> 0"
    using wrap64_min [of "im_h img"] sides by (intro go_div_nonpos) simp_all
  then have "derived (im_h img) (- (2 ^ 63)) (im_w img) = Some 1"
    using sides by (simp add: derived_def)
  then have box: "box_dims (im_w img) (im_h img) (- (2 ^ 63)) 0 = Some (- (2 ^ 63), 1)"
    by (simp add: box_dims_def)
  have "f64 0 = 0" by code_simp
  then have ratio: "fit_ratio (im_w img) (im_h img) (- (2 ^ 63)) 0 = Finite 0"
    using sides by (simp add: fit_ratio_def float_div_pos)
  show ?thesis
    unfolding resize_def Let_def asked option.case prod.case box ratio fitted_zero
    using assms(5) by (auto simp: float_ge_one_def)
qed

end
