(* ===== verification/ImageProps.thy ===== *)
theory ImageProps
  imports BlurInv ResizeInv
begin

text \<open>The properties of the image options and of the transformations.\<close>

section \<open>Options\<close>

text \<open>
  C26. Whatever option string is accepted, the parameters are within their limits: width and
  height 0 (not asked for) to 4096, quality 1 to 100, and a finite \<open>dpr\<close> is between 0.5 and 3 and
  a finite blur between 0 and 50; infinities are rejected.
\<close>

theorem params_within_limits:
  assumes "Params_Parse s = Inr p"
  shows "0 \<le> pm_Width p \<and> pm_Width p \<le> 4096 \<and> 0 \<le> pm_Height p \<and> pm_Height p \<le> 4096 \<and>
    1 \<le> pm_Quality p \<and> pm_Quality p \<le> 100 \<and>
    (pm_DPR p = NaN \<or> (\<exists>x. pm_DPR p = Finite x \<and> 1/2 \<le> x \<and> x \<le> 3)) \<and>
    (pm_Blur p = NaN \<or> (\<exists>x. pm_Blur p = Finite x \<and> 0 \<le> x \<and> x \<le> 50))"
proof -
  have "params_ok p"
    using assms parse_options_ok [of "splitOn CHR '','' s" Defaults p] by (auto simp: Params_Parse_def split: if_splits)
  then show ?thesis
    by (cases "pm_DPR p"; cases "pm_Blur p") (simp_all add: params_ok_def in_range_def)
qed

theorem params_within_limits_witness:
  "\<exists>p. Params_Parse ''w=4096,q=100,dpr=0x1p-1'' = Inr p \<and> pm_Width p \<le> 4096"
proof -
  obtain p where p: "Params_Parse ''w=4096,q=100,dpr=0x1p-1'' = Inr p"
    by (cases "Params_Parse ''w=4096,q=100,dpr=0x1p-1''") (code_simp, blast)
  from params_within_limits [OF p] p show ?thesis by blast
qed

text \<open>
  Options survive printing: every parameter set within the limits (with the default \<open>dpr\<close> and
  blur) is what \<open>Parse\<close> reads from the option list that spells it out.
\<close>

theorem params_print_parse:
  assumes "params_ok p" and "pm_DPR p = Finite 1" and "pm_Blur p = Finite 0"
  shows "Params_Parse (print_params p) = Inr p"
proof -
  have ranges: "pm_Width p \<noteq> 0 \<Longrightarrow> 1 \<le> pm_Width p \<and> pm_Width p \<le> 4096"
      "pm_Height p \<noteq> 0 \<Longrightarrow> 1 \<le> pm_Height p \<and> pm_Height p \<le> 4096"
      "1 \<le> pm_Quality p" "pm_Quality p \<le> 100"
    using assms(1) by (auto simp: params_ok_def)
  have "Params_Parse (print_params p) =
      parse_options (map (\<lambda>(k, v). k @ ''='' @ v) (option_pairs p)) Defaults"
    unfolding print_params_def
    by (rule parse_printed_value [OF option_pairs_plain [OF assms(1)]]) (simp add: option_pairs_def)
  also have "\<dots> = Inr p"
    using ranges assms(2,3)
    by (cases p; cases "pm_Width p = 0"; cases "pm_Height p = 0"; cases "pm_Gray p"; cases "pm_FlipH p";
        cases "pm_FlipV p") (simp_all add: option_pairs_def option_simps [simplified] Defaults_def)
  finally show ?thesis .
qed

theorem params_print_parse_witness:
  "Params_Parse (print_params (Defaults\<lparr>pm_Width := 800, pm_Fit := FitCover, pm_FlipH := True\<rparr>)) =
     Inr (Defaults\<lparr>pm_Width := 800, pm_Fit := FitCover, pm_FlipH := True\<rparr>)"
  by (rule params_print_parse) (simp_all add: params_ok_def Defaults_def in_range_def)


section \<open>Dimensions\<close>

text \<open>A codec for the witnesses: resampling gives a black picture of the right size.\<close>

definition plain_codec :: codec where
  "plain_codec =
     \<lparr>c_DecodeConfig = (\<lambda>_. Some (2, 1, ''png'')), c_Decode = (\<lambda>_. Some (DecodedOther 2 1 (replicate 8 0))),
      c_gifFrames = (\<lambda>_. None), c_scale = (\<lambda>_ _ dst. im_pix dst), c_overWhite = im_pix,
      c_jpeg = (\<lambda>_ _. Some ''j''), c_png = (\<lambda>_. Some ''p''), c_gif = (\<lambda>_. Some ''g'')\<rparr>"

definition plain_image :: "int \<Rightarrow> int \<Rightarrow> nrgba" where
  "plain_image w h = \<lparr>im_minX = 0, im_minY = 0, im_w = w, im_h = h, im_pix = []\<rparr>"

text \<open>
  C25. A box given on both sides is kept: for accepted options with width, height and a \<open>dpr\<close> that
  is a number, and every source that passes the pixel limit, \<open>resize\<close> succeeds and its result is
  inside the box the options ask for, at most 4096 by 4096. \<open>fill\<close> and \<open>cover\<close> hit the box
  exactly, \<open>contain\<close> touches it, and \<open>scaledown\<close> never exceeds the source, all this in the
  rounding of double arithmetic.
\<close>

theorem resize_keeps_box:
  assumes "Params_Parse s = Inr p" and "pm_DPR p \<noteq> NaN" and "pm_Width p \<noteq> 0" and "pm_Height p \<noteq> 0"
    and "source_ok img"
  shows "\<exists>out. resize x img p = Some out \<and>
    in_box img (pm_Fit p) (scaleDim (pm_Width p) (pm_DPR p)) (scaleDim (pm_Height p) (pm_DPR p)) out \<and>
    im_w out \<le> 4096 \<and> im_h out \<le> 4096"
proof -
  have "params_ok p"
    using assms(1) parse_options_ok [of "splitOn CHR '','' s" Defaults p] by (auto simp: Params_Parse_def split: if_splits)
  note asked = asked_both [OF this assms(2-4)]
  from resize_into_box [OF assms(5) asked(1,2,3,4,5), of x] asked(3,5) show ?thesis
    by (force simp: in_box_def)
qed

theorem resize_keeps_box_witness:
  "\<exists>out. resize plain_codec (plain_image 1000 10) (Defaults\<lparr>pm_Width := 30, pm_Height := 40\<rparr>) = Some out \<and>
     im_w out \<le> 4096 \<and> im_h out \<le> 4096"
proof -
  have "Params_Parse ''w=30,h=40'' = Inr (Defaults\<lparr>pm_Width := 30, pm_Height := 40\<rparr>)" by code_simp
  from resize_keeps_box [OF this, of "plain_image 1000 10" plain_codec] show ?thesis
    by (auto simp: Defaults_def source_ok_def plain_image_def maxSrcPixels_def)
qed

text \<open>
  Without width and height a picture is capped at 2048 on its longest side, and one that is
  already within that is left as it is.
\<close>

theorem resize_default_cap:
  assumes "source_ok img" and "pm_Width p = 0" and "pm_Height p = 0"
  shows "\<exists>out. resize x img p = Some out \<and> 1 \<le> im_w out \<and> 1 \<le> im_h out \<and>
    (if im_w img \<le> 2048 \<and> im_h img \<le> 2048 then out = img
     else out = img \<or> im_w out \<le> 2048 \<and> im_h out \<le> 2048)"
  using resize_default [OF assms, of x] by auto

theorem resize_default_cap_witness:
  "\<exists>out. resize plain_codec (plain_image 6000 4000) Defaults = Some out \<and> 1 \<le> im_w out"
  using resize_default_cap [of "plain_image 6000 4000" Defaults plain_codec]
  by (auto simp: source_ok_def plain_image_def maxSrcPixels_def Defaults_def)

text \<open>
  A derived side is not limited: \<open>MaxDim\<close> bounds the sides a request names, but a request that
  names the width only lets the height grow with the source. A source of one column and \<open>n\<close> rows,
  a few kilobytes as a file, is turned by \<open>w=4096,fit=fill\<close> into 4096 columns and \<open>4096 n\<close> rows, a
  buffer of \<open>2^26 n\<close> bytes, up to \<open>2^48\<close>; beyond that the allocation panics.
\<close>

theorem derived_side_unbounded:
  assumes "Params_Parse ''w=4096,fit=fill'' = Inr p" and "im_w img = 1" and "im_h img = n"
    and "1 \<le> n" and "n \<le> maxSrcPixels"
  shows "if n \<le> 2 ^ 22
    then \<exists>dst. NewNRGBA 4096 (4096 * n) = Some dst \<and> int (length (im_pix dst)) = 2 ^ 26 * n \<and>
      resize x img p = Some (dst\<lparr>im_pix := c_scale x img (bounds img) dst\<rparr>)
    else resize x img p = None"
proof -
  have "Params_Parse ''w=4096,fit=fill'' = Inr (Defaults\<lparr>pm_Width := 4096, pm_Fit := FitFill\<rparr>)" by code_simp
  with assms(1) have p: "p = Defaults\<lparr>pm_Width := 4096, pm_Fit := FitFill\<rparr>" by simp
  have src: "source_ok img" using assms(2-5) by (simp add: source_ok_def)
  have "scaleDim 4096 (Finite 1) = 4096" by code_simp
  then have asked: "asked_dims (im_w img) (im_h img) p = Some (4096, 0)"
    by (simp add: p Defaults_def asked_dims_def scaleDim_def)
  have "(1 :: int) \<le> 4096" "(4096 :: int) \<le> 4096" by simp_all
  from resize_asked_width [OF src asked this, of x]
  have "resize x img p = scaleTo x img (bounds img) 4096 (4096 * n)"
    using assms(2-4) by (simp add: p Let_def mult.commute)
  then show ?thesis
    using assms(4,5) by (simp add: scaleTo_def NewNRGBA_def int64_def Let_def maxSrcPixels_def)
qed

theorem derived_side_unbounded_witness:
  "\<exists>dst. NewNRGBA 4096 (4096 * 65535) = Some dst \<and> int (length (im_pix dst)) = 2 ^ 26 * 65535"
proof -
  obtain p where "Params_Parse ''w=4096,fit=fill'' = Inr p"
    by (cases "Params_Parse ''w=4096,fit=fill''") (code_simp, blast)
  from derived_side_unbounded [OF this, of "plain_image 1 65535" 65535 plain_codec] show ?thesis
    by (auto simp: plain_image_def maxSrcPixels_def)
qed

text \<open>
  \<open>dpr=nan\<close> is accepted (the range check of \<open>parseRange\<close> is false for both comparisons), and
  the conversion of the scaled width to an integer gives the smallest one: \<open>w=800,dpr=nan\<close> is
  answered with a single pixel instead of an error.
\<close>

theorem nan_dpr_accepted:
  assumes "Params_Parse ''w=800,dpr=nan'' = Inr p" and "source_ok img"
  shows "pm_DPR p = NaN \<and> (\<exists>out. resize x img p = Some out \<and> im_w out = 1 \<and> im_h out = 1)"
proof -
  have "Params_Parse ''w=800,dpr=nan'' = Inr (Defaults\<lparr>pm_Width := 800, pm_DPR := NaN\<rparr>)" by code_simp
  with assms(1) have p: "p = Defaults\<lparr>pm_Width := 800, pm_DPR := NaN\<rparr>" by simp
  have "resize x img p = scaleTo x img (bounds img) 1 1"
    by (rule resize_NaN_width [OF assms(2)]) (simp_all add: p Defaults_def)
  with scaleTo_small [of 1 1 x img "bounds img"] show ?thesis by (auto simp: p)
qed

theorem nan_dpr_accepted_witness:
  "\<exists>p out. Params_Parse ''w=800,dpr=nan'' = Inr p \<and>
     resize plain_codec (plain_image 1000 1000) p = Some out \<and> im_w out = 1 \<and> im_h out = 1"
proof -
  obtain p where p: "Params_Parse ''w=800,dpr=nan'' = Inr p"
    by (cases "Params_Parse ''w=800,dpr=nan''") (code_simp, blast)
  from nan_dpr_accepted [OF p, of "plain_image 1000 1000" plain_codec] p show ?thesis
    by (auto simp: plain_image_def source_ok_def maxSrcPixels_def)
qed

section \<open>Pixels\<close>

lemma image_eqI:
  assumes "image_ok a" and "image_ok b" and "im_minX a = im_minX b" "im_minY a = im_minY b"
    and "im_w a = im_w b" "im_h a = im_h b"
    and "\<And>xx y. xx < nat (im_w a) \<Longrightarrow> y < nat (im_h a) \<Longrightarrow> pixel a xx y = pixel b xx y"
  shows "a = b"
proof -
  let ?w = "nat (im_w a)" and ?h = "nat (im_h a)"
  have w: "im_w a = int ?w" "im_h a = int ?h" using assms(1) by (simp_all add: image_ok_def)
  have len: "length (im_pix c) = 4 * (?w * ?h)" if "image_ok c" "im_w c = im_w a" "im_h c = im_h a" for c
  proof -
    have "int (length (im_pix c)) = int (4 * (?w * ?h))" using that w by (simp add: image_ok_def)
    then show ?thesis by (simp only: of_nat_eq_iff)
  qed
  have "im_pix a = im_pix b"
  proof (rule pix_eqI [OF len len])
    fix k assume k: "k < ?w * ?h"
    then have "0 < ?w" using not_gr_zero by fastforce
    let ?xx = "k mod ?w" and ?y = "k div ?w"
    have xx: "?xx < ?w" "?y < ?h" and eq: "?y * ?w + ?xx = k"
      using k \<open>0 < ?w\<close> by (simp_all add: less_mult_imp_div_less mult.commute)
    have off: "nat (PixOffset c (im_minX c + int ?xx) (im_minY c + int ?y)) = 4 * k"
      if "im_w c = im_w a" for c
      using PixOffset_nat [of c ?xx ?y] that assms(1) eq by (simp add: image_ok_def)
    show "read4 (im_pix a) (4 * k) = read4 (im_pix b) (4 * k)"
      using assms(7) [OF xx] unfolding pixel_def off [OF refl] off [OF assms(5) [symmetric]] .
  qed (use assms in simp_all)
  with assms(3-6) show ?thesis by simp
qed

text \<open>
  Flipping mirrors: the pixel of the result in column \<open>x\<close> and row \<open>y\<close> is the pixel of the
  picture in the mirrored column and row, and flipping twice gives the picture back.
\<close>

theorem flip_mirrors:
  assumes "image_ok img" and "im_minX img = 0" and "im_minY img = 0"
  shows "\<exists>out. flip img hz vt = Some out \<and> flip out hz vt = Some img \<and>
    (\<forall>xx < nat (im_w img). \<forall>y < nat (im_h img). pixel out xx y =
       pixel img (if hz then nat (im_w img) - 1 - xx else xx) (if vt then nat (im_h img) - 1 - y else y))"
proof -
  obtain out where out: "flip img hz vt = Some out" "image_ok out" "im_minX out = 0" "im_minY out = 0"
      "im_w out = im_w img" "im_h out = im_h img"
    and px: "\<And>xx y. xx < nat (im_w img) \<Longrightarrow> y < nat (im_h img) \<Longrightarrow> pixel out xx y =
       pixel img (flip_source hz (nat (im_w img)) xx) (flip_source vt (nat (im_h img)) y)"
    using flip_pixels [OF assms(1), of hz vt] by blast
  obtain again where again: "flip out hz vt = Some again" "image_ok again" "im_minX again = 0" "im_minY again = 0"
      "im_w again = im_w img" "im_h again = im_h img"
    and px': "\<And>xx y. xx < nat (im_w img) \<Longrightarrow> y < nat (im_h img) \<Longrightarrow> pixel again xx y =
       pixel out (flip_source hz (nat (im_w img)) xx) (flip_source vt (nat (im_h img)) y)"
    using flip_pixels [OF out(2), of hz vt] out(5,6) by auto
  have "again = img"
    by (rule image_eqI) (use again assms in \<open>simp_all add: px px' flip_source_less\<close>)
  then show ?thesis using out(1) again(1) px by (auto simp: flip_source_def)
qed

theorem flip_mirrors_witness:
  "\<exists>out. flip \<lparr>im_minX = 0, im_minY = 0, im_w = 2, im_h = 1, im_pix = [1, 2, 3, 4, 5, 6, 7, 8]\<rparr> True False = Some out \<and>
     flip out True False = Some \<lparr>im_minX = 0, im_minY = 0, im_w = 2, im_h = 1, im_pix = [1, 2, 3, 4, 5, 6, 7, 8]\<rparr>"
  using flip_mirrors [of "\<lparr>im_minX = 0, im_minY = 0, im_w = 2, im_h = 1, im_pix = [1, 2, 3, 4, 5, 6, 7, 8]\<rparr>" True False]
  by (auto simp: image_ok_def)

lemma window_mean_byte:
  fixes line :: "8 word list"
  assumes "0 \<le> radius"
  shows "uint (word_of_int (go_div (window_at line n radius i c) (2 * radius + 1)) :: 8 word) =
    window_at line n radius i c div (2 * radius + 1)"
proof -
  let ?sum = "window_at line n radius i c"
  have byte: "0 \<le> line_at line q c \<and> line_at line q c \<le> 255" for q
    using uint_lt2p [of "line ! (nat q * 4 + c)"] by (simp add: line_at_def)
  have pos: "0 \<le> ?sum" unfolding window_at_def using byte by (intro sum_list_nonneg) auto
  have "?sum \<le> (\<Sum>j \<leftarrow> [- radius .. radius]. 255)"
    unfolding window_at_def using byte by (intro sum_list_mono) simp
  also have "\<dots> = 255 * (2 * radius + 1)" using assms by (simp add: sum_list_triv)
  finally have "?sum div (2 * radius + 1) \<le> 255 * (2 * radius + 1) div (2 * radius + 1)"
    using assms by (intro zdiv_mono1) simp_all
  also have "\<dots> = 255" using assms by (intro nonzero_mult_div_cancel_right) simp
  finally have "?sum div (2 * radius + 1) \<le> 255" .
  moreover have "0 \<le> ?sum div (2 * radius + 1)" using pos assms by (simp add: pos_imp_zdiv_nonneg_iff)
  ultimately show ?thesis using pos assms by (simp add: uint_word_of_int)
qed

text \<open>
  C24. The sliding-window blur is the box blur: after a pass along an axis every byte is the mean
  (rounded down) of the \<open>2 radius + 1\<close> bytes of its channel around it along the axis in the
  picture before the pass, with the ends of the line repeated.
\<close>

theorem blur_is_window_mean:
  assumes "0 \<le> radius" and "length pix = 4 * (w * h)"
    and "k < (if horizontal then h else w)" and "i < (if horizontal then w else h)" and "c < 4"
  shows "length (blurAxis pix w h radius horizontal) = length pix \<and>
    uint (blurAxis pix w h radius horizontal ! (blur_idx w horizontal k i + c)) =
      window_mean pix w h radius horizontal k i c"
proof -
  let ?inner = "if horizontal then w else h" and ?f = "axis_block w horizontal k"
  let ?line = "the_line pix ?inner ?f"
  note groups = blurAxis_groups [OF assms(1-4)]
  have fits: "4 * ?f i + 4 \<le> length pix" if "i < ?inner" for i
  proof -
    have "?f i < w * h"
      using that assms(3) block_less [of i w k h] block_less [of k w i h]
      by (cases horizontal) (simp_all add: axis_block_def)
    then show ?thesis unfolding assms(2) by linarith
  qed
  have clamp: "nat (clampInt q 0 (int ?inner - 1)) < ?inner" for q
    using assms(4) by (auto simp: clampInt_def split: if_splits)
  have at: "line_at ?line (clampInt q 0 (int ?inner - 1)) c =
      uint (pix ! (blur_idx w horizontal k (nat (clampInt q 0 (int ?inner - 1))) + c))" for q
    using the_line_nth [of ?inner ?f pix, OF fits clamp assms(5)] by (simp add: line_at_def blur_idx_block)
  let ?sum = "window_at ?line ?inner radius (int i) c"
  have mean: "window_mean pix w h radius horizontal k i c = ?sum div (2 * radius + 1)"
    unfolding window_mean_def window_at_def at ..
  have "uint (word_of_int (go_div ?sum (2 * radius + 1)) :: 8 word) = ?sum div (2 * radius + 1)"
    by (rule window_mean_byte [OF assms(1)])
  moreover have "blurAxis pix w h radius horizontal ! (blur_idx w horizontal k i + c) =
      word_of_int (go_div ?sum (2 * radius + 1))"
  proof -
    have "4 * ?f i + 4 \<le> length (blurAxis pix w h radius horizontal)"
      using fits [OF assms(4)] groups by simp
    then have "blurAxis pix w h radius horizontal ! (4 * ?f i + c) =
        read4 (blurAxis pix w h radius horizontal) (4 * ?f i) ! c"
      using assms(5) by (simp add: read4_def)
    also have "\<dots> = blur_vals ?line ?inner radius i ! c" using groups by simp
    finally show ?thesis using assms(5) by (simp add: blur_vals_def blur_idx_block)
  qed
  ultimately show ?thesis using groups mean by simp
qed

theorem blur_is_window_mean_witness:
  "uint (blurAxis [0, 0, 0, 255, 90, 0, 0, 255, 30, 0, 0, 255] 3 1 1 True ! 4) = 40"
proof -
  have "window_mean [0, 0, 0, 255, 90, 0, 0, 255, 30, 0, 0, 255] 3 1 1 True 0 1 0 = 40"
    by code_simp
  with blur_is_window_mean [of 1 "[0, 0, 0, 255, 90, 0, 0, 255, 30, 0, 0, 255]" 3 1 0 True 1 0]
  show ?thesis by (simp add: blur_idx_def)
qed

end
