(* ===== verification/Config.thy ===== *)
theory Config
  imports GoTime GoNet Http CertGuard Registry
begin

text \<open>
  \<open>internal/config/config.go\<close>: the configuration of a node, read from the environment.
  \<open>os.Getenv\<close> is a function from names to values (the empty string when a variable is unset).
  The warnings the readers log are left out; the value they fall back to is not.
\<close>

type_synonym environ = "string \<Rightarrow> string"

section \<open>Reading one variable\<close>

definition envStr :: "environ \<Rightarrow> string \<Rightarrow> string \<Rightarrow> string" where
  "envStr getenv key dflt = (if getenv key \<noteq> [] then getenv key else dflt)"

definition envInt :: "environ \<Rightarrow> string \<Rightarrow> int \<Rightarrow> int" where
  "envInt getenv key dflt =
     (if getenv key = [] then dflt
      else case atoi (getenv key) of None \<Rightarrow> dflt | Some n \<Rightarrow> n)"

definition envNonNegInt :: "environ \<Rightarrow> string \<Rightarrow> int \<Rightarrow> int" where
  "envNonNegInt getenv key dflt = (let n = envInt getenv key dflt in if n < 0 then 0 else n)"

text \<open>\<open>strconv.ParseBool\<close>.\<close>

definition ParseBool :: "string \<Rightarrow> bool option" where
  "ParseBool s =
     (if s \<in> {''1'', ''t'', ''T'', ''true'', ''TRUE'', ''True''} then Some True
      else if s \<in> {''0'', ''f'', ''F'', ''false'', ''FALSE'', ''False''} then Some False
      else None)"

definition envBool :: "environ \<Rightarrow> string \<Rightarrow> bool \<Rightarrow> bool" where
  "envBool getenv key dflt =
     (if getenv key = [] then dflt
      else case ParseBool (getenv key) of None \<Rightarrow> dflt | Some b \<Rightarrow> b)"

definition envDuration :: "environ \<Rightarrow> string \<Rightarrow> duration \<Rightarrow> duration" where
  "envDuration getenv key dflt =
     (if getenv key = [] then dflt
      else case ParseDuration (getenv key) of None \<Rightarrow> dflt | Some d \<Rightarrow> d)"

text \<open>The unit of a size and the text before it; the product is a 64-bit multiplication.\<close>

definition size_unit :: "string \<Rightarrow> int \<times> string" where
  "size_unit v =
     (if hasSuffix v ''gb'' then (2 ^ 30, trimSuffix v ''gb'')
      else if hasSuffix v ''mb'' then (2 ^ 20, trimSuffix v ''mb'')
      else if hasSuffix v ''kb'' then (2 ^ 10, trimSuffix v ''kb'')
      else (1, v))"

definition envBytes :: "environ \<Rightarrow> string \<Rightarrow> int \<Rightarrow> int" where
  "envBytes getenv key dflt =
     (let v = toLower (trimSpace (getenv key)) in
      if v = [] then dflt
      else let (mult, v') = size_unit v in
           case parseInt10 (trimSpace v') of
             None \<Rightarrow> dflt
           | Some n \<Rightarrow> wrap64 (n * mult))"

definition splitList :: "string \<Rightarrow> string list" where
  "splitList v = filter (\<lambda>p. p \<noteq> []) (map trimSpace (splitOn (CHR '','') v))"

section \<open>The configuration\<close>

record config =
  cfg_DataDir :: string
  cfg_HTTPSAddr :: string
  cfg_Hostname :: string
  cfg_ACMEEmail :: string
  cfg_ACMECA :: string
  cfg_ACMEStaging :: bool
  cfg_ACMEDebug :: bool
  cfg_PublicIPs :: "ip list"
  cfg_Resolver :: string
  cfg_RefreshInterval :: duration
  cfg_PendingRefreshInterval :: duration
  cfg_CertsPerApexPerDay :: int
  cfg_CertsPerApexPerWeek :: int
  cfg_CertsGlobalPerHour :: int
  cfg_CertsGlobalPerWeek :: int
  cfg_CacheMaxBytes :: int
  cfg_CacheMaxObjectBytes :: int
  cfg_CacheMemHeadroomBytes :: int
  cfg_BunnyAPIKey :: string
  cfg_BunnyZoneID :: int

datatype config_error = InvalidIP string | ZoneIDRequired | HostnameRequired | PublicIPsRequired

text \<open>The loop over \<open>HUBCDN_PUBLIC_IPS\<close>: the first address that does not parse ends it.\<close>

fun parse_ips :: "string list \<Rightarrow> config_error + ip list" where
  "parse_ips [] = Inr []"
| "parse_ips (raw # rest) =
     (case ParseIP raw of
        None \<Rightarrow> Inl (InvalidIP raw)
      | Some ip \<Rightarrow> (case parse_ips rest of Inl e \<Rightarrow> Inl e | Inr ips \<Rightarrow> Inr (ip # ips)))"

definition read_env :: "environ \<Rightarrow> config" where
  "read_env getenv =
     \<lparr>cfg_DataDir = envStr getenv ''HUBCDN_DATA_DIR'' ''./data'',
      cfg_HTTPSAddr = envStr getenv ''HUBCDN_HTTPS_ADDR'' '':443'',
      cfg_Hostname = envStr getenv ''HUBCDN_HOSTNAME'' [],
      cfg_ACMEEmail = envStr getenv ''HUBCDN_ACME_EMAIL'' [],
      cfg_ACMECA = envStr getenv ''HUBCDN_ACME_CA'' [],
      cfg_ACMEStaging = envBool getenv ''HUBCDN_ACME_STAGING'' False,
      cfg_ACMEDebug = envBool getenv ''HUBCDN_ACME_DEBUG'' False,
      cfg_PublicIPs = [],
      cfg_Resolver = envStr getenv ''HUBCDN_RESOLVER'' [],
      cfg_RefreshInterval = envDuration getenv ''HUBCDN_REFRESH_INTERVAL'' (5 * minute),
      cfg_PendingRefreshInterval =
        envDuration getenv ''HUBCDN_PENDING_REFRESH_INTERVAL'' (30 * second),
      cfg_CertsPerApexPerDay = envNonNegInt getenv ''HUBCDN_CERTS_PER_APEX_PER_DAY'' 10,
      cfg_CertsPerApexPerWeek = envNonNegInt getenv ''HUBCDN_CERTS_PER_APEX_PER_WEEK'' 30,
      cfg_CertsGlobalPerHour = envNonNegInt getenv ''HUBCDN_CERTS_GLOBAL_PER_HOUR'' 60,
      cfg_CertsGlobalPerWeek = envNonNegInt getenv ''HUBCDN_CERTS_GLOBAL_PER_WEEK'' 1000,
      cfg_CacheMaxBytes = envBytes getenv ''HUBCDN_CACHE_MAX_BYTES'' 0,
      cfg_CacheMaxObjectBytes = envBytes getenv ''HUBCDN_CACHE_MAX_OBJECT_BYTES'' (32 * 2 ^ 20),
      cfg_CacheMemHeadroomBytes =
        envBytes getenv ''HUBCDN_CACHE_MEM_HEADROOM_BYTES'' (256 * 2 ^ 20),
      cfg_BunnyAPIKey = envStr getenv ''HUBCDN_BUNNY_API_KEY'' [],
      cfg_BunnyZoneID = envInt getenv ''HUBCDN_BUNNY_ZONE_ID'' 0\<rparr>"

definition Load :: "environ \<Rightarrow> config_error + config" where
  "Load getenv =
     (let cfg = read_env getenv in
      case parse_ips (splitList (getenv ''HUBCDN_PUBLIC_IPS'')) of
        Inl e \<Rightarrow> Inl e
      | Inr ips \<Rightarrow>
          (let cfg = cfg\<lparr>cfg_PublicIPs := ips\<rparr> in
           if cfg_BunnyAPIKey cfg \<noteq> [] \<and> cfg_BunnyZoneID cfg = 0 then Inl ZoneIDRequired
           else if cfg_BunnyAPIKey cfg \<noteq> [] \<and> cfg_Hostname cfg = [] then Inl HostnameRequired
           else if cfg_BunnyAPIKey cfg \<noteq> [] \<and> cfg_PublicIPs cfg = [] then Inl PublicIPsRequired
           else Inr cfg))"

text \<open>What \<open>server.New\<close> hands to the issuance guard.\<close>

definition config_limits :: "config \<Rightarrow> limits" where
  "config_limits cfg =
     \<lparr>l_apexDay = cfg_CertsPerApexPerDay cfg, l_apexWeek = cfg_CertsPerApexPerWeek cfg,
      l_nodeHour = cfg_CertsGlobalPerHour cfg, l_nodeWeek = cfg_CertsGlobalPerWeek cfg\<rparr>"

section \<open>Lemmas\<close>

lemma envNonNegInt_nonneg: "0 \<le> envNonNegInt getenv key dflt"
  by (simp add: envNonNegInt_def Let_def)

lemma envNonNegInt_negative:
  "atoi (getenv key) = Some n \<Longrightarrow> n \<le> 0 \<Longrightarrow> envNonNegInt getenv key dflt = 0"
  by (auto simp: envNonNegInt_def envInt_def parseInt10_def Let_def)

lemma envBytes_int64: "int64 dflt \<Longrightarrow> int64 (envBytes getenv key dflt)"
  by (simp add: envBytes_def Let_def split: prod.split option.split)

lemma envDuration_int64: "int64 dflt \<Longrightarrow> int64 (envDuration getenv key dflt)"
  by (auto simp: envDuration_def split: option.split dest: ParseDuration_int64)

lemma parse_ips_Inr: "parse_ips raws = Inr ips \<longleftrightarrow> map ParseIP raws = map Some ips"
proof (induction raws arbitrary: ips)
  case Nil
  then show ?case by auto
next
  case (Cons raw raws)
  show ?case
    by (cases ips; cases "ParseIP raw"; cases "parse_ips raws") (simp_all flip: Cons.IH)
qed

lemma parse_ips_Inl:
  "parse_ips raws = Inl e \<longleftrightarrow>
     (\<exists>before raw after. raws = before @ raw # after \<and> ParseIP raw = None \<and> e = InvalidIP raw
        \<and> (\<forall>r \<in> set before. ParseIP r \<noteq> None))"
  (is "_ \<longleftrightarrow> ?first raws")
proof (induction raws)
  case Nil
  then show ?case by simp
next
  case (Cons r raws)
  have step: "parse_ips (r # raws) = Inl e \<longleftrightarrow>
      ParseIP r = None \<and> e = InvalidIP r \<or> ParseIP r \<noteq> None \<and> parse_ips raws = Inl e"
    by (auto split: option.splits sum.splits)
  have "?first (r # raws) \<longleftrightarrow>
      ParseIP r = None \<and> e = InvalidIP r \<or> ParseIP r \<noteq> None \<and> ?first raws"
    (is "_ = ?R")
  proof
    assume "?first (r # raws)"
    then obtain before raw after where f: "r # raws = before @ raw # after" "ParseIP raw = None"
      "e = InvalidIP raw" "\<forall>r \<in> set before. ParseIP r \<noteq> None" by blast
    show ?R
    proof (cases before)
      case Nil
      with f show ?thesis by simp
    next
      case (Cons a before')
      with f show ?thesis by auto
    qed
  next
    assume ?R
    then show "?first (r # raws)"
    proof (elim disjE conjE exE)
      assume "ParseIP r = None" "e = InvalidIP r"
      then show ?thesis by - (rule exI [of _ "[]"], auto)
    next
      fix before raw after
      assume "ParseIP r \<noteq> None" "raws = before @ raw # after" "ParseIP raw = None"
        "e = InvalidIP raw" "\<forall>r \<in> set before. ParseIP r \<noteq> None"
      then show ?thesis by - (rule exI [of _ "r # before"], auto)
    qed
  qed
  then show ?case unfolding step Cons.IH by (rule sym)
qed

lemma run_tick_positive_iff: "0 < run_tick r \<longleftrightarrow> 0 < rg_activeEvery r"
  by (auto simp: run_tick_def)

end
