(* ===== verification/ConfigProps.thy ===== *)
theory ConfigProps
  imports Config RegistryProps
begin

text \<open>
  Properties of the configuration reader, and what its values do to the parts that receive them.
\<close>

text \<open>An environment written out as a list of settings.\<close>

definition env_of :: "(string \<times> string) list \<Rightarrow> environ" where
  "env_of kvs key = (case map_of kvs key of Some v \<Rightarrow> v | None \<Rightarrow> [])"

lemma env_of_Nil [simp]: "env_of [] key = []"
  by (simp add: env_of_def)

lemma env_of_Cons [simp]: "env_of ((k, v) # kvs) key = (if key = k then v else env_of kvs key)"
  by (simp add: env_of_def)

section \<open>Loading\<close>

lemma parse_ips_error: "parse_ips raws = Inl e \<Longrightarrow> \<exists>raw. e = InvalidIP raw"
  unfolding parse_ips_Inl by blast

text \<open>
  C22. What loading does with every environment. It fails for an address that does not parse or an
  incomplete DNS registration; otherwise the public addresses are exactly the listed ones, no
  issuance limit is negative, the sizes and intervals are 64-bit values, and the registration is
  off or has its key, zone, host name and at least one address.
\<close>

theorem Load_outcome:
  "case Load getenv of
     Inl (InvalidIP raw) \<Rightarrow>
       raw \<in> set (splitList (getenv ''HUBCDN_PUBLIC_IPS'')) \<and> ParseIP raw = None
   | Inl ZoneIDRequired \<Rightarrow>
       getenv ''HUBCDN_BUNNY_API_KEY'' \<noteq> [] \<and> envInt getenv ''HUBCDN_BUNNY_ZONE_ID'' 0 = 0
   | Inl HostnameRequired \<Rightarrow>
       getenv ''HUBCDN_BUNNY_API_KEY'' \<noteq> [] \<and> getenv ''HUBCDN_HOSTNAME'' = []
   | Inl PublicIPsRequired \<Rightarrow>
       getenv ''HUBCDN_BUNNY_API_KEY'' \<noteq> []
       \<and> splitList (getenv ''HUBCDN_PUBLIC_IPS'') = []
   | Inr cfg \<Rightarrow>
       map ParseIP (splitList (getenv ''HUBCDN_PUBLIC_IPS'')) = map Some (cfg_PublicIPs cfg)
       \<and> list_all (\<lambda>n. 0 \<le> n) [cfg_CertsPerApexPerDay cfg, cfg_CertsPerApexPerWeek cfg,
            cfg_CertsGlobalPerHour cfg, cfg_CertsGlobalPerWeek cfg]
       \<and> list_all int64 [cfg_CacheMaxBytes cfg, cfg_CacheMaxObjectBytes cfg,
            cfg_CacheMemHeadroomBytes cfg, cfg_RefreshInterval cfg, cfg_PendingRefreshInterval cfg]
       \<and> (cfg_BunnyAPIKey cfg = [] \<or>
            cfg_BunnyZoneID cfg \<noteq> 0 \<and> cfg_Hostname cfg \<noteq> [] \<and> cfg_PublicIPs cfg \<noteq> [])"
proof (cases "Load getenv")
  case (Inl e)
  show ?thesis
  proof (cases e)
    case (InvalidIP raw)
    with Inl have "parse_ips (splitList (getenv ''HUBCDN_PUBLIC_IPS'')) = Inl (InvalidIP raw)"
      by (auto simp: Load_def Let_def split: sum.splits if_splits)
    with Inl InvalidIP show ?thesis by (auto simp: parse_ips_Inl)
  qed (use Inl in \<open>auto simp: Load_def read_env_def envStr_def Let_def parse_ips_Inr
         split: sum.splits if_splits dest!: parse_ips_error\<close>)
next
  case (Inr cfg)
  then have ips: "parse_ips (splitList (getenv ''HUBCDN_PUBLIC_IPS'')) = Inr (cfg_PublicIPs cfg)"
    and cfg: "cfg = (read_env getenv)\<lparr>cfg_PublicIPs := cfg_PublicIPs cfg\<rparr>"
    and bunny: "cfg_BunnyAPIKey cfg = [] \<or>
            cfg_BunnyZoneID cfg \<noteq> 0 \<and> cfg_Hostname cfg \<noteq> [] \<and> cfg_PublicIPs cfg \<noteq> []"
    by (auto simp: Load_def Let_def split: sum.splits if_splits)
  have "list_all (\<lambda>n. 0 \<le> n) [cfg_CertsPerApexPerDay cfg, cfg_CertsPerApexPerWeek cfg,
            cfg_CertsGlobalPerHour cfg, cfg_CertsGlobalPerWeek cfg]"
    by (subst (1 2 3 4) cfg) (simp add: read_env_def envNonNegInt_nonneg)
  moreover have "list_all int64 [cfg_CacheMaxBytes cfg, cfg_CacheMaxObjectBytes cfg,
            cfg_CacheMemHeadroomBytes cfg, cfg_RefreshInterval cfg, cfg_PendingRefreshInterval cfg]"
    by (subst (1 2 3 4 5) cfg)
      (simp add: read_env_def, intro conjI envBytes_int64 envDuration_int64;
       simp add: int64_def duration_defs)
  ultimately show ?thesis using Inr ips bunny by (simp add: parse_ips_Inr)
qed

section \<open>Limits\<close>

text \<open>
  Issuance limits given as negative numbers are clamped to zero, and zero switches a limit off:
  with such a configuration the guard never refuses, whatever has been issued.
\<close>

theorem negative_limits_disable_guard:
  assumes "Load getenv = Inr cfg"
    and "atoi (getenv ''HUBCDN_CERTS_PER_APEX_PER_DAY'') = Some a" and "a < 0"
    and "atoi (getenv ''HUBCDN_CERTS_PER_APEX_PER_WEEK'') = Some b" and "b < 0"
    and "atoi (getenv ''HUBCDN_CERTS_GLOBAL_PER_HOUR'') = Some c" and "c < 0"
    and "atoi (getenv ''HUBCDN_CERTS_GLOBAL_PER_WEEK'') = Some d" and "d < 0"
    and "g_limits g = config_limits cfg"
  shows "snd (Check g apex now0 now) = None"
proof -
  have "config_limits cfg = \<lparr>l_apexDay = 0, l_apexWeek = 0, l_nodeHour = 0, l_nodeWeek = 0\<rparr>"
    using assms(1) envNonNegInt_negative [of getenv] assms(2-9)
    by (auto simp: Load_def read_env_def config_limits_def Let_def split: sum.splits if_splits)
  with assms(10) show ?thesis by (simp add: Check_def pruneLocked_def Let_def)
qed

definition sample_negative :: environ where
  "sample_negative = env_of
     [(''HUBCDN_CERTS_PER_APEX_PER_DAY'', ''-5''), (''HUBCDN_CERTS_PER_APEX_PER_WEEK'', ''-5''),
      (''HUBCDN_CERTS_GLOBAL_PER_HOUR'', ''-5''), (''HUBCDN_CERTS_GLOBAL_PER_WEEK'', ''-5'')]"

theorem negative_limits_disable_guard_witness:
  "snd (Check \<lparr>g_limits = config_limits (projr (Load sample_negative)),
              g_events = [(''a.com'', replicate 100 1000)]\<rparr> ''a.com'' 1001 1001) = None"
proof -
  have five: "atoi ''-5'' = Some (-5)" by code_simp
  have "Load sample_negative = Inr (projr (Load sample_negative))"
    by (simp add: Load_def read_env_def sample_negative_def envStr_def splitList_def Let_def
        trimSpace_def)
  then show ?thesis
    by (rule negative_limits_disable_guard [where a = "-5" and b = "-5" and c = "-5" and d = "-5"])
      (simp_all add: sample_negative_def five)
qed

section \<open>Intervals\<close>

text \<open>
  A refresh interval of zero or less is accepted, and the registry built from it then asks for a
  ticker interval that is not positive, on which \<open>time.NewTicker\<close> panics.
\<close>

theorem nonpositive_refresh_interval_panics:
  assumes "Load getenv = Inr cfg"
    and "ParseDuration (getenv ''HUBCDN_REFRESH_INTERVAL'') = Some d" and "d \<le> 0"
    and "NewRegistry x unmarshal f rs dflt (cfg_RefreshInterval cfg) (cfg_PendingRefreshInterval cfg)
           = Inr r"
  shows "run_tick r \<le> 0"
proof -
  have "getenv ''HUBCDN_REFRESH_INTERVAL'' \<noteq> []"
    using assms(2) by (auto simp: ParseDuration_def)
  then have "cfg_RefreshInterval cfg = d"
    using assms(1,2)
    by (auto simp: Load_def read_env_def envDuration_def Let_def split: sum.splits if_splits)
  moreover have "rg_activeEvery r = cfg_RefreshInterval cfg"
    using assms(4)
    by (auto simp: NewRegistry_def Let_def split: read_result.splits option.splits)
  ultimately show ?thesis using assms(3) run_tick_positive_iff [of r] by linarith
qed

theorem nonpositive_refresh_interval_panics_witness:
  "run_tick (projr (NewRegistry plain (\<lambda>_. None) NotExist SystemResolver (DefaultSettings 1000)
      (cfg_RefreshInterval (projr (Load (env_of [(''HUBCDN_REFRESH_INTERVAL'', ''0'')]))))
      (cfg_PendingRefreshInterval (projr (Load (env_of [(''HUBCDN_REFRESH_INTERVAL'', ''0'')])))))) \<le> 0"
proof (rule nonpositive_refresh_interval_panics)
  show "Load (env_of [(''HUBCDN_REFRESH_INTERVAL'', ''0'')]) =
      Inr (projr (Load (env_of [(''HUBCDN_REFRESH_INTERVAL'', ''0'')])))"
    by (simp add: Load_def read_env_def envStr_def splitList_def Let_def trimSpace_def)
  show "ParseDuration (env_of [(''HUBCDN_REFRESH_INTERVAL'', ''0'')] ''HUBCDN_REFRESH_INTERVAL'') = Some 0"
    by (simp add: ParseDuration_def)
  show "NewRegistry plain (\<lambda>_. None) NotExist SystemResolver (DefaultSettings 1000)
      (cfg_RefreshInterval (projr (Load (env_of [(''HUBCDN_REFRESH_INTERVAL'', ''0'')]))))
      (cfg_PendingRefreshInterval (projr (Load (env_of [(''HUBCDN_REFRESH_INTERVAL'', ''0'')]))))
    = Inr (projr (NewRegistry plain (\<lambda>_. None) NotExist SystemResolver (DefaultSettings 1000)
      (cfg_RefreshInterval (projr (Load (env_of [(''HUBCDN_REFRESH_INTERVAL'', ''0'')]))))
      (cfg_PendingRefreshInterval (projr (Load (env_of [(''HUBCDN_REFRESH_INTERVAL'', ''0'')]))))))"
    by (simp add: NewRegistry_def)
qed simp

section \<open>Sizes\<close>

text \<open>
  A size with a unit is read as the product of number and unit exactly when the product fits 64
  bits. A larger one is not refused: it wraps.
\<close>

lemma itoa_unit:
  assumes "0 \<le> n" and "(u, mult) \<in> {(''gb'', 2 ^ 30), (''mb'', 2 ^ 20), (''kb'', 2 ^ 10)}"
  shows "toLower (trimSpace (itoa n @ u)) = itoa n @ u"
    and "size_unit (itoa n @ u) = (mult, itoa n)" and "trimSpace (itoa n) = itoa n"
proof -
  have plain: "list_all plain_char (itoa n)"
    using nat_digits_plain(1) [of "nat n"] assms(1)
    by (auto simp: itoa_def list_all_iff plain_char_def is_digit_def)
  then show "trimSpace (itoa n) = itoa n"
    by (intro trimSpace_nospace) (auto simp: list_all_iff plain_char_def is_space_def)
  from plain have "list_all plain_char (itoa n @ u)"
    using assms(2) by (auto simp: plain_char_def)
  then show "toLower (trimSpace (itoa n @ u)) = itoa n @ u" by (rule plain_text(1))
  have suffix: "hasSuffix (itoa n @ v) p \<longleftrightarrow> v = p" if "length v = length p" for v p
    using that by (simp add: hasSuffix_def)
  have "u = ''gb'' \<and> mult = 2 ^ 30 \<or> u = ''mb'' \<and> mult = 2 ^ 20 \<or> u = ''kb'' \<and> mult = 2 ^ 10"
    using assms(2) by blast
  then show "size_unit (itoa n @ u) = (mult, itoa n)"
    by (elim disjE conjE) (simp_all add: size_unit_def suffix)
qed

theorem envBytes_exact:
  assumes "(u, mult) \<in> {(''gb'', 2 ^ 30), (''mb'', 2 ^ 20), (''kb'', 2 ^ 10)}"
    and "getenv key = itoa n @ u" and "0 \<le> n" and "n < 2 ^ 63"
  shows "envBytes getenv key dflt = n * mult \<longleftrightarrow> n * mult < 2 ^ 63"
proof -
  have "envBytes getenv key dflt = wrap64 (n * mult)"
    using itoa_unit [OF assms(3,1)] atoi_itoa [OF assms(3,4)] assms(1,2)
    by (simp add: envBytes_def Let_def) (auto simp: itoa_def)
  moreover have "0 \<le> n * mult" using assms(1,3) by auto
  moreover have "wrap64 (n * mult) = n * mult \<longleftrightarrow> int64 (n * mult)"
    by (metis wrap64_id wrap64_range)
  ultimately show ?thesis by (simp add: int64_def)
qed

theorem envBytes_exact_witness:
  "envBytes (env_of [(''HUBCDN_CACHE_MAX_BYTES'', itoa 17179869184 @ ''gb'')])
     ''HUBCDN_CACHE_MAX_BYTES'' 0 \<noteq> 17179869184 * 2 ^ 30"
  using envBytes_exact [of "''gb''" "2 ^ 30" "env_of [(''HUBCDN_CACHE_MAX_BYTES'', itoa 17179869184 @ ''gb'')]"
      "''HUBCDN_CACHE_MAX_BYTES''" 17179869184 0]
  by simp

end
