(* ===== verification/Bunny.thy ===== *)
theory Bunny
  imports GoNet Http
begin

text \<open>
  \<open>internal/bunny/bunny.go\<close>: registration of a node's addresses in a Bunny DNS zone. The API of
  the DNS service is a parameter: \<open>serve\<close> answers a call and changes the state of the service,
  and \<open>decode\<close> reads the JSON body of a reply, whose type is a parameter too.
  Contexts, timeouts and log lines are left out.
\<close>

section \<open>Addresses as text\<close>

text \<open>
  \<open>net.IP.String\<close> on the sixteen-byte addresses \<open>net.ParseIP\<close> makes: dotted quads for IPv4,
  otherwise lower-case groups with the first longest run of two or more zero groups elided.
\<close>

fun hex_digits :: "nat \<Rightarrow> string" where
  "hex_digits n =
     (if n < 16 then [''0123456789abcdef'' ! n]
      else hex_digits (n div 16) @ [''0123456789abcdef'' ! (n mod 16)])"

declare hex_digits.simps [simp del]

fun v6_groups :: "ip \<Rightarrow> nat list" where
  "v6_groups (a # b # rest) = (256 * unat a + unat b) # v6_groups rest"
| "v6_groups _ = []"

fun join :: "string \<Rightarrow> string list \<Rightarrow> string" where
  "join sep [] = []"
| "join sep [s] = s"
| "join sep (s # t # ss) = s @ sep @ join sep (t # ss)"

definition zero_run :: "nat list \<Rightarrow> nat \<Rightarrow> nat" where
  "zero_run gs i = length (takeWhile (\<lambda>g. g = 0) (drop i gs))"

definition longest_zero_run :: "nat list \<Rightarrow> nat \<times> nat" where
  "longest_zero_run gs =
     foldl (\<lambda>(start, len) i.
         if zero_run gs i \<ge> 2 \<and> zero_run gs i > len then (i, zero_run gs i) else (start, len))
       (0, 0) [0..<8]"

definition v6_string :: "ip \<Rightarrow> string" where
  "v6_string ip =
     (let gs = v6_groups ip; (start, len) = longest_zero_run gs in
      if len = 0 then join '':'' (map hex_digits gs)
      else join '':'' (map hex_digits (take start gs)) @ ''::'' @
           join '':'' (map hex_digits (drop (start + len) gs)))"

definition ip_String :: "ip \<Rightarrow> string" where
  "ip_String ip =
     (case To4 ip of
        Some b \<Rightarrow> join ''.'' (map (\<lambda>x. nat_digits (unat x)) b)
      | None \<Rightarrow> v6_string ip)"

section \<open>The client\<close>

definition apiBase :: string where "apiBase = ''https://api.bunny.net''"

definition recordA :: int where "recordA = 0"
definition recordAAAA :: int where "recordAAAA = 1"

record client =
  cl_apiKey :: string
  cl_zoneID :: int

record dns_record =
  dr_ID :: int
  dr_Type :: int
  dr_Name :: string
  dr_Value :: string
  dr_TTL :: int

record zone =
  zn_Domain :: string
  zn_Records :: "dns_record list"

text \<open>The JSON body of a call; \<open>AddBody\<close> has the fields Type, Name, Value and Ttl.\<close>

datatype call_body = NoBody | AddBody int string string int

record api_call =
  ac_verb :: string
  ac_url :: string
  ac_header :: header
  ac_body :: call_body

datatype 'b api_reply = TransportFails | Reply int 'b

datatype bunny_error =
    Transport
  | BadStatus string string int
  | BadJson
  | FetchingZone int bunny_error
  | NotInZone string string
  | AddingRecord string string bunny_error
  | DeletingRecord int bunny_error

type_synonym ('s, 'b) service = "'s \<Rightarrow> api_call \<Rightarrow> 'b api_reply \<times> 's"

definition client_call :: "client \<Rightarrow> string \<Rightarrow> string \<Rightarrow> call_body \<Rightarrow> api_call" where
  "client_call c verb path body =
     \<lparr>ac_verb = verb, ac_url = apiBase @ path,
      ac_header = [(''AccessKey'', [cl_apiKey c]), (''Content-Type'', [''application/json'']),
                   (''Accept'', [''application/json''])],
      ac_body = body\<rparr>"

text \<open>\<open>do\<close>: the type of \<open>decode\<close> is that of the value \<open>out\<close> points to.\<close>

definition client_do ::
  "client \<Rightarrow> ('s, 'b) service \<Rightarrow> ('b \<Rightarrow> 'a option) \<Rightarrow> string \<Rightarrow> string \<Rightarrow> call_body \<Rightarrow> 's \<Rightarrow>
     (bunny_error + 'a) \<times> 's" where
  "client_do c serve decode verb path body s =
     (case serve s (client_call c verb path body) of
        (TransportFails, s') \<Rightarrow> (Inl Transport, s')
      | (Reply status data, s') \<Rightarrow>
          if status < 200 \<or> status > 299 then (Inl (BadStatus verb path status), s')
          else (case decode data of None \<Rightarrow> (Inl BadJson, s') | Some out \<Rightarrow> (Inr out, s')))"

definition zone_path :: "client \<Rightarrow> string" where
  "zone_path c = ''/dnszone/'' @ itoa (cl_zoneID c)"

definition client_zone ::
  "client \<Rightarrow> ('s, 'b) service \<Rightarrow> ('b \<Rightarrow> zone option) \<Rightarrow> 's \<Rightarrow> (bunny_error + zone) \<times> 's" where
  "client_zone c serve decode s =
     (case client_do c serve decode ''GET'' (zone_path c) NoBody s of
        (Inl err, s') \<Rightarrow> (Inl (FetchingZone (cl_zoneID c) err), s')
      | (Inr z, s') \<Rightarrow> (Inr z, s'))"

definition addRecord ::
  "client \<Rightarrow> ('s, 'b) service \<Rightarrow> int \<Rightarrow> string \<Rightarrow> string \<Rightarrow> 's \<Rightarrow> (bunny_error + unit) \<times> 's" where
  "addRecord c serve typ name val s =
     client_do c serve (\<lambda>_. Some ()) ''PUT'' (zone_path c @ ''/records'') (AddBody typ name val 300) s"

definition deleteRecord ::
  "client \<Rightarrow> ('s, 'b) service \<Rightarrow> int \<Rightarrow> 's \<Rightarrow> (bunny_error + unit) \<times> 's" where
  "deleteRecord c serve rid s =
     client_do c serve (\<lambda>_. Some ()) ''DELETE'' (zone_path c @ ''/records/'' @ itoa rid) NoBody s"

definition hasRecord :: "dns_record list \<Rightarrow> int \<Rightarrow> string \<Rightarrow> string \<Rightarrow> bool" where
  "hasRecord records typ name val =
     list_ex (\<lambda>r. dr_Type r = typ \<and> dr_Name r = name \<and> dr_Value r = val) records"

definition trim_dot :: "string \<Rightarrow> string" where
  "trim_dot s = trimSuffix (toLower s) ''.''"

definition recordName :: "string \<Rightarrow> string \<Rightarrow> bunny_error + string" where
  "recordName hostname zoneDomain =
     (let h = trim_dot hostname; z = trim_dot zoneDomain in
      if h = z then Inr []
      else if \<not> hasSuffix h (''.'' @ z) then Inl (NotInZone h z)
      else Inr (trimSuffix h (''.'' @ z)))"

section \<open>Registering and deregistering\<close>

definition record_type :: "ip \<Rightarrow> int" where
  "record_type ip = (if To4 ip = None then recordAAAA else recordA)"

fun register_ips ::
  "client \<Rightarrow> ('s, 'b) service \<Rightarrow> string \<Rightarrow> dns_record list \<Rightarrow> string \<Rightarrow> ip list \<Rightarrow> 's \<Rightarrow>
     (bunny_error + unit) \<times> 's" where
  "register_ips c serve hostname records name [] s = (Inr (), s)"
| "register_ips c serve hostname records name (ip # ips) s =
     (if hasRecord records (record_type ip) name (ip_String ip)
      then register_ips c serve hostname records name ips s
      else case addRecord c serve (record_type ip) name (ip_String ip) s of
             (Inl err, s') \<Rightarrow> (Inl (AddingRecord (ip_String ip) hostname err), s')
           | (Inr _, s') \<Rightarrow> register_ips c serve hostname records name ips s')"

definition Register ::
  "client \<Rightarrow> ('s, 'b) service \<Rightarrow> ('b \<Rightarrow> zone option) \<Rightarrow> string \<Rightarrow> ip list \<Rightarrow> 's \<Rightarrow>
     (bunny_error + unit) \<times> 's" where
  "Register c serve decode hostname ips s =
     (case client_zone c serve decode s of
        (Inl err, s') \<Rightarrow> (Inl err, s')
      | (Inr z, s') \<Rightarrow>
          (case recordName hostname (zn_Domain z) of
             Inl err \<Rightarrow> (Inl err, s')
           | Inr name \<Rightarrow> register_ips c serve hostname (zn_Records z) name ips s'))"

text \<open>The inner loop of \<open>Deregister\<close> does not stop at the first address that matches.\<close>

fun delete_matches ::
  "client \<Rightarrow> ('s, 'b) service \<Rightarrow> dns_record \<Rightarrow> ip list \<Rightarrow> 's \<Rightarrow> (bunny_error + unit) \<times> 's" where
  "delete_matches c serve rec [] s = (Inr (), s)"
| "delete_matches c serve rec (ip # ips) s =
     (if dr_Value rec \<noteq> ip_String ip then delete_matches c serve rec ips s
      else case deleteRecord c serve (dr_ID rec) s of
             (Inl err, s') \<Rightarrow> (Inl (DeletingRecord (dr_ID rec) err), s')
           | (Inr _, s') \<Rightarrow> delete_matches c serve rec ips s')"

fun deregister_records ::
  "client \<Rightarrow> ('s, 'b) service \<Rightarrow> string \<Rightarrow> ip list \<Rightarrow> dns_record list \<Rightarrow> 's \<Rightarrow>
     (bunny_error + unit) \<times> 's" where
  "deregister_records c serve name ips [] s = (Inr (), s)"
| "deregister_records c serve name ips (rec # recs) s =
     (if dr_Type rec \<noteq> recordA \<and> dr_Type rec \<noteq> recordAAAA
      then deregister_records c serve name ips recs s
      else if dr_Name rec \<noteq> name then deregister_records c serve name ips recs s
      else case delete_matches c serve rec ips s of
             (Inl err, s') \<Rightarrow> (Inl err, s')
           | (Inr _, s') \<Rightarrow> deregister_records c serve name ips recs s')"

definition Deregister ::
  "client \<Rightarrow> ('s, 'b) service \<Rightarrow> ('b \<Rightarrow> zone option) \<Rightarrow> string \<Rightarrow> ip list \<Rightarrow> 's \<Rightarrow>
     (bunny_error + unit) \<times> 's" where
  "Deregister c serve decode hostname ips s =
     (case client_zone c serve decode s of
        (Inl err, s') \<Rightarrow> (Inl err, s')
      | (Inr z, s') \<Rightarrow>
          (case recordName hostname (zn_Domain z) of
             Inl err \<Rightarrow> (Inl err, s')
           | Inr name \<Rightarrow> deregister_records c serve name ips (zn_Records z) s'))"

text \<open>
  \<open>Heartbeat\<close> for a number of ticks; \<open>meanwhile n\<close> is what others do to the service before tick
  \<open>n\<close>. An error of \<open>Register\<close> is only logged.
\<close>

fun Heartbeat ::
  "client \<Rightarrow> ('s, 'b) service \<Rightarrow> ('b \<Rightarrow> zone option) \<Rightarrow> string \<Rightarrow> ip list \<Rightarrow> (nat \<Rightarrow> 's \<Rightarrow> 's) \<Rightarrow> nat \<Rightarrow> 's \<Rightarrow> 's"
where
  "Heartbeat c serve decode hostname ips meanwhile 0 s = s"
| "Heartbeat c serve decode hostname ips meanwhile (Suc n) s =
     snd (Register c serve decode hostname ips
            (meanwhile n (Heartbeat c serve decode hostname ips meanwhile n s)))"

section \<open>The DNS service\<close>

text \<open>
  What the client relies on of the API, as its documentation describes it: a GET of the zone
  returns its domain and records, a PUT adds a record under a new identity, and a DELETE removes
  the record with that identity or answers 404 when there is none.
\<close>

definition zone_service ::
  "client \<Rightarrow> ('s, 'b) service \<Rightarrow> ('b \<Rightarrow> zone option) \<Rightarrow> ('s \<Rightarrow> dns_record list) \<Rightarrow> string \<Rightarrow> bool" where
  "zone_service c serve decode records domain \<longleftrightarrow>
     (\<forall>s. \<exists>data. serve s (client_call c ''GET'' (zone_path c) NoBody) = (Reply 200 data, s)
        \<and> decode data = Some \<lparr>zn_Domain = domain, zn_Records = records s\<rparr>) \<and>
     (\<forall>s typ name val. \<exists>data s' rid.
        serve s (client_call c ''PUT'' (zone_path c @ ''/records'') (AddBody typ name val 300))
          = (Reply 201 data, s')
        \<and> rid \<notin> dr_ID ` set (records s)
        \<and> records s' = records s @ [\<lparr>dr_ID = rid, dr_Type = typ, dr_Name = name, dr_Value = val, dr_TTL = 300\<rparr>]) \<and>
     (\<forall>s rid. \<exists>data s'.
        serve s (client_call c ''DELETE'' (zone_path c @ ''/records/'' @ itoa rid) NoBody)
          = (Reply (if rid \<in> dr_ID ` set (records s) then 204 else 404) data, s')
        \<and> records s' = filter (\<lambda>r. dr_ID r \<noteq> rid) (records s))"

lemma service_zone:
  assumes "zone_service c serve decode records domain"
  shows "client_zone c serve decode s = (Inr \<lparr>zn_Domain = domain, zn_Records = records s\<rparr>, s)"
proof -
  obtain data where "serve s (client_call c ''GET'' (zone_path c) NoBody) = (Reply 200 data, s)"
    "decode data = Some \<lparr>zn_Domain = domain, zn_Records = records s\<rparr>"
    using assms [unfolded zone_service_def, THEN conjunct1, rule_format, of s] by blast
  then show ?thesis by (simp add: client_zone_def client_do_def)
qed

lemma service_add:
  assumes "zone_service c serve decode records domain"
  obtains s' rid where "addRecord c serve typ name val s = (Inr (), s')"
    and "rid \<notin> dr_ID ` set (records s)"
    and "records s' = records s @ [\<lparr>dr_ID = rid, dr_Type = typ, dr_Name = name, dr_Value = val, dr_TTL = 300\<rparr>]"
proof -
  obtain data s' rid where
    "serve s (client_call c ''PUT'' (zone_path c @ ''/records'') (AddBody typ name val 300)) = (Reply 201 data, s')"
    "rid \<notin> dr_ID ` set (records s)"
    "records s' = records s @ [\<lparr>dr_ID = rid, dr_Type = typ, dr_Name = name, dr_Value = val, dr_TTL = 300\<rparr>]"
    using assms [unfolded zone_service_def, THEN conjunct2, THEN conjunct1, rule_format, of s "typ" name val]
    by blast
  then show ?thesis by (intro that) (simp_all add: addRecord_def client_do_def)
qed

lemma service_delete:
  assumes "zone_service c serve decode records domain"
  obtains s' where "deleteRecord c serve rid s =
      (if rid \<in> dr_ID ` set (records s) then Inr ()
       else Inl (BadStatus ''DELETE'' (zone_path c @ ''/records/'' @ itoa rid) 404), s')"
    and "records s' = filter (\<lambda>r. dr_ID r \<noteq> rid) (records s)"
proof -
  obtain data s' where
    "serve s (client_call c ''DELETE'' (zone_path c @ ''/records/'' @ itoa rid) NoBody)
      = (Reply (if rid \<in> dr_ID ` set (records s) then 204 else 404) data, s')"
    "records s' = filter (\<lambda>r. dr_ID r \<noteq> rid) (records s)"
    using assms [unfolded zone_service_def, THEN conjunct2, THEN conjunct2, rule_format, of s rid]
    by blast
  then show ?thesis by (intro that) (simp_all add: deleteRecord_def client_do_def)
qed

section \<open>What the operations do to the zone\<close>

lemma hasRecord_append [simp]:
  "hasRecord (rs @ rs') typ name val \<longleftrightarrow> hasRecord rs typ name val \<or> hasRecord rs' typ name val"
  by (simp add: hasRecord_def)

text \<open>The records \<open>Register\<close> adds, without their identities.\<close>

definition wanted :: "dns_record list \<Rightarrow> string \<Rightarrow> ip list \<Rightarrow> (int \<times> string \<times> string \<times> int) list" where
  "wanted records name ips =
     map (\<lambda>ip. (record_type ip, name, ip_String ip, 300))
       (filter (\<lambda>ip. \<not> hasRecord records (record_type ip) name (ip_String ip)) ips)"

definition record_content :: "dns_record \<Rightarrow> int \<times> string \<times> string \<times> int" where
  "record_content r = (dr_Type r, dr_Name r, dr_Value r, dr_TTL r)"

lemma record_content_make [simp]:
  "record_content \<lparr>dr_ID = i, dr_Type = t, dr_Name = n, dr_Value = v, dr_TTL = l\<rparr> = (t, n, v, l)"
  by (simp add: record_content_def)

lemma register_ips_adds:
  assumes svc: "zone_service c serve decode records domain"
  obtains s' new where "register_ips c serve hostname known name ips s = (Inr (), s')"
    and "records s' = records s @ new" and "map record_content new = wanted known name ips"
    and "distinct (map dr_ID (records s)) \<Longrightarrow> distinct (map dr_ID (records s'))"
proof -
  have "\<exists>s' new. register_ips c serve hostname known name ips s = (Inr (), s') \<and>
      records s' = records s @ new \<and> map record_content new = wanted known name ips \<and>
      (distinct (map dr_ID (records s)) \<longrightarrow> distinct (map dr_ID (records s')))"
  proof (induction ips arbitrary: s)
    case Nil
    then show ?case by (simp add: wanted_def)
  next
    case (Cons ip ips)
    show ?case
    proof (cases "hasRecord known (record_type ip) name (ip_String ip)")
      case True
      then show ?thesis using Cons [of s] by (simp add: wanted_def)
    next
      case False
      obtain s1 rid where s1: "addRecord c serve (record_type ip) name (ip_String ip) s = (Inr (), s1)"
        "rid \<notin> dr_ID ` set (records s)"
        "records s1 = records s @ [\<lparr>dr_ID = rid, dr_Type = record_type ip, dr_Name = name,
           dr_Value = ip_String ip, dr_TTL = 300\<rparr>]"
        by (rule service_add [OF svc])
      obtain s' new where IH: "register_ips c serve hostname known name ips s1 = (Inr (), s')"
        "records s' = records s1 @ new" "map record_content new = wanted known name ips"
        "distinct (map dr_ID (records s1)) \<longrightarrow> distinct (map dr_ID (records s'))"
        using Cons [of s1] by blast
      show ?thesis
        using False s1 IH
        by (intro exI [of _ s'] exI [of _ "\<lparr>dr_ID = rid, dr_Type = record_type ip, dr_Name = name,
             dr_Value = ip_String ip, dr_TTL = 300\<rparr> # new"]) (simp add: wanted_def)
    qed
  qed
  then show ?thesis using that by blast
qed

lemma hasRecord_content:
  "hasRecord rs typ name val \<longleftrightarrow> (\<exists>ttl. (typ, name, val, ttl) \<in> record_content ` set rs)"
  by (auto simp: hasRecord_def record_content_def list_ex_iff image_iff)

lemma wanted_complete:
  assumes "map record_content new = wanted known name ips" and "ip \<in> set ips"
  shows "hasRecord (known @ new) (record_type ip) name (ip_String ip)"
proof -
  have "hasRecord new (record_type ip) name (ip_String ip)"
    if "\<not> hasRecord known (record_type ip) name (ip_String ip)"
  proof -
    have "(record_type ip, name, ip_String ip, 300) \<in> set (wanted known name ips)"
      using that assms(2) by (auto simp: wanted_def)
    then show ?thesis unfolding assms(1) [symmetric] hasRecord_content by auto
  qed
  then show ?thesis by auto
qed

lemma wanted_none:
  assumes "\<And>ip. ip \<in> set ips \<Longrightarrow> hasRecord known (record_type ip) name (ip_String ip)"
  shows "wanted known name ips = []"
  using assms by (simp add: wanted_def filter_empty_conv)

lemma register_ips_none:
  "wanted known name ips = [] \<Longrightarrow> register_ips c serve hostname known name ips s = (Inr (), s)"
  by (induction ips) (auto simp: wanted_def split: if_splits)

text \<open>The records \<open>Deregister\<close> is to remove.\<close>

definition ours :: "string \<Rightarrow> ip list \<Rightarrow> dns_record \<Rightarrow> bool" where
  "ours name ips r \<longleftrightarrow>
     dr_Type r \<in> {recordA, recordAAAA} \<and> dr_Name r = name \<and> dr_Value r \<in> ip_String ` set ips"

lemma delete_matches_absent:
  "dr_Value rec \<notin> ip_String ` set ips \<Longrightarrow> delete_matches c serve rec ips s = (Inr (), s)"
  by (induction ips) auto

lemma delete_matches_once:
  assumes "distinct (map ip_String ips)" and "dr_Value rec \<in> ip_String ` set ips"
    and "deleteRecord c serve (dr_ID rec) s = (Inr (), s')"
  shows "delete_matches c serve rec ips s = (Inr (), s')"
  using assms
proof (induction ips)
  case Nil
  then show ?case by simp
next
  case (Cons ip ips)
  then show ?case
    by (cases "dr_Value rec = ip_String ip") (auto simp: delete_matches_absent)
qed

lemma deregister_records_removes:
  assumes svc: "zone_service c serve decode records domain" and "distinct (map ip_String ips)"
  shows "\<lbrakk>set recs \<subseteq> set (records s); distinct (map dr_ID recs)\<rbrakk> \<Longrightarrow>
    \<exists>s'. deregister_records c serve name ips recs s = (Inr (), s') \<and>
         records s' = filter (\<lambda>r. dr_ID r \<notin> dr_ID ` {r \<in> set recs. ours name ips r}) (records s)"
proof (induction recs arbitrary: s)
  case Nil
  then show ?case by simp
next
  case (Cons rec recs)
  show ?case
  proof (cases "ours name ips rec")
    case False
    have "deregister_records c serve name ips (rec # recs) s = deregister_records c serve name ips recs s"
      using False by (auto simp: ours_def delete_matches_absent)
    moreover have "{r \<in> set (rec # recs). ours name ips r} = {r \<in> set recs. ours name ips r}"
      using False by auto
    ultimately show ?thesis using Cons by simp
  next
    case True
    obtain s1 where s1: "deleteRecord c serve (dr_ID rec) s = (Inr (), s1)"
      "records s1 = filter (\<lambda>r. dr_ID r \<noteq> dr_ID rec) (records s)"
    proof (rule service_delete [OF svc, of "dr_ID rec" s])
      fix s1
      assume a: "deleteRecord c serve (dr_ID rec) s =
          (if dr_ID rec \<in> dr_ID ` set (records s) then Inr ()
           else Inl (BadStatus ''DELETE'' (zone_path c @ ''/records/'' @ itoa (dr_ID rec)) 404), s1)"
        and b: "records s1 = filter (\<lambda>r. dr_ID r \<noteq> dr_ID rec) (records s)"
      have "dr_ID rec \<in> dr_ID ` set (records s)" using Cons.prems(1) by simp
      with a b show ?thesis by (intro that) simp_all
    qed
    have "set recs \<subseteq> set (records s1)" using Cons.prems s1(2) by (auto simp: image_iff)
    then obtain s' where IH: "deregister_records c serve name ips recs s1 = (Inr (), s')"
      "records s' = filter (\<lambda>r. dr_ID r \<notin> dr_ID ` {r \<in> set recs. ours name ips r}) (records s1)"
      using Cons.IH [of s1] Cons.prems(2) by auto
    have "delete_matches c serve rec ips s = (Inr (), s1)"
      using delete_matches_once [OF assms(2) _ s1(1)] True by (simp add: ours_def)
    then have "deregister_records c serve name ips (rec # recs) s = (Inr (), s')"
      using True IH(1) by (auto simp: ours_def)
    moreover have "{r \<in> set (rec # recs). ours name ips r} = insert rec {r \<in> set recs. ours name ips r}"
      using True by auto
    ultimately show ?thesis
      using IH(2) s1(2) by (auto intro!: exI [of _ s'] filter_cong simp del: deregister_records.simps)
  qed
qed

lemma deregister_records_skip:
  "list_all (\<lambda>r. \<not> ours name ips r) recs \<Longrightarrow>
     deregister_records c serve name ips (recs @ rest) s = deregister_records c serve name ips rest s"
  by (induction recs) (auto simp: ours_def delete_matches_absent)

end
