(* ===== verification/BunnyProps.thy ===== *)
theory BunnyProps
  imports Bunny
begin

text \<open>
  Properties of the DNS registration against a service that behaves as the API is documented,
  with a reference service for the witnesses.
\<close>

section \<open>A reference service\<close>

lemma nat_digits_inject: "nat_digits m = nat_digits n \<longleftrightarrow> m = n"
  by (metis dec_val_nat_digits of_nat_eq_iff)

lemma itoa_inject: "itoa a = itoa b \<longleftrightarrow> a = b"
proof -
  have minus: "''-'' @ s \<noteq> nat_digits n" for s n
  proof
    assume "''-'' @ s = nat_digits n"
    then have "list_all is_digit (''-'' @ s)" using nat_digits_plain(1) by metis
    then show False by (simp add: is_digit_def)
  qed
  show ?thesis
    using minus minus [symmetric] by (auto simp: itoa_def nat_digits_inject)
qed

definition fresh_id :: "dns_record list \<Rightarrow> int" where
  "fresh_id recs = foldl (\<lambda>m r. max m (dr_ID r + 1)) 1 recs"

lemma fresh_id: "fresh_id recs \<notin> dr_ID ` set recs"
proof -
  have "(\<forall>r \<in> set recs. dr_ID r < foldl (\<lambda>m r. max m (dr_ID r + 1)) k recs) \<and>
      k \<le> foldl (\<lambda>m r. max m (dr_ID r + 1)) k recs" for k
  proof (induction recs arbitrary: k)
    case (Cons r recs)
    show ?case using Cons [of "max k (dr_ID r + 1)"] by auto
  qed simp
  from this [of 1] show ?thesis unfolding fresh_id_def by (auto simp: image_iff)
qed

definition ref_service :: "client \<Rightarrow> string \<Rightarrow> (dns_record list, zone) service" where
  "ref_service c domain recs call =
     (let z = \<lparr>zn_Domain = domain, zn_Records = recs\<rparr> in
      case ac_body call of
        AddBody typ name val ttl \<Rightarrow>
          (Reply 201 z, recs @ [\<lparr>dr_ID = fresh_id recs, dr_Type = typ, dr_Name = name, dr_Value = val,
                                 dr_TTL = ttl\<rparr>])
      | NoBody \<Rightarrow>
          if ac_verb call = ''GET'' then (Reply 200 z, recs)
          else
            let named = (\<lambda>r. ac_url call = apiBase @ zone_path c @ ''/records/'' @ itoa (dr_ID r)) in
            (Reply (if list_ex named recs then 204 else 404) z, filter (\<lambda>r. \<not> named r) recs))"

lemma ref_service_ok: "zone_service c (ref_service c domain) Some (\<lambda>recs. recs) domain"
  unfolding zone_service_def
proof (intro conjI allI)
  fix s :: "dns_record list" and rid
  have "list_ex (\<lambda>r. dr_ID r = rid) s \<longleftrightarrow> rid \<in> dr_ID ` set s"
    by (auto simp: list_ex_iff)
  then show "\<exists>data s'. ref_service c domain s
       (client_call c ''DELETE'' (zone_path c @ ''/records/'' @ itoa rid) NoBody) =
       (Reply (if rid \<in> dr_ID ` set s then 204 else 404) data, s') \<and>
       s' = filter (\<lambda>r. dr_ID r \<noteq> rid) s"
    by (simp add: ref_service_def client_call_def itoa_inject Let_def eq_commute [of rid])
qed (simp_all add: ref_service_def client_call_def fresh_id)

section \<open>Record names\<close>

text \<open>
  The record name and the zone make up the host name: a name that \<open>recordName\<close> returns gives back
  the host when the zone is put behind it, and it fails only when the host is not in the zone.
\<close>

theorem recordName_exact:
  "case recordName host domain of
     Inr name \<Rightarrow> trim_dot host = (if name = [] \<and> trim_dot host = trim_dot domain then trim_dot domain
                                 else name @ ''.'' @ trim_dot domain)
   | Inl err \<Rightarrow> (\<nexists>name. trim_dot host = name @ ''.'' @ trim_dot domain) \<and> trim_dot host \<noteq> trim_dot domain"
proof -
  have "hasSuffix h s \<Longrightarrow> trimSuffix h s @ s = h" for h s
    by (auto simp: hasSuffix_conv)
  from this [of "trim_dot host" "''.'' @ trim_dot domain"] show ?thesis
    by (auto simp: recordName_def Let_def hasSuffix_conv)
qed

section \<open>Registration\<close>

text \<open>
  C20. Against a service as documented, registering succeeds, adds exactly the missing records and
  leaves the others alone; afterwards every address has its record, and registering again (each
  heartbeat) changes nothing.
\<close>

theorem Register_heals:
  assumes "zone_service c serve decode records domain" and "recordName host domain = Inr name"
  shows "\<exists>s' added. Register c serve decode host ips s = (Inr (), s')
      \<and> records s' = records s @ added
      \<and> map record_content added = wanted (records s) name ips
      \<and> list_all (\<lambda>ip. hasRecord (records s') (record_type ip) name (ip_String ip)) ips
      \<and> Register c serve decode host ips s' = (Inr (), s')"
proof -
  note zone = service_zone [OF assms(1)]
  obtain s' added where add:
    "register_ips c serve host (records s) name ips s = (Inr (), s')"
    "records s' = records s @ added" "map record_content added = wanted (records s) name ips"
    by (rule register_ips_adds [OF assms(1)])
  have has: "hasRecord (records s') (record_type ip) name (ip_String ip)" if "ip \<in> set ips" for ip
    unfolding add(2) by (rule wanted_complete [OF add(3) that])
  then have "register_ips c serve host (records s') name ips s' = (Inr (), s')"
    by (intro register_ips_none wanted_none)
  then have "Register c serve decode host ips s' = (Inr (), s')"
    by (simp add: Register_def zone assms(2))
  moreover have "Register c serve decode host ips s = (Inr (), s')"
    by (simp add: Register_def zone assms(2) add(1))
  ultimately show ?thesis using add(2,3) has by (auto simp: list_all_iff)
qed

definition sample_client :: client where
  "sample_client = \<lparr>cl_apiKey = ''key'', cl_zoneID = 7\<rparr>"

definition sample_ip :: ip where "sample_ip = v4_mapped [203, 0, 113, 9]"

lemma sample_name: "recordName ''CDN.example.net'' ''example.net'' = Inr ''cdn''"
  by code_simp

lemma sample_ip_text: "ip_String sample_ip = ''203.0.113.9''" and sample_ip_type: "record_type sample_ip = recordA"
  by (code_simp, simp add: record_type_def sample_ip_def)

theorem Register_heals_witness:
  "\<exists>s'. Register sample_client (ref_service sample_client ''example.net'') Some ''CDN.example.net'' [sample_ip] []
     = (Inr (), s') \<and> hasRecord s' recordA ''cdn'' ''203.0.113.9''"
  using Register_heals [OF ref_service_ok sample_name, of sample_client "[sample_ip]" "[]"]
  by (auto simp: sample_ip_text sample_ip_type)

text \<open>
  Deregistering removes exactly this node's records (its name, an address type, one of its
  addresses) when no address is listed twice, and leaves every other record in the zone.
\<close>

theorem Deregister_removes:
  assumes "zone_service c serve decode records domain" and "recordName host domain = Inr name"
    and "distinct (map ip_String ips)" and "distinct (map dr_ID (records s))"
  shows "\<exists>s'. Deregister c serve decode host ips s = (Inr (), s')
      \<and> records s' = filter (\<lambda>r. \<not> (dr_Type r \<in> {recordA, recordAAAA} \<and> dr_Name r = name
                                   \<and> dr_Value r \<in> ip_String ` set ips)) (records s)"
proof -
  obtain s' where s': "deregister_records c serve name ips (records s) s = (Inr (), s')"
    "records s' = filter (\<lambda>r. dr_ID r \<notin> dr_ID ` {r \<in> set (records s). ours name ips r}) (records s)"
    using deregister_records_removes [OF assms(1,3) order_refl assms(4)] by blast
  have "filter (\<lambda>r. dr_ID r \<notin> dr_ID ` {r \<in> set (records s). ours name ips r}) (records s)
      = filter (\<lambda>r. \<not> ours name ips r) (records s)"
    using assms(4) by (intro filter_cong refl) (auto simp: distinct_map dest: inj_onD)
  with s' show ?thesis
    by (auto simp: Deregister_def service_zone [OF assms(1)] assms(2) ours_def)
qed

definition sample_zone :: "dns_record list" where
  "sample_zone =
     [\<lparr>dr_ID = 1, dr_Type = 0, dr_Name = ''cdn'', dr_Value = ''203.0.113.9'', dr_TTL = 300\<rparr>,
      \<lparr>dr_ID = 2, dr_Type = 0, dr_Name = ''cdn'', dr_Value = ''203.0.113.10'', dr_TTL = 300\<rparr>]"

theorem Deregister_removes_witness:
  "\<exists>s'. Deregister sample_client (ref_service sample_client ''example.net'') Some ''CDN.example.net''
     [sample_ip] sample_zone = (Inr (), s') \<and> s' = [sample_zone ! 1]"
  using Deregister_removes [OF ref_service_ok sample_name, of "[sample_ip]" sample_zone sample_client]
  by (simp add: sample_zone_def sample_ip_text recordA_def recordAAAA_def)

text \<open>
  An address that is listed twice is registered twice, and then deregistration fails on the first
  of the two records, which it deletes and deletes again: the second stays in the zone, and so do
  all the records behind it.
\<close>

theorem duplicate_address_stays:
  assumes "zone_service c serve decode records domain" and "recordName host domain = Inr name"
    and "\<not> hasRecord (records s) (record_type ip) name (ip_String ip)"
    and "distinct (map dr_ID (records s))"
    and "list_all (\<lambda>r. dr_Value r \<noteq> ip_String ip) (records s)"
  shows "\<exists>s1 s2 rid err. Register c serve decode host [ip, ip] s = (Inr (), s1)
      \<and> Deregister c serve decode host [ip, ip] s1 = (Inl (DeletingRecord rid err), s2)
      \<and> hasRecord (records s2) (record_type ip) name (ip_String ip)"
proof -
  obtain s1 new where reg: "register_ips c serve host (records s) name [ip, ip] s = (Inr (), s1)"
    "records s1 = records s @ new" "map record_content new = wanted (records s) name [ip, ip]"
    "distinct (map dr_ID (records s1))"
    using register_ips_adds [OF assms(1)] assms(4) by metis
  from reg(3) assms(3) obtain a b where new: "new = [a, b]"
    and a: "dr_Type a = record_type ip" "dr_Name a = name" "dr_Value a = ip_String ip"
    and b: "dr_Type b = record_type ip" "dr_Name b = name" "dr_Value b = ip_String ip"
    by (auto simp: wanted_def record_content_def map_eq_Cons_conv)
  obtain s2 where s2: "deleteRecord c serve (dr_ID a) s1 = (Inr (), s2)"
    "records s2 = filter (\<lambda>r. dr_ID r \<noteq> dr_ID a) (records s1)"
    by (rule service_delete [OF assms(1), of "dr_ID a" s1]) (auto simp: reg(2) new)
  obtain s3 err where s3: "deleteRecord c serve (dr_ID a) s2 = (Inl err, s3)"
    "records s3 = filter (\<lambda>r. dr_ID r \<noteq> dr_ID a) (records s2)"
    by (rule service_delete [OF assms(1), of "dr_ID a" s2]) (auto simp: s2(2) split: if_splits)
  have "deregister_records c serve name [ip, ip] (records s @ [a, b]) s1 =
      deregister_records c serve name [ip, ip] [a, b] s1"
    using assms(5) by (intro deregister_records_skip) (auto simp: ours_def list_all_iff)
  also have "\<dots> = (Inl (DeletingRecord (dr_ID a) err), s3)"
    using a by (simp add: s2(1) s3(1) record_type_def)
  finally have "Deregister c serve decode host [ip, ip] s1 = (Inl (DeletingRecord (dr_ID a) err), s3)"
    by (simp add: Deregister_def service_zone [OF assms(1)] assms(2) reg(2) new)
  moreover have "Register c serve decode host [ip, ip] s = (Inr (), s1)"
    by (simp add: Register_def service_zone [OF assms(1)] assms(2) reg(1) del: register_ips.simps)
  moreover have "hasRecord (records s3) (record_type ip) name (ip_String ip)"
    using reg(4) b by (auto simp: s3(2) s2(2) reg(2) new hasRecord_def)
  ultimately show ?thesis by blast
qed

theorem duplicate_address_stays_witness:
  "\<exists>s1 s2 rid err.
     Register sample_client (ref_service sample_client ''example.net'') Some ''CDN.example.net''
       [sample_ip, sample_ip] [] = (Inr (), s1)
     \<and> Deregister sample_client (ref_service sample_client ''example.net'') Some ''CDN.example.net''
       [sample_ip, sample_ip] s1 = (Inl (DeletingRecord rid err), s2)
     \<and> hasRecord s2 (record_type sample_ip) ''cdn'' (ip_String sample_ip)"
  using duplicate_address_stays [OF ref_service_ok sample_name, of "[]" sample_ip sample_client]
  by (simp add: hasRecord_def)

end
