(* ===== verification/ImgFetch.thy ===== *)
theory ImgFetch
  imports Dnsx Http
begin

text \<open>
  \<open>internal/imgcdn/imgcdn.go\<close>, the source fetch: the guarded HTTP client, its dialer and redirect
  policy, and \<open>fetch\<close>. The outside world is a record of functions of a step number that grows
  with every lookup and every request, so that DNS may answer differently each time and servers
  may do anything. The client keeps connections for reuse, as its transport does, and sends a request
  again when a kept connection turns out to be dead; which ones it keeps and reuses, and which
  failures it takes for a dead connection, is part of the outside world. Timeouts are failures of
  a step.
\<close>

section \<open>Addresses\<close>

definition isPublicIP :: "ip \<Rightarrow> bool" where
  "isPublicIP ip =
     (if IsLoopback ip \<or> IsPrivate ip \<or> IsUnspecified ip \<or> IsLinkLocalUnicast ip
         \<or> IsLinkLocalMulticast ip \<or> IsMulticast ip then False
      else case To4 ip of
             Some v4 \<Rightarrow> \<not> (v4 ! 0 = 100 \<and> 64 \<le> v4 ! 1 \<and> v4 ! 1 \<le> 127)
           | None \<Rightarrow> True)"

section \<open>The outside world\<close>

text \<open>
  An answer to a request: the connection failed, or a status, the \<open>Location\<close> header, the
  announced length (-1 when there is none), the body and whether reading it failed.
\<close>

datatype source_reply = NoReply | SourceReply int string int bytes bool

text \<open>\<open>LookupIP\<close> fails or returns at least one address.\<close>

datatype lookup_reply = LookupFails | Addresses ip "ip list"

record world =
  wd_lookup :: "nat \<Rightarrow> string \<Rightarrow> lookup_reply"
  wd_connects :: "nat \<Rightarrow> ip \<Rightarrow> bool"
  wd_answer :: "nat \<Rightarrow> ip \<Rightarrow> url \<Rightarrow> source_reply"
  wd_reuse :: "nat \<Rightarrow> bool"
  wd_keep :: "nat \<Rightarrow> bool"
  wd_dead :: "nat \<Rightarrow> bool"
  wd_idna :: "string \<Rightarrow> string"
  wd_resolveRef :: "url \<Rightarrow> string \<Rightarrow> url option"
  wd_urlParse :: "string \<Rightarrow> url option"
  wd_urlString :: "url \<Rightarrow> string"

text \<open>The state of the client: the step, the addresses dialled so far, the idle connections.\<close>

record fetcher =
  ft_step :: nat
  ft_dialed :: "ip list"
  ft_idle :: "((string \<times> string) \<times> ip) list"

section \<open>Resolving\<close>

datatype resolve_error = NoAddress | NonPublic string ip

definition resolvePublicIPs ::
  "world \<Rightarrow> string \<Rightarrow> fetcher \<Rightarrow> (resolve_error + ip \<times> ip list) \<times> fetcher" where
  "resolvePublicIPs e host st =
     (let st' = st\<lparr>ft_step := Suc (ft_step st)\<rparr> in
      case wd_lookup e (ft_step st) host of
        LookupFails \<Rightarrow> (Inl NoAddress, st')
      | Addresses ip ips \<Rightarrow>
          (case find (\<lambda>ip. \<not> isPublicIP ip) (ip # ips) of
             Some bad \<Rightarrow> (Inl (NonPublic host bad), st')
           | None \<Rightarrow> (Inr (ip, ips), st')))"

definition requirePublicHost :: "world \<Rightarrow> string \<Rightarrow> fetcher \<Rightarrow> resolve_error option \<times> fetcher" where
  "requirePublicHost e host st =
     (case resolvePublicIPs e host st of
        (Inl err, st') \<Rightarrow> (Some err, st')
      | (Inr _, st') \<Rightarrow> (None, st'))"

section \<open>The guarded client\<close>

datatype fetch_error =
    BadAddress addr_error
  | Unresolved resolve_error
  | CannotConnect
  | UnsupportedScheme
  | NoRequestHost
  | ConnectionFails
  | TooManyRedirects
  | RedirectToSelf
  | BadLocation

text \<open>\<open>net.JoinHostPort\<close>, and the address \<open>http.Transport\<close> dials for a URL.\<close>

definition JoinHostPort :: "string \<Rightarrow> string \<Rightarrow> string" where
  "JoinHostPort host port =
     (if CHR '':'' \<in> set host then ''['' @ host @ '']:'' @ port else host @ '':'' @ port)"

definition canonicalAddr :: "world \<Rightarrow> url \<Rightarrow> string" where
  "canonicalAddr e u =
     JoinHostPort (wd_idna e (url_Hostname u))
       (if url_Port u \<noteq> [] then url_Port u
        else if u_scheme u = ''http'' then ''80'' else ''443'')"

text \<open>The \<open>DialContext\<close> hook; the address it connects to is recorded.\<close>

definition dial_context :: "world \<Rightarrow> string \<Rightarrow> fetcher \<Rightarrow> (fetch_error + ip) \<times> fetcher" where
  "dial_context e addr st =
     (case SplitHostPort addr of
        Inl err \<Rightarrow> (Inl (BadAddress err), st)
      | Inr (host, port) \<Rightarrow>
          (case resolvePublicIPs e host st of
             (Inl err, st1) \<Rightarrow> (Inl (Unresolved err), st1)
           | (Inr (ip, _), st1) \<Rightarrow>
               (let st2 = st1\<lparr>ft_dialed := ft_dialed st1 @ [ip], ft_step := Suc (ft_step st1)\<rparr> in
                if wd_connects e (ft_step st1) ip then (Inr ip, st2) else (Inl CannotConnect, st2))))"

text \<open>A connection for a URL, and whether it was used before: an idle one to the same address, or a new one.\<close>

definition connection :: "world \<Rightarrow> url \<Rightarrow> fetcher \<Rightarrow> (fetch_error + bool \<times> ip) \<times> fetcher" where
  "connection e u st =
     (let key = (u_scheme u, canonicalAddr e u);
          dial = (case dial_context e (canonicalAddr e u) st of
              (Inl err, st1) \<Rightarrow> (Inl err, st1)
            | (Inr ip, st1) \<Rightarrow> (Inr (False, ip), st1))
      in case map_of (ft_idle st) key of
           Some ip \<Rightarrow>
             if wd_reuse e (ft_step st)
             then (Inr (True, ip), st\<lparr>ft_step := Suc (ft_step st), ft_idle := remove1 (key, ip) (ft_idle st)\<rparr>)
             else dial
         | None \<Rightarrow> dial)"

lemma connection_reused:
  assumes "connection e u st = (Inr (True, ip), st1)"
  shows "length (ft_idle st1) < length (ft_idle st) \<and> ft_dialed st1 = ft_dialed st"
proof -
  have "((u_scheme u, canonicalAddr e u), ip) \<in> set (ft_idle st)"
    "ft_idle st1 = remove1 ((u_scheme u, canonicalAddr e u), ip) (ft_idle st)" "ft_dialed st1 = ft_dialed st"
    using assms by (auto simp: connection_def Let_def map_of_SomeD split: option.splits if_splits prod.splits sum.splits)
  then show ?thesis using length_remove1_Suc by fastforce
qed

text \<open>
  One request. A connection used before may be dead; the transport then asks again on another one,
  and in the end on a new one. A failure on a new connection is final.
\<close>

function round_trip :: "world \<Rightarrow> url \<Rightarrow> fetcher \<Rightarrow> (fetch_error + source_reply) \<times> fetcher" where
  "round_trip e u st =
     (if u_scheme u \<noteq> ''http'' \<and> u_scheme u \<noteq> ''https'' then (Inl UnsupportedScheme, st)
      else if u_host u = [] then (Inl NoRequestHost, st)
      else case connection e u st of
             (Inl err, st1) \<Rightarrow> (Inl err, st1)
           | (Inr (reused, ip), st1) \<Rightarrow>
               (let k = ft_step st1; st2 = st1\<lparr>ft_step := Suc k\<rparr> in
                case wd_answer e k ip u of
                  NoReply \<Rightarrow>
                    if reused \<and> wd_dead e k then round_trip e u st2 else (Inl ConnectionFails, st2)
                | reply \<Rightarrow>
                    (Inr reply, if wd_keep e k
                      then st2\<lparr>ft_idle := ((u_scheme u, canonicalAddr e u), ip) # ft_idle st2\<rparr> else st2)))"
  by pat_completeness auto
termination
proof (relation "measure (\<lambda>(e, u, st). length (ft_idle st))")
  fix e u st r st1 q reused ip k st2
  assume "(r, st1) = connection e u st" "r = Inr q" "(reused, ip) = q"
    "k = ft_step st1" "st2 = st1\<lparr>ft_step := Suc k\<rparr>" "wd_answer e k ip u = NoReply" "reused \<and> wd_dead e k"
  then show "((e, u, st2), (e, u, st)) \<in> measure (\<lambda>(e, u, st). length (ft_idle st))"
    using connection_reused [of e u st ip st1] by auto
qed simp

declare round_trip.simps [simp del]

definition maxRedirects :: nat where "maxRedirects = 3"

text \<open>\<open>http.Client.Do\<close> follows a redirect status with a \<open>Location\<close>, unless the hook objects.\<close>

definition redirects :: "source_reply \<Rightarrow> string option" where
  "redirects reply =
     (case reply of
        SourceReply status loc _ _ _ \<Rightarrow>
          if status \<in> {301, 302, 303, 307, 308} \<and> loc \<noteq> [] then Some loc else None
      | NoReply \<Rightarrow> None)"

definition CheckRedirect :: "(string \<Rightarrow> bool) \<Rightarrow> url \<Rightarrow> nat \<Rightarrow> fetch_error option" where
  "CheckRedirect selfHost u via =
     (if via \<ge> maxRedirects then Some TooManyRedirects
      else if selfHost (toLower (url_Hostname u)) then Some RedirectToSelf
      else None)"

text \<open>\<open>via\<close> is the number of requests made before this one.\<close>

function client_get ::
  "world \<Rightarrow> (string \<Rightarrow> bool) \<Rightarrow> nat \<Rightarrow> url \<Rightarrow> fetcher \<Rightarrow> (fetch_error + source_reply) \<times> fetcher" where
  "client_get e selfHost via u st =
     (case round_trip e u st of
        (Inl err, st1) \<Rightarrow> (Inl err, st1)
      | (Inr reply, st1) \<Rightarrow>
          (case redirects reply of
             None \<Rightarrow> (Inr reply, st1)
           | Some loc \<Rightarrow>
               (case wd_resolveRef e u loc of
                  None \<Rightarrow> (Inl BadLocation, st1)
                | Some u' \<Rightarrow>
                    (case CheckRedirect selfHost u' (Suc via) of
                       Some err \<Rightarrow> (Inl err, st1)
                     | None \<Rightarrow> client_get e selfHost (Suc via) u' st1))))"
  by pat_completeness auto
termination
  by (relation "measure (\<lambda>(e, selfHost, via, u, st). maxRedirects - via)")
    (auto simp: CheckRedirect_def split: if_splits)

declare client_get.simps [simp del]

section \<open>Fetching a source\<close>

datatype img_error = HttpError int string | OtherError

definition maxSourceBytes :: nat where "maxSourceBytes = 20 * 2 ^ 20"

text \<open>\<open>why\<close> is the text of a resolver error.\<close>

definition img_fetch ::
  "world \<Rightarrow> (string \<Rightarrow> bool) \<Rightarrow> (resolve_error \<Rightarrow> string) \<Rightarrow> url \<Rightarrow> fetcher \<Rightarrow>
     (img_error + bytes) \<times> fetcher" where
  "img_fetch e selfHost why src st =
     (case requirePublicHost e (url_Hostname src) st of
        (Some err, st1) \<Rightarrow> (Inl (HttpError 400 (''source host is not publicly routable: '' @ why err)), st1)
      | (None, st1) \<Rightarrow>
          (case wd_urlParse e (wd_urlString e src) of
             None \<Rightarrow> (Inl (HttpError 400 ''invalid source URL''), st1)
           | Some u \<Rightarrow>
               (case client_get e selfHost 0 u st1 of
                  (Inl _, st2) \<Rightarrow> (Inl OtherError, st2)
                | (Inr NoReply, st2) \<Rightarrow> (Inl OtherError, st2)
                | (Inr (SourceReply status _ contentLength body broken), st2) \<Rightarrow>
                    (if status = 404 then Inl (HttpError 404 ''source image not found'')
                     else if status \<noteq> 200 then
                       Inl (HttpError 502 (''source responded with status '' @ itoa status))
                     else if contentLength > int maxSourceBytes then
                       Inl (HttpError 413 ''source image exceeds the 20 MB limit'')
                     else
                       let data = take (maxSourceBytes + 1) body in
                       if broken \<and> length body \<le> maxSourceBytes then Inl OtherError
                       else if length data > maxSourceBytes then
                         Inl (HttpError 413 ''source image exceeds the 20 MB limit'')
                       else Inr data, st2))))"

section \<open>Only public addresses\<close>

definition fetcher_ok :: "fetcher \<Rightarrow> bool" where
  "fetcher_ok st \<longleftrightarrow> list_all isPublicIP (ft_dialed st) \<and> list_all (isPublicIP \<circ> snd) (ft_idle st)"

lemma resolve_step:
  "resolvePublicIPs e host st = (r, st') \<Longrightarrow>
     ft_dialed st' = ft_dialed st \<and> ft_idle st' = ft_idle st \<and>
     (\<forall>ip ips. r = Inr (ip, ips) \<longrightarrow> isPublicIP ip)"
  by (auto simp: resolvePublicIPs_def Let_def split: lookup_reply.splits option.splits if_splits)

lemma requirePublicHost_frame:
  "requirePublicHost e host st = (r, st') \<Longrightarrow>
     ft_dialed st' = ft_dialed st \<and> ft_idle st' = ft_idle st"
  by (auto simp: requirePublicHost_def split: prod.splits sum.splits dest: resolve_step)

text \<open>A dial makes at most one connection attempt, to a public address.\<close>

lemma dial_ok:
  assumes "dial_context e addr st = (r, st')" and "fetcher_ok st"
  shows "fetcher_ok st' \<and> length (ft_dialed st') \<le> Suc (length (ft_dialed st)) \<and>
    (case r of Inr ip \<Rightarrow> isPublicIP ip | Inl _ \<Rightarrow> True)"
  using assms
  by (auto simp: dial_context_def fetcher_ok_def Let_def
      split: sum.splits prod.splits if_splits dest!: resolve_step)

lemma connection_ok:
  assumes "connection e u st = (r, st')" and "fetcher_ok st"
  shows "fetcher_ok st' \<and> length (ft_dialed st') \<le> Suc (length (ft_dialed st)) \<and>
    (case r of Inr (_, ip) \<Rightarrow> isPublicIP ip | Inl _ \<Rightarrow> True)"
proof -
  obtain d st1 where dial: "dial_context e (canonicalAddr e u) st = (d, st1)" by fastforce
  note ok = dial_ok [OF dial assms(2)]
  show ?thesis
  proof (cases "\<exists>ip. map_of (ft_idle st) (u_scheme u, canonicalAddr e u) = Some ip \<and> wd_reuse e (ft_step st)")
    case True
    then obtain ip where ip: "map_of (ft_idle st) (u_scheme u, canonicalAddr e u) = Some ip" "wd_reuse e (ft_step st)"
      by blast
    have "isPublicIP ip"
      using assms(2) map_of_SomeD [OF ip(1)] by (auto simp: fetcher_ok_def list_all_iff)
    moreover have "list_all (isPublicIP \<circ> snd) (remove1 k (ft_idle st))" for k
      using assms(2) set_remove1_subset by (fastforce simp: fetcher_ok_def list_all_iff)
    ultimately show ?thesis
      using assms ip by (auto simp: connection_def Let_def fetcher_ok_def)
  next
    case False
    then show ?thesis
      using assms(1) dial ok by (cases d) (auto simp: connection_def Let_def split: option.splits)
  qed
qed

lemma round_trip_ok:
  assumes "round_trip e u st = (r, st')" and "fetcher_ok st"
  shows "fetcher_ok st' \<and> length (ft_dialed st') \<le> Suc (length (ft_dialed st))"
  using assms
proof (induction e u st rule: round_trip.induct)
  case (1 e u st)
  obtain c st1 where conn: "connection e u st = (c, st1)" by fastforce
  note ok = connection_ok [OF conn "1.prems"(2)]
  show ?case
  proof (cases "(u_scheme u = ''http'' \<or> u_scheme u = ''https'') \<and> u_host u \<noteq> []")
    case False
    then show ?thesis using "1.prems" by (auto simp: round_trip.simps [of e u st] split: if_splits)
  next
    case web: True
    show ?thesis
    proof (cases c)
      case (Inl err)
      then show ?thesis using "1.prems"(1) web conn ok by (auto simp: round_trip.simps [of e u st])
    next
      case (Inr x)
      obtain reused ip where x: "x = (reused, ip)" by (cases x)
      let ?st2 = "st1\<lparr>ft_step := Suc (ft_step st1)\<rparr>"
      have pub: "isPublicIP ip" "fetcher_ok ?st2" using ok Inr x by (simp_all add: fetcher_ok_def)
      show ?thesis
      proof (cases "wd_answer e (ft_step st1) ip u = NoReply \<and> reused \<and> wd_dead e (ft_step st1)")
        case True
        then have "round_trip e u ?st2 = (r, st')" "ft_dialed st1 = ft_dialed st"
          using "1.prems"(1) web conn Inr x connection_reused [of e u st ip st1]
          by (auto simp: round_trip.simps [of e u st] Let_def)
        with "1.IH" [of c st1 x reused ip "ft_step st1" ?st2] True web conn Inr x pub(2)
        show ?thesis by auto
      next
        case False
        then show ?thesis
          using "1.prems"(1) web conn Inr x ok pub
          by (auto simp: round_trip.simps [of e u st] Let_def fetcher_ok_def split: source_reply.splits if_splits)
      qed
    qed
  qed
qed

lemma client_get_ok:
  assumes "client_get e selfHost via u st = (r, st')" and "fetcher_ok st"
  shows "fetcher_ok st' \<and> length (ft_dialed st') \<le> length (ft_dialed st) + max 1 (maxRedirects - via)"
  using assms
proof (induction e selfHost via u st arbitrary: r st' rule: client_get.induct)
  case (1 e selfHost via u st)
  obtain c st1 where rt: "round_trip e u st = (c, st1)" by fastforce
  note ok = round_trip_ok [OF rt "1.prems"(2)]
  show ?case
  proof (cases "\<exists>reply loc u'. c = Inr reply \<and> redirects reply = Some loc \<and>
      wd_resolveRef e u loc = Some u' \<and> CheckRedirect selfHost u' (Suc via) = None")
    case True
    then obtain reply loc u' where hop: "c = Inr reply" "redirects reply = Some loc"
      "wd_resolveRef e u loc = Some u'" "CheckRedirect selfHost u' (Suc via) = None" by blast
    then have "client_get e selfHost (Suc via) u' st1 = (r, st')"
      using "1.prems"(1) rt by (simp add: client_get.simps [of e selfHost via])
    then have "fetcher_ok st' \<and>
        length (ft_dialed st') \<le> length (ft_dialed st1) + max 1 (maxRedirects - Suc via)"
      using "1.IH" [OF rt [symmetric] hop(1-4)] ok by blast
    moreover have "Suc via < maxRedirects"
      using hop(4) by (auto simp: CheckRedirect_def split: if_splits)
    ultimately show ?thesis using ok by linarith
  next
    case False
    then have "st' = st1"
      using "1.prems"(1) rt
      by (auto simp: client_get.simps [of e selfHost via] split: sum.splits option.splits)
    then show ?thesis using ok by auto
  qed
qed

lemma img_fetch_ok:
  assumes "img_fetch e selfHost why src st = (r, st')" and "fetcher_ok st"
  shows "fetcher_ok st' \<and> length (ft_dialed st') \<le> length (ft_dialed st) + 3"
proof -
  obtain q st1 where pre: "requirePublicHost e (url_Hostname src) st = (q, st1)" by fastforce
  have frame: "ft_dialed st1 = ft_dialed st" "fetcher_ok st1"
    using requirePublicHost_frame [OF pre] assms(2) by (simp_all add: fetcher_ok_def)
  show ?thesis
  proof (cases "q = None \<and> wd_urlParse e (wd_urlString e src) \<noteq> None")
    case True
    then obtain u where u: "wd_urlParse e (wd_urlString e src) = Some u" by blast
    obtain c st2 where get: "client_get e selfHost 0 u st1 = (c, st2)" by fastforce
    have "st' = st2"
      using assms(1) True pre u get
      by (auto simp: img_fetch_def split: sum.splits source_reply.splits)
    then show ?thesis using client_get_ok [OF get frame(2)] frame(1) by (simp add: maxRedirects_def)
  next
    case False
    then have "st' = st1" using assms(1) pre by (auto simp: img_fetch_def split: option.splits)
    then show ?thesis using frame by simp
  qed
qed

end
