(* ===== verification/ImgCdn.thy ===== *)
theory ImgCdn
  imports ImgFetch ImageParams Transform ObjectStore Metrics
begin

text \<open>
  \<open>internal/imgcdn/imgcdn.go\<close>: the image endpoint, with the guarded client \<open>New\<close> builds in
  production. The handler answers from the cache or fetches (\<open>ImgFetch\<close>), transforms
  (\<open>Transform\<close>), stores and answers. Clock readings are numbered within a request: \<open>clk 0\<close> at the
  lookup, \<open>clk 1\<close> when an object is made, \<open>clk 2\<close> when it is served. A request is
  run alone here; concurrent requests, the flights they share and the semaphore are in \<open>ImgFlight\<close>.
\<close>

section \<open>Parameters and state\<close>

record img_env =
  ie_world :: world
  ie_sha :: "bytes \<Rightarrow> bytes"
  ie_codec :: codec
  ie_notFound :: bytes
  ie_paramText :: "param_error \<Rightarrow> string"
  ie_resolveText :: "resolve_error \<Rightarrow> string"

record images =
  im_cache :: cache
  im_metrics :: metrics
  im_net :: fetcher

definition retention7 :: duration where "retention7 = 7 * 24 * hour"

definition maxCacheableBytes :: nat where "maxCacheableBytes = 20 * 2 ^ 20"

section \<open>The request path\<close>

definition PathPrefix :: string where "PathPrefix = ''/img/''"

datatype path_error = NoSlash | NoSource | BadSource | HasCredentials

fun path_error_text :: "path_error \<Rightarrow> string" where
  "path_error_text NoSlash = ''expected /img/<options>/<image-url>; use _ for default options''"
| "path_error_text NoSource = ''missing source image URL''"
| "path_error_text BadSource = ''invalid source image URL''"
| "path_error_text HasCredentials = ''source URLs with credentials are not allowed''"

text \<open>Collapsed slashes are repaired and a missing scheme is \<open>https\<close>.\<close>

definition normalize_source :: "string \<Rightarrow> string" where
  "normalize_source raw =
     (if hasPrefix raw ''https://'' \<or> hasPrefix raw ''http://'' then raw
      else if hasPrefix raw ''https:/'' then ''https://'' @ drop 7 raw
      else if hasPrefix raw ''http:/'' then ''http://'' @ drop 6 raw
      else ''https://'' @ raw)"

definition parsePath :: "(string \<Rightarrow> url option) \<Rightarrow> request \<Rightarrow> path_error + string \<times> url" where
  "parsePath urlParse r =
     (case cut CHR ''/'' (trimPrefix (rq_escaped r) PathPrefix) of
        None \<Rightarrow> Inl NoSlash
      | Some (optStr, raw) \<Rightarrow>
          if raw = [] then Inl NoSource
          else
            let raw1 = (if rq_rawQuery r \<noteq> [] then raw @ ''?'' @ rq_rawQuery r else raw) in
            case urlParse (normalize_source raw1) of
              None \<Rightarrow> Inl BadSource
            | Some u \<Rightarrow>
                if url_Hostname u = [] then Inl BadSource
                else if u_user u \<noteq> None then Inl HasCredentials
                else Inr (optStr, u))"

section \<open>Answers\<close>

definition img_Error :: "string \<Rightarrow> int \<Rightarrow> writer \<Rightarrow> writer" where
  "img_Error msg code w =
     w_Write ((''hubCDN images: '' @ msg) @ [CHR 0x0A])
       (w_WriteHeader code (w\<lparr>w_header := error_header (w_header w)\<rparr>))"

lemma img_Error_http: "http_Error (''hubCDN images: '' @ msg) code (ClientWriter w) = ClientWriter (img_Error msg code w)"
  by (simp add: http_Error_def img_Error_def)

definition serveNotFound :: "bytes \<Rightarrow> writer \<Rightarrow> request \<Rightarrow> writer" where
  "serveNotFound notFound w r =
     (let h = header_set (header_set (header_set (w_header w) ''Content-Type'' ''image/webp'')
                ''Cache-Control'' ''no-store'') ''Content-Length'' (itoa (int (length notFound)));
          w1 = w_WriteHeader 404 (w\<lparr>w_header := h\<rparr>)
      in if rq_method r \<noteq> ''HEAD'' then w_Write notFound w1 else w1)"

definition img_etag :: "string \<Rightarrow> string" where
  "img_etag key = ''W/'' @ [CHR 0x22] @ take 24 key @ [CHR 0x22]"

definition img_serve :: "time \<Rightarrow> writer \<Rightarrow> request \<Rightarrow> string \<Rightarrow> object \<Rightarrow> string \<Rightarrow> writer" where
  "img_serve now w r key obj status =
     (let etag = img_etag key;
          h0 = foldl (\<lambda>h (k, vs). AList.update k vs h) (w_header w) (o_header obj);
          h = header_set (header_set (header_set h0 ''Etag'' etag) ''X-Hubcdn-Cache'' status)
                ''Age'' (itoa (duration_seconds (Object_Age obj now)));
          match = header_get (rq_header r) ''If-None-Match''
      in if match \<noteq> [] \<and> contains match etag then w_WriteHeader 304 (w\<lparr>w_header := h\<rparr>)
         else
           let w1 = w_WriteHeader (o_status obj)
                 (w\<lparr>w_header := header_set h ''Content-Length'' (itoa (int (length (o_body obj))))\<rparr>)
           in if rq_method r \<noteq> ''HEAD'' then w_Write (o_body obj) w1 else w1)"

section \<open>Optimizing\<close>

text \<open>The outcome of the shared flight: an error, a panic of the transformation, or an object.\<close>

datatype flight = FlightError img_error | FlightPanic | FlightObject object

definition img_object :: "img_result \<Rightarrow> time \<Rightarrow> object" where
  "img_object res now =
     \<lparr>o_status = 200,
      o_header = [(''Content-Type'', [res_ContentType res]),
                  (''Cache-Control'', [''public, max-age=604800, immutable''])],
      o_body = res_Data res, o_storedAt = now, o_ttl = retention7, o_staleFor = 0\<rparr>"

definition img_optimize ::
  "img_env \<Rightarrow> (string \<Rightarrow> bool) \<Rightarrow> time \<Rightarrow> string \<Rightarrow> url \<Rightarrow> params \<Rightarrow> images \<Rightarrow> flight \<times> images" where
  "img_optimize e selfHost now key src params h =
     (case img_fetch (ie_world e) selfHost (ie_resolveText e) src (im_net h) of
        (Inl err, net) \<Rightarrow> (FlightError err, h\<lparr>im_net := net\<rparr>)
      | (Inr data, net) \<Rightarrow>
          (let h1 = h\<lparr>im_net := net\<rparr> in
           case Transform (ie_codec e) data params of
             Inl Panics \<Rightarrow> (FlightPanic, h1)
           | Inl Unsupported \<Rightarrow>
               (FlightError (HttpError 415 ''the source is not a supported image format''), h1)
           | Inl _ \<Rightarrow> (FlightError OtherError, h1)
           | Inr res \<Rightarrow>
               (let obj = img_object res now in
                if length (o_body obj) \<le> maxCacheableBytes then
                  (case Cache_Set (im_cache h1) key obj of
                     None \<Rightarrow> (FlightPanic, h1)
                   | Some c \<Rightarrow> (FlightObject obj, h1\<lparr>im_cache := c\<rparr>))
                else (FlightObject obj, h1))))"

section \<open>The handler\<close>

abbreviation img_bump :: "(metrics \<Rightarrow> metrics) \<Rightarrow> images \<Rightarrow> images" where
  "img_bump f h \<equiv> h\<lparr>im_metrics := f (im_metrics h)\<rparr>"

definition img_key :: "img_env \<Rightarrow> string \<Rightarrow> url \<Rightarrow> string" where
  "img_key e optStr src =
     Key (ie_sha e) ''img.hubcdn.internal'' ''IMG''
       (optStr @ ''|'' @ wd_urlString (ie_world e) src) []"

definition img_answer ::
  "img_env \<Rightarrow> (nat \<Rightarrow> time) \<Rightarrow> writer \<Rightarrow> request \<Rightarrow> string \<Rightarrow> flight \<times> images \<Rightarrow> images \<times> writer \<times> bool" where
  "img_answer e clk w r key = (\<lambda>(f, h).
     case f of
       FlightPanic \<Rightarrow> (h, w, True)
     | FlightError (HttpError status msg) \<Rightarrow>
         (h, if status = 404 then serveNotFound (ie_notFound e) w r else img_Error msg status w, False)
     | FlightError OtherError \<Rightarrow>
         (h, img_Error ''could not fetch or process the source image'' 502 w, False)
     | FlightObject obj \<Rightarrow>
         (img_bump (\<lambda>m. m\<lparr>m_ImageCacheMisses := m_ImageCacheMisses m + 1\<rparr>) h,
          img_serve (clk 2) w r key obj ''MISS'', False))"

text \<open>The result is the state, the client's writer and whether the handler panicked.\<close>

definition img_ServeHTTP ::
  "img_env \<Rightarrow> (string \<Rightarrow> bool) \<Rightarrow> (nat \<Rightarrow> time) \<Rightarrow> writer \<Rightarrow> request \<Rightarrow> images \<Rightarrow> images \<times> writer \<times> bool" where
  "img_ServeHTTP e selfHost clk w r h0 =
     (let h = img_bump (\<lambda>m. m\<lparr>m_ImageRequests := m_ImageRequests m + 1\<rparr>) h0 in
      if rq_method r \<noteq> ''GET'' \<and> rq_method r \<noteq> ''HEAD'' then
        (h, img_Error ''only GET is supported'' 405 w, False)
      else case parsePath (wd_urlParse (ie_world e)) r of
        Inl err \<Rightarrow> (h, img_Error (path_error_text err) 400 w, False)
      | Inr (optStr, src) \<Rightarrow>
          (case Params_Parse optStr of
             Inl err \<Rightarrow> (h, img_Error (ie_paramText e err) 400 w, False)
           | Inr params \<Rightarrow>
               if selfHost (toLower (url_Hostname src)) then
                 (h, img_Error ''source may not point back at this node'' 400 w, False)
               else
                 let key = img_key e optStr src in
                 case Cache_Get (im_cache h) key (clk 0) of
                   None \<Rightarrow> (h, w, True)
                 | Some (c, Some obj, Fresh) \<Rightarrow>
                     (img_bump (\<lambda>m. m\<lparr>m_ImageCacheHits := m_ImageCacheHits m + 1\<rparr>) (h\<lparr>im_cache := c\<rparr>),
                      img_serve (clk 2) w r key obj ''HIT'', False)
                 | Some (c, _, _) \<Rightarrow>
                     img_answer e clk w r key
                       (img_optimize e selfHost (clk 1) key src params (h\<lparr>im_cache := c\<rparr>))))"

section \<open>Lemmas\<close>

lemma img_optimize_net:
  "img_optimize e selfHost now key src params h = (f, h') \<Longrightarrow>
     im_net h' = snd (img_fetch (ie_world e) selfHost (ie_resolveText e) src (im_net h))"
  by (auto simp: img_optimize_def Let_def
      split: prod.splits sum.splits transform_error.splits if_splits option.splits)

lemma img_answer_net: "im_net (fst (img_answer e clk w r key (f, h))) = im_net h"
  by (simp add: img_answer_def split: flight.split img_error.split)

text \<open>A request either leaves the network alone or fetches one source.\<close>

lemma img_ServeHTTP_net:
  "im_net (fst (img_ServeHTTP e selfHost clk w r h)) = im_net h \<or>
   (\<exists>src. im_net (fst (img_ServeHTTP e selfHost clk w r h)) =
      snd (img_fetch (ie_world e) selfHost (ie_resolveText e) src (im_net h)))"
proof -
  have "\<exists>s. im_net (fst (img_answer e clk w r key (img_optimize e selfHost now key src params h'))) =
      snd (img_fetch (ie_world e) selfHost (ie_resolveText e) s (im_net h))"
    if "im_net h' = im_net h" for key now src params h'
    using img_optimize_net [of e selfHost now key src params h'] that
    by (cases "img_optimize e selfHost now key src params h'") (auto simp: img_answer_net)
  then show ?thesis
    unfolding img_ServeHTTP_def Let_def
    by (simp split: sum.split option.split freshness.split prod.split)
qed

end
