(* ===== verification/ImgCdnProps.thy ===== *)
theory ImgCdnProps
  imports ImgCdn
begin

text \<open>
  Properties of the image endpoint: where it connects to, how it ends, what it answers and what it
  keeps in the shared cache.
\<close>

section \<open>A setting for the witnesses\<close>

definition sample_url :: url where
  "sample_url = \<lparr>u_scheme = ''https'', u_user = None, u_host = ''pics.example'', u_path = ''/a.gif'',
     u_rawQuery = [], u_fragment = []\<rparr>"

definition sample_world :: "source_reply \<Rightarrow> world" where
  "sample_world reply =
     \<lparr>wd_lookup = (\<lambda>k host. Addresses (v4_mapped [203, 0, 113, 9]) []), wd_connects = (\<lambda>k ip. True),
      wd_answer = (\<lambda>k ip u. reply), wd_reuse = (\<lambda>k. False), wd_keep = (\<lambda>k. False), wd_dead = (\<lambda>k. False),
      wd_idna = (\<lambda>s. s), wd_resolveRef = (\<lambda>u loc. Some sample_url),
      wd_urlParse = (\<lambda>s. Some sample_url), wd_urlString = (\<lambda>u. ''https://pics.example/a.gif'')\<rparr>"

text \<open>A codec that takes everything for an animation, which is passed through.\<close>

definition sample_codec :: codec where
  "sample_codec =
     \<lparr>c_DecodeConfig = (\<lambda>_. Some (1, 1, ''gif'')), c_Decode = (\<lambda>_. None), c_gifFrames = (\<lambda>_. Some 2),
      c_scale = (\<lambda>_ _ _. []), c_overWhite = (\<lambda>_. []), c_jpeg = (\<lambda>_ _. None), c_png = (\<lambda>_. None),
      c_gif = (\<lambda>_. None)\<rparr>"

definition sample_img_env :: "source_reply \<Rightarrow> img_env" where
  "sample_img_env reply =
     \<lparr>ie_world = sample_world reply, ie_sha = (\<lambda>s. CHR ''k'' # s), ie_codec = sample_codec,
      ie_notFound = ''webp'', ie_paramText = (\<lambda>_. ''bad option''), ie_resolveText = (\<lambda>_. ''no address'')\<rparr>"

definition sample_img_request :: request where
  "sample_img_request =
     \<lparr>rq_method = ''GET'', rq_host = ''cdn.example'', rq_path = ''/img/_/pics.example/a.gif'', rq_rawPath = [],
      rq_escaped = ''/img/_/pics.example/a.gif'', rq_rawQuery = [], rq_header = [], rq_remoteAddr = [],
      rq_tls = True\<rparr>"

definition no_fetches :: fetcher where
  "no_fetches = \<lparr>ft_step = 0, ft_dialed = [], ft_idle = []\<rparr>"

definition sample_images :: images where
  "sample_images = \<lparr>im_cache = Cache_New 1000000, im_metrics = zero_metrics, im_net = no_fetches\<rparr>"

lemma no_fetches_ok [simp]: "fetcher_ok no_fetches"
  by (simp add: no_fetches_def fetcher_ok_def)

lemma sample_parse [simp]:
  "parsePath (wd_urlParse (sample_world reply)) sample_img_request = Inr (''_'', sample_url)"
  by (simp add: sample_world_def) code_simp

lemma sample_img_env_parts:
  "ie_world (sample_img_env reply) = sample_world reply" "ie_codec (sample_img_env reply) = sample_codec"
  "ie_resolveText (sample_img_env reply) = (\<lambda>_. ''no address'')"
  by (simp_all add: sample_img_env_def)

lemma sample_images_parts:
  "im_cache sample_images = Cache_New 1000000" "im_net sample_images = no_fetches"
  by (simp_all add: sample_images_def)

section \<open>Which addresses are public\<close>

text \<open>
  The exact meaning of \<open>isPublicIP\<close>: every IPv4 address outside the loopback, private,
  unspecified, link-local, carrier-grade NAT and multicast blocks, and every IPv6 address outside
  loopback, unspecified, unique-local, link-local and multicast.
\<close>

lemma byte_all:
  assumes "list_all (\<lambda>n. P (word_of_int n :: 8 word)) [0..255]"
  shows "P x"
proof -
  have "uint x \<in> set [0..255]" using uint_lt2p [of x] by simp
  with assms have "P (word_of_int (uint x))" unfolding list_all_iff by blast
  then show "P x" by simp
qed

lemma byte_ranges:
  fixes x :: "8 word"
  shows "x AND 0xF0 = 16 \<longleftrightarrow> 16 \<le> x \<and> x \<le> 31"
    and "x AND 0xF0 = 0xE0 \<longleftrightarrow> 224 \<le> x \<and> x \<le> 239"
    and "x AND 0xFE = 0xFC \<longleftrightarrow> x = 0xFC \<or> x = 0xFD"
    and "x AND 0xC0 = 0x80 \<longleftrightarrow> 0x80 \<le> x \<and> x \<le> 0xBF"
proof -
  show "x AND 0xF0 = 16 \<longleftrightarrow> 16 \<le> x \<and> x \<le> 31" by (rule byte_all) code_simp
  show "x AND 0xF0 = 0xE0 \<longleftrightarrow> 224 \<le> x \<and> x \<le> 239" by (rule byte_all) code_simp
  show "x AND 0xFE = 0xFC \<longleftrightarrow> x = 0xFC \<or> x = 0xFD" by (rule byte_all) code_simp
  show "x AND 0xC0 = 0x80 \<longleftrightarrow> 0x80 \<le> x \<and> x \<le> 0xBF" by (rule byte_all) code_simp
qed

lemma isPublicIP_v4:
  "isPublicIP (v4_mapped [a, b, c, d]) \<longleftrightarrow>
     \<not> (a = 127 \<or> a = 10 \<or> a = 172 \<and> 16 \<le> b \<and> b \<le> 31 \<or> a = 192 \<and> b = 168
        \<or> a = 0 \<and> b = 0 \<and> c = 0 \<and> d = 0 \<or> a = 169 \<and> b = 254
        \<or> a = 100 \<and> 64 \<le> b \<and> b \<le> 127 \<or> 224 \<le> a \<and> a \<le> 239)"
proof -
  have unspecified: "IsUnspecified (v4_mapped [a, b, c, d]) \<longleftrightarrow> a = 0 \<and> b = 0 \<and> c = 0 \<and> d = 0"
  proof -
    have "To4 (replicate 16 0) = None" by code_simp
    moreover have "To4 (v4_mapped [a, b, c, d]) = Some [a, b, c, d]" by simp
    ultimately have "v4_mapped [a, b, c, d] \<noteq> replicate 16 0" by (metis option.distinct(1))
    then show ?thesis by (simp add: IsUnspecified_def v4_mapped_def)
  qed
  have "a AND 0xF0 = 0xE0" if "a = 224" using that by simp
  then show ?thesis
    by (auto simp: isPublicIP_def unspecified IsLoopback_def IsPrivate_def IsLinkLocalUnicast_def
        IsLinkLocalMulticast_def IsMulticast_def byte_ranges)
qed

lemma isPublicIP_v6:
  assumes "length ip = 16" and "To4 ip = None"
  shows "isPublicIP ip \<longleftrightarrow>
     \<not> (ip = replicate 15 0 @ [1] \<or> ip = replicate 16 0 \<or> ip ! 0 = 0xFC \<or> ip ! 0 = 0xFD
        \<or> ip ! 0 = 0xFE \<and> 0x80 \<le> ip ! 1 \<and> ip ! 1 \<le> 0xBF \<or> ip ! 0 = 0xFF)"
proof -
  have "ip \<noteq> v4_mapped [0, 0, 0, 0]" using assms(2) by auto
  then show ?thesis
    by (auto simp: isPublicIP_def IsUnspecified_def assms IsLoopback_def IsPrivate_def
        IsLinkLocalUnicast_def IsLinkLocalMulticast_def IsMulticast_def byte_ranges)
qed

text \<open>
  What \<open>isPublicIP\<close> accepts and refuses, as blocks of addresses, for IPv4 and IPv6.
\<close>

theorem isPublicIP_reading:
  "(isPublicIP (v4_mapped [a, b, c, d]) \<longleftrightarrow>
     \<not> (a = 127 \<or> a = 10 \<or> a = 172 \<and> 16 \<le> b \<and> b \<le> 31 \<or> a = 192 \<and> b = 168
        \<or> a = 0 \<and> b = 0 \<and> c = 0 \<and> d = 0 \<or> a = 169 \<and> b = 254
        \<or> a = 100 \<and> 64 \<le> b \<and> b \<le> 127 \<or> 224 \<le> a \<and> a \<le> 239)) \<and>
   (if length ip = 16 \<and> To4 ip = None then
      isPublicIP ip \<longleftrightarrow>
        \<not> (ip = replicate 15 0 @ [1] \<or> ip = replicate 16 0 \<or> ip ! 0 = 0xFC \<or> ip ! 0 = 0xFD
           \<or> ip ! 0 = 0xFE \<and> 0x80 \<le> ip ! 1 \<and> ip ! 1 \<le> 0xBF \<or> ip ! 0 = 0xFF)
    else True)"
  by (cases "length ip = 16 \<and> To4 ip = None") (simp_all add: isPublicIP_v4 isPublicIP_v6)

text \<open>
  Blocks that are not public unicast and are accepted all the same: \<open>0.0.0.0/8\<close>, the reserved
  \<open>240.0.0.0/4\<close> with limited broadcast, benchmarking and documentation networks, and IPv6
  addresses that stand for private IPv4 ones (NAT64 of \<open>127.0.0.1\<close>, 6to4 of \<open>10.0.0.1\<close>).
\<close>

theorem reserved_blocks_accepted:
  "isPublicIP (v4_mapped [0, b, c, 1]) \<and> isPublicIP (v4_mapped [255, 255, 255, 255])
   \<and> isPublicIP (v4_mapped [240, b, c, d]) \<and> isPublicIP (v4_mapped [198, 18, c, d])
   \<and> isPublicIP (v4_mapped [192, 0, 2, d])
   \<and> isPublicIP ([0x00, 0x64, 0xFF, 0x9B] @ replicate 8 0 @ [127, 0, 0, 1])
   \<and> isPublicIP ([0x20, 0x02, 10, 0, 0, 1] @ replicate 10 0)"
proof -
  have "isPublicIP ([0x00, 0x64, 0xFF, 0x9B] @ replicate 8 0 @ [127, 0, 0, 1])"
    "isPublicIP ([0x20, 0x02, 10, 0, 0, 1] @ replicate 10 0)"
    by code_simp+
  then show ?thesis by (simp add: isPublicIP_v4)
qed

section \<open>Where the endpoint connects to\<close>

text \<open>
  C4. Whatever DNS answers, and however often it changes its answer, whatever the servers reply and
  wherever they redirect to, the endpoint opens connections to public addresses only, keeps only
  such connections for reuse, and makes at most three connection attempts for a request.
\<close>

theorem only_public_addresses_dialed:
  assumes "fetcher_ok (im_net h)"
  shows "list_all isPublicIP (ft_dialed (im_net (fst (img_ServeHTTP e selfHost clk w r h))))
    \<and> list_all (\<lambda>(key, ip). isPublicIP ip) (ft_idle (im_net (fst (img_ServeHTTP e selfHost clk w r h))))
    \<and> length (ft_dialed (im_net (fst (img_ServeHTTP e selfHost clk w r h)))) \<le> length (ft_dialed (im_net h)) + 3"
proof -
  let ?net = "im_net (fst (img_ServeHTTP e selfHost clk w r h))"
  have "fetcher_ok ?net \<and> length (ft_dialed ?net) \<le> length (ft_dialed (im_net h)) + 3"
    using img_ServeHTTP_net [of e selfHost clk w r h] img_fetch_ok [OF prod.collapse [symmetric] assms] assms
    by (metis le_add1)
  then show ?thesis by (auto simp: fetcher_ok_def list_all_iff)
qed

theorem only_public_addresses_dialed_witness:
  "length (ft_dialed (im_net (fst (img_ServeHTTP (sample_img_env (SourceReply 200 [] 3 ''GIF'' False))
     (\<lambda>_. False) int new_writer sample_img_request sample_images)))) \<le> 3"
  using only_public_addresses_dialed [of sample_images "sample_img_env (SourceReply 200 [] 3 ''GIF'' False)"
      "\<lambda>_. False" int new_writer sample_img_request]
  by (simp add: sample_images_def no_fetches_def fetcher_ok_def)

section \<open>Redirects\<close>

lemma client_get_hop:
  assumes "round_trip e u st = (Inr reply, st1)" and "redirects reply = Some loc"
    and "wd_resolveRef e u loc = Some u'"
  shows "client_get e selfHost via u st =
    (case CheckRedirect selfHost u' (Suc via) of
       Some err \<Rightarrow> (Inl err, st1) | None \<Rightarrow> client_get e selfHost (Suc via) u' st1)"
  using assms by (simp add: client_get.simps [of e selfHost via])

lemma connection_steps: "ft_step (snd (connection e u s)) \<le> ft_step s + 2"
proof -
  have resolve: "ft_step (snd (resolvePublicIPs e host s)) = Suc (ft_step s)" for host s
    by (simp add: resolvePublicIPs_def Let_def split: lookup_reply.split option.split)
  have "ft_step (snd (dial_context e addr s)) \<le> ft_step s + 2" for addr s
    using resolve [of _ s]
    by (auto simp: dial_context_def Let_def split: sum.split prod.split) (metis le_SucI order_refl snd_conv)+
  from this [of "canonicalAddr e u" s] show ?thesis
    by (auto simp: connection_def Let_def split: option.split prod.split sum.split)
qed

text \<open>A server that always answers with a redirect leaves no connection for dead.\<close>

lemma round_trip_redirects:
  assumes "\<And>k ip u. redirects (wd_answer e k ip u) \<noteq> None" and "round_trip e u s = (r, s')"
  shows "ft_step s' \<le> ft_step s + 3 \<and> (\<forall>q. r = Inr q \<longrightarrow> (\<exists>loc. redirects q = Some loc))"
proof -
  obtain c s1 where conn: "connection e u s = (c, s1)" by fastforce
  have answers: "wd_answer e k ip u \<noteq> NoReply" for k ip
    using assms(1) [of k ip u] by (auto simp: redirects_def)
  have "ft_step s1 \<le> ft_step s + 2" using connection_steps [of e u s] conn by simp
  then show ?thesis
    using assms conn answers
    by (auto simp: round_trip.simps [of e u s] Let_def split: if_splits sum.splits prod.splits source_reply.splits)
      (metis option.exhaust)+
qed

lemma client_get_gives_up:
  assumes "\<And>k ip u. redirects (wd_answer e k ip u) \<noteq> None"
  shows "\<exists>err st'. client_get e selfHost via u s = (Inl err, st') \<and>
    ft_step st' \<le> ft_step s + 3 * max 1 (maxRedirects - via)"
proof (induction "maxRedirects - via" arbitrary: via u s rule: less_induct)
  case less
  obtain q s1 where rt: "round_trip e u s = (q, s1)" by fastforce
  then have s1: "ft_step s1 \<le> ft_step s + 3" using round_trip_redirects [OF assms] by blast
  show ?case
  proof (cases q)
    case (Inl err)
    then show ?thesis using rt s1 by (simp add: client_get.simps [of e selfHost via])
  next
    case (Inr rep)
    then obtain loc where loc: "redirects rep = Some loc" using round_trip_redirects [OF assms] rt by blast
    show ?thesis
    proof (cases "wd_resolveRef e u loc")
      case None
      then show ?thesis using rt Inr loc s1 by (simp add: client_get.simps [of e selfHost via])
    next
      case (Some u')
      note hop = client_get_hop [OF rt [unfolded Inr] loc Some, of selfHost via]
      show ?thesis
      proof (cases "CheckRedirect selfHost u' (Suc via)")
        case (Some err)
        then show ?thesis using hop s1 by simp
      next
        case None
        then have "Suc via < maxRedirects" by (auto simp: CheckRedirect_def split: if_splits)
        with less [of "Suc via" u' s1] None hop s1 show ?thesis by fastforce
      qed
    qed
  qed
qed

text \<open>
  C39. The chain of redirects ends for every server: if each answer redirects again, the client gives
  up with an error after at most three requests.
\<close>

theorem redirect_loop_ends:
  assumes "\<And>k ip u. redirects (wd_answer e k ip u) \<noteq> None"
  shows "\<exists>err st'. client_get e selfHost 0 u st = (Inl err, st') \<and>
    ft_step st' \<le> ft_step st + 9"
proof -
  from client_get_gives_up [OF assms, of selfHost 0 u st] show ?thesis by (simp add: maxRedirects_def)
qed

theorem redirect_loop_ends_witness:
  "\<exists>err st'. client_get (sample_world (SourceReply 302 ''/again'' 0 [] False)) (\<lambda>_. False) 0 sample_url no_fetches
     = (Inl err, st')"
  using redirect_loop_ends [of "sample_world (SourceReply 302 ''/again'' 0 [] False)" "\<lambda>_. False" sample_url no_fetches]
  by (auto simp: sample_world_def redirects_def)

section \<open>What the endpoint answers\<close>

lemma new_writer_simps [simp]:
  "w_wrote new_writer = False" "w_body new_writer = []" "w_header new_writer = []"
  by (simp_all add: new_writer_def)

lemma img_fetch_errors:
  "img_fetch e selfHost why src st = (Inl (HttpError status msg), st') \<Longrightarrow> status \<in> {400, 404, 413, 502}"
  by (auto simp: img_fetch_def Let_def
      split: prod.splits option.splits sum.splits source_reply.splits if_splits)

text \<open>
  Failures of a flight are answered with the status they stand for and are never stored: a missing
  source gets the placeholder image marked \<open>no-store\<close>, a rejected one 400, 413 or 415, everything
  else 502; a response in place of the object is never sent with status 200.
\<close>

theorem failed_flight_answer:
  assumes "img_optimize e selfHost now key src params h = (FlightError err, h')"
    and "img_answer e clk new_writer r key (FlightError err, h') = (h'', w, panic)"
  shows "im_cache h'' = im_cache h \<and> \<not> panic \<and> w_status w \<in> {400, 404, 413, 415, 502} \<and>
    (if w_status w = 404
     then header_get (w_sent w) ''Cache-Control'' = ''no-store'' \<and>
       w_body w = (if rq_method r \<noteq> ''HEAD'' then ie_notFound e else [])
     else header_get (w_sent w) ''Content-Type'' = ''text/plain; charset=utf-8'')"
proof -
  have cache: "im_cache h' = im_cache h" and
    err: "err = OtherError \<or> (\<exists>status msg. err = HttpError status msg \<and> status \<in> {400, 404, 413, 415, 502})"
    using assms(1)
    by (auto simp: img_optimize_def Let_def dest!: img_fetch_errors
        split: prod.splits sum.splits transform_error.splits if_splits option.splits)
      (metis img_error.exhaust img_fetch_errors insertE insertI1 insertI2 singletonD)+
  from err show ?thesis
  proof (elim disjE exE conjE)
    assume "err = OtherError"
    with assms(2) cache show ?thesis
      by (auto simp: img_answer_def img_Error_def w_WriteHeader_def w_Write_def error_header_def)
  next
    fix status msg
    assume "err = HttpError status msg" "status \<in> {400, 404, 413, 415, 502}"
    with assms(2) cache show ?thesis
      by (auto simp: img_answer_def img_Error_def serveNotFound_def w_WriteHeader_def w_Write_def
          error_header_def Let_def)
  qed
qed

lemma fst_is: "fst p = x \<Longrightarrow> \<exists>y. p = (x, y)"
  by (cases p) simp

lemma sample_fetch_404:
  "fst (img_fetch (sample_world (SourceReply 404 [] 0 [] False)) (\<lambda>_. False) (\<lambda>_. ''no address'') sample_url no_fetches)
     = Inl (HttpError 404 ''source image not found'')"
  by code_simp

theorem failed_flight_answer_witness:
  "im_cache (fst (img_answer (sample_img_env (SourceReply 404 [] 0 [] False)) int new_writer sample_img_request ''k''
     (img_optimize (sample_img_env (SourceReply 404 [] 0 [] False)) (\<lambda>_. False) 1 ''k'' sample_url Defaults sample_images)))
   = Cache_New 1000000"
proof -
  let ?e = "sample_img_env (SourceReply 404 [] 0 [] False)"
  obtain net where "img_fetch (ie_world ?e) (\<lambda>_. False) (ie_resolveText ?e) sample_url
      (im_net sample_images) = (Inl (HttpError 404 ''source image not found''), net)"
    unfolding sample_img_env_parts sample_images_parts using fst_is [OF sample_fetch_404] by blast
  then obtain h' where opt: "img_optimize ?e (\<lambda>_. False) 1 ''k'' sample_url Defaults sample_images =
      (FlightError (HttpError 404 ''source image not found''), h')"
    by (simp add: img_optimize_def)
  obtain h'' w panic where ans: "img_answer ?e int new_writer sample_img_request ''k''
      (FlightError (HttpError 404 ''source image not found''), h') = (h'', w, panic)"
    using prod_cases3 by blast
  show ?thesis
    using failed_flight_answer [OF opt ans] unfolding opt ans fst_conv sample_images_parts by blast
qed







section \<open>The source URL\<close>

text \<open>
  A source URL is only ever parsed from a text that starts with \<open>http://\<close> or \<open>https://\<close>, has a host and no
  credentials; repairing collapsed slashes gives back the URL that was meant.
\<close>

theorem parsePath_source:
  assumes "parsePath urlParse r = Inr (opts, u)"
  shows "CHR ''/'' \<notin> set opts \<and> url_Hostname u \<noteq> [] \<and> u_user u = None
    \<and> (\<exists>text. urlParse text = Some u \<and> (hasPrefix text ''https://'' \<or> hasPrefix text ''http://''))
    \<and> normalize_source (''https:/'' @ CHR ''x'' # rest) = ''https://'' @ CHR ''x'' # rest
    \<and> normalize_source (CHR ''x'' # rest) = ''https://'' @ CHR ''x'' # rest"
proof -
  have scheme: "hasPrefix (normalize_source raw) ''https://'' \<or> hasPrefix (normalize_source raw) ''http://''" for raw
    by (auto simp: normalize_source_def hasPrefix_def)
  have u: "\<exists>raw1. urlParse (normalize_source raw1) = Some u" "url_Hostname u \<noteq> []" "u_user u = None"
    and "\<exists>raw. cut CHR ''/'' (trimPrefix (rq_escaped r) PathPrefix) = Some (opts, raw)"
    using assms by (auto simp: parsePath_def Let_def split: option.splits if_splits)
  then obtain raw where cut: "cut CHR ''/'' (trimPrefix (rq_escaped r) PathPrefix) = Some (opts, raw)"
    by blast
  have "CHR ''/'' \<notin> set opts" using cut_Some [OF cut] by blast
  moreover have "normalize_source (''https:/'' @ CHR ''x'' # rest) = ''https://'' @ CHR ''x'' # rest"
    "normalize_source (CHR ''x'' # rest) = ''https://'' @ CHR ''x'' # rest"
    by (simp_all add: normalize_source_def hasPrefix_def)
  ultimately show ?thesis using u scheme by blast
qed

theorem parsePath_source_witness: "CHR ''/'' \<notin> set ''_'' \<and> url_Hostname sample_url \<noteq> []"
  using parsePath_source [OF sample_parse [of NoReply], of "[]"] by blast

end
