(* ===== verification/ImgFlight.thy ===== *)
theory ImgFlight
  imports ImgCdn "HOL-Library.Multiset"
begin

text \<open>
  Concurrent requests to the image endpoint (\<open>internal/imgcdn/imgcdn.go\<close>): requests for one rendition
  share a flight (\<open>singleflight.Group.Do\<close>), and the flights that transform an image hold one of the
  slots of the semaphore. The steps are what happens between two points at which goroutines can
  interleave: the arrival of a request up to its cache lookup, joining a flight, the end of a fetch,
  taking a slot, the end of a transformation, the end of the context a flight runs with, which is
  that of its first request. A fetch is one step.
\<close>

section \<open>The handler up to the flight\<close>

text \<open>What \<open>ServeHTTP\<close> does before \<open>sf.Do\<close>: it is done, or needs the rendition of a key.\<close>

definition img_begin ::
  "img_env \<Rightarrow> (string \<Rightarrow> bool) \<Rightarrow> (nat \<Rightarrow> time) \<Rightarrow> writer \<Rightarrow> request \<Rightarrow> images \<Rightarrow>
     (images \<times> writer \<times> bool) + (images \<times> string \<times> url \<times> params)" where
  "img_begin e selfHost clk w r h0 =
     (let h = img_bump (\<lambda>m. m\<lparr>m_ImageRequests := m_ImageRequests m + 1\<rparr>) h0 in
      if rq_method r \<noteq> ''GET'' \<and> rq_method r \<noteq> ''HEAD'' then
        Inl (h, img_Error ''only GET is supported'' 405 w, False)
      else case parsePath (wd_urlParse (ie_world e)) r of
        Inl err \<Rightarrow> Inl (h, img_Error (path_error_text err) 400 w, False)
      | Inr (optStr, src) \<Rightarrow>
          (case Params_Parse optStr of
             Inl err \<Rightarrow> Inl (h, img_Error (ie_paramText e err) 400 w, False)
           | Inr params \<Rightarrow>
               if selfHost (toLower (url_Hostname src)) then
                 Inl (h, img_Error ''source may not point back at this node'' 400 w, False)
               else
                 let key = img_key e optStr src in
                 case Cache_Get (im_cache h) key (clk 0) of
                   None \<Rightarrow> Inl (h, w, True)
                 | Some (c, Some obj, Fresh) \<Rightarrow>
                     Inl (img_bump (\<lambda>m. m\<lparr>m_ImageCacheHits := m_ImageCacheHits m + 1\<rparr>) (h\<lparr>im_cache := c\<rparr>),
                      img_serve (clk 2) w r key obj ''HIT'', False)
                 | Some (c, _, _) \<Rightarrow> Inr (h\<lparr>im_cache := c\<rparr>, key, src, params)))"

text \<open>What \<open>optimize\<close> does with the fetched bytes once it has a slot.\<close>

definition img_transform ::
  "img_env \<Rightarrow> time \<Rightarrow> string \<Rightarrow> bytes \<Rightarrow> params \<Rightarrow> images \<Rightarrow> flight \<times> images" where
  "img_transform e now key data params h =
     (case Transform (ie_codec e) data params of
        Inl Panics \<Rightarrow> (FlightPanic, h)
      | Inl Unsupported \<Rightarrow>
          (FlightError (HttpError 415 ''the source is not a supported image format''), h)
      | Inl _ \<Rightarrow> (FlightError OtherError, h)
      | Inr res \<Rightarrow>
          (let obj = img_object res now in
           if length (o_body obj) \<le> maxCacheableBytes then
             (case Cache_Set (im_cache h) key obj of
                None \<Rightarrow> (FlightPanic, h)
              | Some c \<Rightarrow> (FlightObject obj, h\<lparr>im_cache := c\<rparr>))
           else (FlightObject obj, h)))"

lemma img_optimize_stages:
  "img_optimize e selfHost now key src params h =
     (case img_fetch (ie_world e) selfHost (ie_resolveText e) src (im_net h) of
        (Inl err, net) \<Rightarrow> (FlightError err, h\<lparr>im_net := net\<rparr>)
      | (Inr data, net) \<Rightarrow> img_transform e now key data params (h\<lparr>im_net := net\<rparr>))"
  unfolding img_optimize_def img_transform_def Let_def by (simp split: prod.split sum.split)

lemma img_ServeHTTP_stages:
  "img_ServeHTTP e selfHost clk w r h =
     (case img_begin e selfHost clk w r h of
        Inl done_ \<Rightarrow> done_
      | Inr (h', key, src, params) \<Rightarrow>
          img_answer e clk w r key (img_optimize e selfHost (clk 1) key src params h'))"
  unfolding img_ServeHTTP_def img_begin_def Let_def
  by (simp split: sum.split option.split freshness.split prod.split)

section \<open>The state\<close>

text \<open>Fetching, waiting for a slot with the fetched bytes, or transforming while holding one.\<close>

datatype phase = Fetching | Fetched bytes | Transforming bytes

text \<open>A flight with the requests that wait for it; the first of them started it.\<close>

record call =
  ca_key :: string
  ca_src :: url
  ca_params :: params
  ca_phase :: phase
  ca_waiters :: "(nat \<times> request) list"

text \<open>A request whose lookup missed and that has not called \<open>Do\<close> yet.\<close>

record missed =
  mi_id :: nat
  mi_request :: request
  mi_key :: string
  mi_src :: url
  mi_params :: params

text \<open>
  \<open>ep_slots\<close> is the number of values in the channel \<open>sem\<close>, \<open>ep_arrived\<close> the number of requests so
  far, and \<open>ep_replies\<close> what each of them got, with whether its handler panicked.
\<close>

record endpoint =
  ep_images :: images
  ep_missed :: "missed list"
  ep_calls :: "call list"
  ep_slots :: nat
  ep_arrived :: nat
  ep_replies :: "(nat \<times> writer \<times> bool) list"

definition sem_capacity :: "nat \<Rightarrow> nat" where
  "sem_capacity gomaxprocs = max 2 gomaxprocs"

definition new_endpoint :: "images \<Rightarrow> endpoint" where
  "new_endpoint h = \<lparr>ep_images = h, ep_missed = [], ep_calls = [], ep_slots = 0, ep_arrived = 0, ep_replies = []\<rparr>"

section \<open>The operations\<close>

definition img_arrive ::
  "img_env \<Rightarrow> (string \<Rightarrow> bool) \<Rightarrow> (nat \<Rightarrow> time) \<Rightarrow> request \<Rightarrow> endpoint \<Rightarrow> endpoint" where
  "img_arrive e selfHost clk r s =
     (let i = ep_arrived s; s1 = s\<lparr>ep_arrived := Suc i\<rparr> in
      case img_begin e selfHost clk new_writer r (ep_images s) of
        Inl (h, w, panic) \<Rightarrow> s1\<lparr>ep_images := h, ep_replies := ep_replies s @ [(i, w, panic)]\<rparr>
      | Inr (h, key, src, params) \<Rightarrow>
          s1\<lparr>ep_images := h, ep_missed := ep_missed s @
            [\<lparr>mi_id = i, mi_request = r, mi_key = key, mi_src = src, mi_params = params\<rparr>]\<rparr>)"

text \<open>\<open>Do\<close>: the request joins the flight of its key, or starts one.\<close>

fun sf_Do :: "missed \<Rightarrow> call list \<Rightarrow> call list" where
  "sf_Do m [] =
     [\<lparr>ca_key = mi_key m, ca_src = mi_src m, ca_params = mi_params m, ca_phase = Fetching,
       ca_waiters = [(mi_id m, mi_request m)]\<rparr>]"
| "sf_Do m (c # cs) =
     (if ca_key c = mi_key m then c\<lparr>ca_waiters := ca_waiters c @ [(mi_id m, mi_request m)]\<rparr> # cs
      else c # sf_Do m cs)"

definition img_join :: "missed \<Rightarrow> endpoint \<Rightarrow> endpoint" where
  "img_join m s = s\<lparr>ep_missed := remove1 m (ep_missed s), ep_calls := sf_Do m (ep_calls s)\<rparr>"

text \<open>The end of a flight: it is forgotten and every request that waits for it is answered.\<close>

fun answer_all ::
  "img_env \<Rightarrow> (nat \<Rightarrow> time) \<Rightarrow> string \<Rightarrow> flight \<Rightarrow> (nat \<times> request) list \<Rightarrow> images \<Rightarrow>
     images \<times> (nat \<times> writer \<times> bool) list" where
  "answer_all e clk key f [] h = (h, [])"
| "answer_all e clk key f ((i, r) # qs) h =
     (let (h1, w, panic) = img_answer e clk new_writer r key (f, h);
          (h2, rest) = answer_all e clk key f qs h1
      in (h2, (i, w, panic) # rest))"

definition img_land ::
  "img_env \<Rightarrow> (nat \<Rightarrow> time) \<Rightarrow> call \<Rightarrow> flight \<Rightarrow> images \<Rightarrow> endpoint \<Rightarrow> endpoint" where
  "img_land e clk c f h s =
     (let (h', replies) = answer_all e clk (ca_key c) f (ca_waiters c) h
      in s\<lparr>ep_images := h', ep_calls := remove1 c (ep_calls s), ep_replies := ep_replies s @ replies\<rparr>)"

definition set_phase :: "call \<Rightarrow> phase \<Rightarrow> endpoint \<Rightarrow> endpoint" where
  "set_phase c ph s = s\<lparr>ep_calls := map (\<lambda>d. if ca_key d = ca_key c then d\<lparr>ca_phase := ph\<rparr> else d) (ep_calls s)\<rparr>"

definition img_fetched ::
  "img_env \<Rightarrow> (string \<Rightarrow> bool) \<Rightarrow> (nat \<Rightarrow> time) \<Rightarrow> call \<Rightarrow> endpoint \<Rightarrow> endpoint" where
  "img_fetched e selfHost clk c s =
     (let h = ep_images s in
      case img_fetch (ie_world e) selfHost (ie_resolveText e) (ca_src c) (im_net h) of
        (Inl err, net) \<Rightarrow> img_land e clk c (FlightError err) (h\<lparr>im_net := net\<rparr>) s
      | (Inr data, net) \<Rightarrow> set_phase c (Fetched data) (s\<lparr>ep_images := h\<lparr>im_net := net\<rparr>\<rparr>))"

definition img_acquire :: "call \<Rightarrow> bytes \<Rightarrow> endpoint \<Rightarrow> endpoint" where
  "img_acquire c data s = set_phase c (Transforming data) (s\<lparr>ep_slots := Suc (ep_slots s)\<rparr>)"

definition img_finish ::
  "img_env \<Rightarrow> (nat \<Rightarrow> time) \<Rightarrow> call \<Rightarrow> bytes \<Rightarrow> endpoint \<Rightarrow> endpoint" where
  "img_finish e clk c data s =
     (let (f, h) = img_transform e (clk 1) (ca_key c) data (ca_params c) (ep_images s)
      in img_land e clk c f h (s\<lparr>ep_slots := ep_slots s - 1\<rparr>))"

text \<open>
  The context ends: the client of the first request is gone, or the 25 seconds are over. Waiting for
  a slot this is an error of its own; in the middle of a fetch it is the error of whatever was
  under way, which is a 400 when it was the address check.
\<close>

definition context_error :: "phase \<Rightarrow> img_error \<Rightarrow> bool" where
  "context_error ph err \<longleftrightarrow>
     (case ph of
        Fetching \<Rightarrow> (case err of OtherError \<Rightarrow> True | HttpError status _ \<Rightarrow> status = 400)
      | Fetched _ \<Rightarrow> err = OtherError
      | Transforming _ \<Rightarrow> False)"

section \<open>The steps\<close>

inductive flight_step ::
  "img_env \<Rightarrow> (string \<Rightarrow> bool) \<Rightarrow> nat \<Rightarrow> endpoint \<Rightarrow> endpoint \<Rightarrow> bool"
  for e :: img_env and selfHost :: "string \<Rightarrow> bool" and capacity :: nat where
  joins: "m \<in> set (ep_missed s) \<Longrightarrow> flight_step e selfHost capacity s (img_join m s)"
| fetch_ends: "c \<in> set (ep_calls s) \<Longrightarrow> ca_phase c = Fetching \<Longrightarrow>
    flight_step e selfHost capacity s (img_fetched e selfHost clk c s)"
| take_slot: "c \<in> set (ep_calls s) \<Longrightarrow> ca_phase c = Fetched data \<Longrightarrow> ep_slots s < capacity \<Longrightarrow>
    flight_step e selfHost capacity s (img_acquire c data s)"
| transformed: "c \<in> set (ep_calls s) \<Longrightarrow> ca_phase c = Transforming data \<Longrightarrow>
    flight_step e selfHost capacity s (img_finish e clk c data s)"
| context_ends: "c \<in> set (ep_calls s) \<Longrightarrow> context_error (ca_phase c) err \<Longrightarrow>
    flight_step e selfHost capacity s (img_land e clk c (FlightError err) (ep_images s) s)"

text \<open>All that happens: flights go on, requests arrive, and others use the shared cache.\<close>

inductive endpoint_step ::
  "img_env \<Rightarrow> (string \<Rightarrow> bool) \<Rightarrow> nat \<Rightarrow> endpoint \<Rightarrow> endpoint \<Rightarrow> bool"
  for e :: img_env and selfHost :: "string \<Rightarrow> bool" and capacity :: nat where
  flight: "flight_step e selfHost capacity s s' \<Longrightarrow> endpoint_step e selfHost capacity s s'"
| arrival: "endpoint_step e selfHost capacity s (img_arrive e selfHost clk r s)"
| elsewhere: "cache_wf c \<Longrightarrow> endpoint_step e selfHost capacity s
    (s\<lparr>ep_images := (ep_images s)\<lparr>im_cache := c, im_metrics := m\<rparr>\<rparr>)"

inductive_cases flight_stepE: "flight_step e selfHost capacity s s'"

section \<open>Runs of flights\<close>

text \<open>How much is left to do for the requests that are there.\<close>

fun phase_rank :: "phase \<Rightarrow> nat" where
  "phase_rank Fetching = 3"
| "phase_rank (Fetched _) = 2"
| "phase_rank (Transforming _) = 1"

definition work_left :: "endpoint \<Rightarrow> nat" where
  "work_left s = 4 * length (ep_missed s) + sum_list (map (phase_rank \<circ> ca_phase) (ep_calls s))"

definition waiting :: "endpoint \<Rightarrow> nat list" where
  "waiting s = map mi_id (ep_missed s) @ concat (map (map fst \<circ> ca_waiters) (ep_calls s))"

fun is_transforming :: "phase \<Rightarrow> bool" where
  "is_transforming (Transforming _) = True"
| "is_transforming _ = False"

definition transforming :: "endpoint \<Rightarrow> nat" where
  "transforming s = length (filter (is_transforming \<circ> ca_phase) (ep_calls s))"

text \<open>
  The invariant: one flight per key, each with a request that waits for it; the semaphore counts the
  flights that transform; every request that arrived waits or has been answered, once.
\<close>

definition endpoint_ok :: "nat \<Rightarrow> endpoint \<Rightarrow> bool" where
  "endpoint_ok capacity s \<longleftrightarrow>
     distinct (map ca_key (ep_calls s)) \<and> (\<forall>c \<in> set (ep_calls s). ca_waiters c \<noteq> []) \<and>
     ep_slots s = transforming s \<and> ep_slots s \<le> capacity \<and>
     mset (waiting s @ map fst (ep_replies s)) = mset [0..<ep_arrived s]"

lemma new_endpoint_ok: "endpoint_ok capacity (new_endpoint h)"
  by (simp add: endpoint_ok_def new_endpoint_def transforming_def waiting_def)

lemma sf_Do_ids:
  "mset (concat (map (map fst \<circ> ca_waiters) (sf_Do m cs))) =
     add_mset (mi_id m) (mset (concat (map (map fst \<circ> ca_waiters) cs)))"
  by (induction m cs rule: sf_Do.induct) simp_all

lemma sf_Do_keys:
  "set (map ca_key (sf_Do m cs)) = insert (mi_key m) (set (map ca_key cs))"
  by (induction m cs rule: sf_Do.induct) auto

lemma sf_Do_distinct: "distinct (map ca_key cs) \<Longrightarrow> distinct (map ca_key (sf_Do m cs))"
proof (induction m cs rule: sf_Do.induct)
  case (2 m c cs)
  then show ?case using sf_Do_keys [of m cs] by auto
qed simp

lemma sf_Do_waiters: "\<forall>c \<in> set cs. ca_waiters c \<noteq> [] \<Longrightarrow> \<forall>c \<in> set (sf_Do m cs). ca_waiters c \<noteq> []"
  by (induction m cs rule: sf_Do.induct) auto

lemma sf_Do_transforming:
  "length (filter (is_transforming \<circ> ca_phase) (sf_Do m cs)) = length (filter (is_transforming \<circ> ca_phase) cs)"
  by (induction m cs rule: sf_Do.induct) auto

lemma sf_Do_rank:
  "sum_list (map (phase_rank \<circ> ca_phase) (sf_Do m cs)) \<le> 3 + sum_list (map (phase_rank \<circ> ca_phase) cs)"
  by (induction m cs rule: sf_Do.induct) auto

lemma answer_all_ids: "map fst (snd (answer_all e clk key f qs h)) = map fst qs"
  by (induction e clk key f qs h rule: answer_all.induct) (auto split: prod.splits)

text \<open>What taking a flight off the list, or moving it on, does to the sums over the list.\<close>

lemma remove1_sum:
  fixes g :: "'a \<Rightarrow> nat"
  shows "x \<in> set xs \<Longrightarrow> sum_list (map g (remove1 x xs)) + g x = sum_list (map g xs)"
  by (induction xs) auto

lemma remove1_concat:
  "x \<in> set xs \<Longrightarrow> mset (concat (map g xs)) = mset (g x) + mset (concat (map g (remove1 x xs)))"
  by (induction xs) auto

lemma remove1_map: "x \<in> set xs \<Longrightarrow> mset (map g xs) = add_mset (g x) (mset (map g (remove1 x xs)))"
  by (induction xs) auto

lemma remove1_filter_length:
  "x \<in> set xs \<Longrightarrow> length (filter P xs) = length (filter P (remove1 x xs)) + (if P x then 1 else 0)"
  by (induction xs) auto

lemma update_one:
  assumes "distinct (map ca_key cs)" and "c \<in> set cs"
  shows "map (\<lambda>d. if ca_key d = ca_key c then d\<lparr>ca_phase := ph\<rparr> else d) cs =
    map (\<lambda>d. if d = c then c\<lparr>ca_phase := ph\<rparr> else d) cs"
  using assms by (auto simp: distinct_map dest: inj_onD)

lemma update_sum:
  fixes g :: "'a \<Rightarrow> nat"
  assumes "distinct cs" and "c \<in> set cs"
  shows "sum_list (map (\<lambda>d. g (if d = c then c' else d)) cs) + g c = sum_list (map g cs) + g c'"
  using assms
proof (induction cs)
  case (Cons d cs)
  show ?case
  proof (cases "d = c")
    case True
    then have "map (\<lambda>d. g (if d = c then c' else d)) cs = map g cs"
      using Cons.prems by (intro map_cong) auto
    then show ?thesis using True unfolding list.map sum_list.Cons by presburger
  next
    case False
    then show ?thesis using Cons by simp
  qed
qed simp

lemma length_filter_sum: "length (filter P xs) = sum_list (map (\<lambda>x. if P x then 1 else 0) xs)"
  by (induction xs) auto

lemma set_phase_parts [simp]:
  "ep_missed (set_phase c ph s) = ep_missed s" "ep_slots (set_phase c ph s) = ep_slots s"
  "ep_arrived (set_phase c ph s) = ep_arrived s" "ep_replies (set_phase c ph s) = ep_replies s"
  "ep_images (set_phase c ph s) = ep_images s"
  "map ca_key (ep_calls (set_phase c ph s)) = map ca_key (ep_calls s)"
  "map ca_waiters (ep_calls (set_phase c ph s)) = map ca_waiters (ep_calls s)"
  by (simp_all add: set_phase_def)

lemma set_phase_waiting [simp]: "waiting (set_phase c ph s) = waiting s"
  using set_phase_parts(7) [of c ph s] by (simp add: waiting_def flip: map_map)

text \<open>Anything counted per phase changes by the one flight that moves on.\<close>

lemma set_phase_count:
  fixes g :: "phase \<Rightarrow> nat"
  assumes "distinct (map ca_key (ep_calls s))" and "c \<in> set (ep_calls s)"
  shows "sum_list (map (g \<circ> ca_phase) (ep_calls (set_phase c ph s))) + g (ca_phase c) =
    sum_list (map (g \<circ> ca_phase) (ep_calls s)) + g ph"
proof -
  have "map (g \<circ> ca_phase) (ep_calls (set_phase c ph s)) =
      map (\<lambda>d. (g \<circ> ca_phase) (if d = c then c\<lparr>ca_phase := ph\<rparr> else d)) (ep_calls s)"
    using update_one [OF assms] by (simp add: set_phase_def)
  then show ?thesis
    using update_sum [of "ep_calls s" c "g \<circ> ca_phase" "c\<lparr>ca_phase := ph\<rparr>"] assms
    by (simp add: distinct_map)
qed

lemma transforming_sum:
  "transforming s = sum_list (map ((\<lambda>ph. if is_transforming ph then 1 else 0) \<circ> ca_phase) (ep_calls s))"
  by (simp add: transforming_def length_filter_sum comp_def)

lemma set_phase_transforming:
  assumes "distinct (map ca_key (ep_calls s))" and "c \<in> set (ep_calls s)"
  shows "transforming (set_phase c ph s) + (if is_transforming (ca_phase c) then 1 else 0) =
    transforming s + (if is_transforming ph then 1 else 0)"
  unfolding transforming_sum using set_phase_count [OF assms] .

text \<open>Landing hands the requests of the flight from waiting to answered.\<close>

lemma img_land_parts [simp]:
  "ep_missed (img_land e clk c f h s) = ep_missed s"
  "ep_calls (img_land e clk c f h s) = remove1 c (ep_calls s)"
  "ep_slots (img_land e clk c f h s) = ep_slots s" "ep_arrived (img_land e clk c f h s) = ep_arrived s"
  "map fst (ep_replies (img_land e clk c f h s)) = map fst (ep_replies s) @ map fst (ca_waiters c)"
  using answer_all_ids [of e clk "ca_key c" f "ca_waiters c" h]
  by (simp_all add: img_land_def case_prod_unfold Let_def)

lemma img_land_accounts:
  assumes "c \<in> set (ep_calls s)"
  shows "mset (waiting (img_land e clk c f h s) @ map fst (ep_replies (img_land e clk c f h s))) =
    mset (waiting s @ map fst (ep_replies s))"
  using remove1_concat [OF assms, of "map fst \<circ> ca_waiters"] by (simp add: waiting_def)

lemma img_land_transforming:
  assumes "c \<in> set (ep_calls s)"
  shows "transforming (img_land e clk c f h s) + (if is_transforming (ca_phase c) then 1 else 0) = transforming s"
  using remove1_filter_length [OF assms, of "is_transforming \<circ> ca_phase"] by (simp add: transforming_def)

lemma img_land_work:
  assumes "c \<in> set (ep_calls s)"
  shows "work_left (img_land e clk c f h s) + phase_rank (ca_phase c) = work_left s"
  using remove1_sum [OF assms, of "phase_rank \<circ> ca_phase"] by (simp add: work_left_def)

lemma set_phase_waiters:
  assumes "\<forall>d \<in> set (ep_calls s). ca_waiters d \<noteq> []"
  shows "\<forall>d \<in> set (ep_calls (set_phase c ph s)). ca_waiters d \<noteq> []"
  using assms by (auto simp: set_phase_def)

lemma img_land_ok:
  assumes "endpoint_ok capacity s" and "c \<in> set (ep_calls s)" and "\<not> is_transforming (ca_phase c)"
  shows "endpoint_ok capacity (img_land e clk c f h s)"
proof -
  have "\<forall>d \<in> set (remove1 c (ep_calls s)). ca_waiters d \<noteq> []"
    using assms(1) set_remove1_subset [of c "ep_calls s"] by (auto simp: endpoint_ok_def)
  moreover have "transforming (img_land e clk c f h s) = transforming s"
    using img_land_transforming [OF assms(2), of e clk f h] assms(3) by simp
  ultimately show ?thesis
    using assms(1) img_land_accounts [OF assms(2), of e clk f h] distinct_map_remove1 [of ca_key "ep_calls s" c]
    unfolding endpoint_ok_def img_land_parts by metis
qed

lemma set_phase_ok:
  assumes "endpoint_ok capacity s" and "c \<in> set (ep_calls s)"
    and "\<not> is_transforming (ca_phase c)" and "\<not> is_transforming ph"
  shows "endpoint_ok capacity (set_phase c ph s)"
proof -
  have "transforming (set_phase c ph s) = transforming s"
    using set_phase_transforming [of s c ph] assms by (simp add: endpoint_ok_def)
  then show ?thesis
    using assms(1) set_phase_waiters [of s c ph]
    unfolding endpoint_ok_def set_phase_parts set_phase_waiting by metis
qed

lemma endpoint_ok_images [simp]: "endpoint_ok capacity (s\<lparr>ep_images := h\<rparr>) = endpoint_ok capacity s"
  by (simp add: endpoint_ok_def transforming_def waiting_def)

lemma img_join_ok:
  assumes "endpoint_ok capacity s" and "m \<in> set (ep_missed s)"
  shows "endpoint_ok capacity (img_join m s)"
proof -
  have "mset (map mi_id (ep_missed s)) = add_mset (mi_id m) (mset (map mi_id (remove1 m (ep_missed s))))"
    using assms(2) by (rule remove1_map)
  then have "mset (waiting (img_join m s)) = mset (waiting s)"
    by (simp add: waiting_def img_join_def sf_Do_ids)
  then show ?thesis
    using assms(1) sf_Do_distinct [of "ep_calls s" m] sf_Do_waiters [of "ep_calls s" m]
    by (simp add: endpoint_ok_def img_join_def transforming_def sf_Do_transforming)
qed

lemma img_acquire_ok:
  assumes "endpoint_ok capacity s" and "c \<in> set (ep_calls s)" and "ca_phase c = Fetched data"
    and "ep_slots s < capacity"
  shows "endpoint_ok capacity (img_acquire c data s)"
proof -
  let ?s = "s\<lparr>ep_slots := Suc (ep_slots s)\<rparr>"
  have "transforming (img_acquire c data s) = Suc (transforming s)"
    using set_phase_transforming [of ?s c "Transforming data"] assms
    by (simp add: img_acquire_def endpoint_ok_def transforming_def)
  moreover have "waiting ?s = waiting s" by (simp add: waiting_def)
  ultimately show ?thesis
    using assms(1,4) set_phase_waiters [of ?s c "Transforming data"] set_phase_parts(6) [of c "Transforming data" ?s]
    unfolding endpoint_ok_def img_acquire_def by simp
qed

lemma img_finish_ok:
  assumes "endpoint_ok capacity s" and "c \<in> set (ep_calls s)" and "ca_phase c = Transforming data"
  shows "endpoint_ok capacity (img_finish e clk c data s)"
proof -
  let ?s = "s\<lparr>ep_slots := ep_slots s - 1\<rparr>"
  obtain f h where f: "img_transform e (clk 1) (ca_key c) data (ca_params c) (ep_images s) = (f, h)" by fastforce
  let ?s' = "img_land e clk c f h ?s"
  have c: "c \<in> set (ep_calls ?s)" using assms(2) by simp
  have "transforming ?s' + 1 = transforming s"
    using img_land_transforming [OF c, of e clk f h] assms(3) by (simp add: transforming_def)
  moreover have "ep_slots s = transforming s" "ep_slots s \<le> capacity"
    using assms(1) by (simp_all add: endpoint_ok_def)
  moreover have "ep_slots ?s' = ep_slots s - 1" by simp
  ultimately have "ep_slots ?s' = transforming ?s'" "ep_slots ?s' \<le> capacity" by arith+
  moreover have "mset (waiting ?s' @ map fst (ep_replies ?s')) = mset [0..<ep_arrived ?s']"
  proof -
    have "mset (waiting ?s @ map fst (ep_replies ?s)) = mset [0..<ep_arrived s]"
      using assms(1) by (simp add: endpoint_ok_def waiting_def)
    moreover have "ep_arrived ?s' = ep_arrived s" by simp
    ultimately show ?thesis using img_land_accounts [OF c, of e clk f h] by presburger
  qed
  moreover have "distinct (map ca_key (ep_calls ?s'))" "\<forall>d \<in> set (ep_calls ?s'). ca_waiters d \<noteq> []"
    using assms(1) set_remove1_subset [of c "ep_calls s"]
    by (auto simp: endpoint_ok_def intro: distinct_map_remove1)
  ultimately have "endpoint_ok capacity ?s'" unfolding endpoint_ok_def by blast
  then show ?thesis by (simp only: img_finish_def f prod.case Let_def)
qed

lemma img_fetched_ok:
  assumes "endpoint_ok capacity s" and "c \<in> set (ep_calls s)" and "ca_phase c = Fetching"
  shows "endpoint_ok capacity (img_fetched e selfHost clk c s)"
proof -
  have "endpoint_ok capacity (set_phase c (Fetched data) (s\<lparr>ep_images := h\<rparr>))" for data h
    using assms by (intro set_phase_ok) simp_all
  moreover have "endpoint_ok capacity (img_land e clk c f h s)" for f h
    using assms by (intro img_land_ok) simp_all
  ultimately show ?thesis by (simp add: img_fetched_def Let_def split: prod.split sum.split)
qed

lemma flight_step_ok: "flight_step e selfHost capacity s s' \<Longrightarrow> endpoint_ok capacity s \<Longrightarrow> endpoint_ok capacity s'"
proof (induction rule: flight_step.induct)
  case (context_ends c s err clk)
  then have "\<not> is_transforming (ca_phase c)" by (cases "ca_phase c") (simp_all add: context_error_def)
  with context_ends show ?case by (simp add: img_land_ok)
qed (simp_all add: img_join_ok img_fetched_ok img_acquire_ok img_finish_ok)

lemma img_arrive_ok:
  assumes "endpoint_ok capacity s"
  shows "endpoint_ok capacity (img_arrive e selfHost clk r s)"
  using assms
  by (auto simp: img_arrive_def endpoint_ok_def transforming_def waiting_def Let_def atLeastLessThanSuc
      split: sum.split)

lemma endpoint_step_ok:
  "endpoint_step e selfHost capacity s s' \<Longrightarrow> endpoint_ok capacity s \<Longrightarrow> endpoint_ok capacity s'"
  by (induction rule: endpoint_step.induct) (simp_all add: flight_step_ok img_arrive_ok)

interpretation flights: step_invariant "endpoint_step e selfHost capacity" "endpoint_ok capacity"
  for e selfHost capacity
  by unfold_locales (rule endpoint_step_ok)

end
