(* ===== verification/ImgFlightProps.thy ===== *)
theory ImgFlightProps
  imports ImgFlight ImgCdnProps
begin

text \<open>
  Properties of the image endpoint under concurrent requests: the invariant of flights and slots,
  completion of every request, agreement with the handler run alone, and what the requests that
  share a flight have in common.
\<close>

section \<open>Completion\<close>

lemma flight_step_work:
  assumes "flight_step e selfHost capacity s s'" and "endpoint_ok capacity s"
  shows "work_left s' < work_left s"
  using assms
proof (induction rule: flight_step.induct)
  case (joins m s)
  then show ?case using length_remove1_Suc [OF joins.hyps] sf_Do_rank [of m "ep_calls s"] by (simp add: work_left_def img_join_def)
next
  case (fetch_ends c s clk)
  have keys: "distinct (map ca_key (ep_calls s))" using fetch_ends.prems by (simp add: endpoint_ok_def)
  have land: "work_left (img_land e clk c f h s) < work_left s" for f h
    using img_land_work [OF fetch_ends.hyps(1), of e clk f h] fetch_ends.hyps(2) by simp
  have move: "work_left (set_phase c (Fetched data) (s\<lparr>ep_images := h\<rparr>)) < work_left s" for data h
    using set_phase_count [of "s\<lparr>ep_images := h\<rparr>" c phase_rank "Fetched data"] fetch_ends.hyps keys
    by (simp add: work_left_def)
  show ?case using land move by (simp add: img_fetched_def Let_def split: prod.split sum.split)
next
  case (take_slot c s data)
  then show ?case
    using set_phase_count [of "s\<lparr>ep_slots := Suc (ep_slots s)\<rparr>" c phase_rank "Transforming data"]
    by (simp add: work_left_def img_acquire_def endpoint_ok_def)
next
  case (transformed c s data clk)
  obtain f h where f: "img_transform e (clk 1) (ca_key c) data (ca_params c) (ep_images s) = (f, h)" by fastforce
  have "work_left (s\<lparr>ep_slots := ep_slots s - 1\<rparr>) = work_left s" by (simp add: work_left_def)
  then show ?case
    using img_land_work [of c "s\<lparr>ep_slots := ep_slots s - 1\<rparr>" e clk f h] transformed.hyps
    unfolding img_finish_def f prod.case by simp
next
  case (context_ends c s err clk)
  have "0 < phase_rank (ca_phase c)" by (cases "ca_phase c") simp_all
  then show ?case using img_land_work [OF context_ends.hyps(1), of e clk "FlightError err" "ep_images s"] by simp
qed

lemma flight_progress:
  assumes "endpoint_ok capacity s" and "0 < capacity" and "waiting s \<noteq> []"
  shows "\<exists>s'. flight_step e selfHost capacity s s'"
proof (cases "ep_missed s")
  case (Cons m ms)
  then have "m \<in> set (ep_missed s)" by simp
  then show ?thesis using flight_step.joins by blast
next
  case Nil
  then obtain c where c: "c \<in> set (ep_calls s)" using assms(3) by (cases "ep_calls s") (auto simp: waiting_def)
  show ?thesis
  proof (cases "\<exists>d \<in> set (ep_calls s). is_transforming (ca_phase d)")
    case True
    then obtain d data where "d \<in> set (ep_calls s)" "ca_phase d = Transforming data"
      by (metis is_transforming.elims(2))
    then show ?thesis using flight_step.transformed by blast
  next
    case False
    then have "transforming s = 0" by (auto simp: transforming_def filter_empty_conv)
    then have "ep_slots s < capacity" using assms(1,2) by (simp add: endpoint_ok_def)
    with c False show ?thesis
      by (cases "ca_phase c") (auto intro: flight_step.fetch_ends flight_step.take_slot)
  qed
qed

lemma flight_step_frame:
  "flight_step e selfHost capacity s s' \<Longrightarrow> ep_arrived s' = ep_arrived s"
  by (induction rule: flight_step.induct)
    (auto simp: img_join_def img_fetched_def img_acquire_def img_finish_def Let_def split: prod.split sum.split)

text \<open>
  C12. However requests arrive, and however fetches, transformations and lost clients interleave: there
  is at most one flight for a rendition, never more transformations run than the semaphore has
  slots, a slot is never lost, and every request that arrived waits in one place or has been answered
  once.
\<close>

theorem image_flights_invariant:
  assumes "(endpoint_step e selfHost capacity)\<^sup>*\<^sup>* (new_endpoint h) s"
  shows "distinct (map ca_key (ep_calls s)) \<and> transforming s \<le> capacity \<and> ep_slots s = transforming s \<and>
    distinct (waiting s @ map fst (ep_replies s)) \<and>
    set (waiting s @ map fst (ep_replies s)) = {..<ep_arrived s}"
proof -
  have ok: "endpoint_ok capacity s" using assms new_endpoint_ok by (rule flights.steps_inv)
  then have once: "mset (waiting s @ map fst (ep_replies s)) = mset [0..<ep_arrived s]"
    by (simp add: endpoint_ok_def)
  have "distinct (waiting s @ map fst (ep_replies s))"
    using mset_eq_imp_distinct_iff [OF once] by simp
  moreover have "set (waiting s @ map fst (ep_replies s)) = {..<ep_arrived s}"
    using mset_eq_setD [OF once] by (simp add: atLeast0LessThan)
  ultimately show ?thesis using ok by (simp add: endpoint_ok_def)
qed

text \<open>
  C23. No request waits for ever: from every reachable state, once no more requests arrive, the flights
  can only take a bounded number of steps, none of them is stuck, and when they are done every request
  has been answered, whichever steps were taken in which order.
\<close>

theorem image_requests_answered:
  assumes "(endpoint_step e selfHost capacity)\<^sup>*\<^sup>* (new_endpoint h) s" and "0 < capacity"
  shows "(\<forall>n s'. (flight_step e selfHost capacity ^^ n) s s' \<longrightarrow> n \<le> work_left s) \<and>
    (\<forall>s'. (flight_step e selfHost capacity)\<^sup>*\<^sup>* s s' \<longrightarrow>
       (\<exists>s''. flight_step e selfHost capacity s' s'') \<or>
       waiting s' = [] \<and> set (map fst (ep_replies s')) = {..<ep_arrived s})"
proof (intro conjI allI impI)
  have ok: "endpoint_ok capacity s" using assms(1) new_endpoint_ok by (rule flights.steps_inv)
  have run: "endpoint_ok capacity s' \<and> n + work_left s' \<le> work_left s"
    if "(flight_step e selfHost capacity ^^ n) s s'" for n s'
    using that
  proof (induction n arbitrary: s')
    case 0
    then show ?case using ok by simp
  next
    case (Suc n)
    then obtain y where y: "(flight_step e selfHost capacity ^^ n) s y" "flight_step e selfHost capacity y s'"
      by auto
    then show ?case using Suc.IH [OF y(1)] flight_step_work [OF y(2)] flight_step_ok [OF y(2)] by auto
  qed
  show "n \<le> work_left s" if "(flight_step e selfHost capacity ^^ n) s s'" for n s'
    using run [OF that] by simp
  fix s'
  assume steps: "(flight_step e selfHost capacity)\<^sup>*\<^sup>* s s'"
  then have ok': "endpoint_ok capacity s'"
    using run by (metis rtranclp_imp_relpowp)
  have arrived: "ep_arrived s' = ep_arrived s"
    using steps by (induction rule: rtranclp_induct) (simp_all add: flight_step_frame)
  show "(\<exists>s''. flight_step e selfHost capacity s' s'') \<or>
       waiting s' = [] \<and> set (map fst (ep_replies s')) = {..<ep_arrived s}"
  proof (cases "waiting s' = []")
    case True
    then have "mset (map fst (ep_replies s')) = mset [0..<ep_arrived s]"
      using ok' arrived by (simp add: endpoint_ok_def)
    from mset_eq_setD [OF this] True show ?thesis by (simp add: atLeast0LessThan)
  next
    case False
    then show ?thesis using flight_progress [OF ok' assms(2)] by blast
  qed
qed

definition busy_endpoint :: endpoint where
  "busy_endpoint = img_arrive (sample_img_env NoReply) (\<lambda>_. False) int sample_img_request
     (img_arrive (sample_img_env NoReply) (\<lambda>_. False) int sample_img_request (new_endpoint sample_images))"

lemma busy_endpoint_reachable:
  "(endpoint_step (sample_img_env NoReply) (\<lambda>_. False) 2)\<^sup>*\<^sup>* (new_endpoint sample_images) busy_endpoint"
  unfolding busy_endpoint_def
  by (rule rtranclp.rtrancl_into_rtrancl [OF r_into_rtranclp]) (rule endpoint_step.arrival)+

theorem image_flights_invariant_witness:
  "set (waiting busy_endpoint @ map fst (ep_replies busy_endpoint)) = {..<ep_arrived busy_endpoint} \<and>
   ep_arrived busy_endpoint = 2"
  using image_flights_invariant [OF busy_endpoint_reachable]
  by (simp add: busy_endpoint_def img_arrive_def new_endpoint_def Let_def split: sum.split)

theorem image_requests_answered_witness:
  "(\<exists>s'. flight_step (sample_img_env NoReply) (\<lambda>_. False) 2 busy_endpoint s') \<or>
   set (map fst (ep_replies busy_endpoint)) = {..<ep_arrived busy_endpoint}"
  using image_requests_answered [OF busy_endpoint_reachable pos2, THEN conjunct2, rule_format,
      OF rtranclp.rtrancl_refl] by blast

section \<open>A request alone\<close>

lemma flight_first:
  assumes "flight_step e selfHost capacity x y" and "(endpoint_step e selfHost capacity)\<^sup>*\<^sup>* y z"
  shows "(endpoint_step e selfHost capacity)\<^sup>*\<^sup>* x z"
  using endpoint_step.flight [OF assms(1)] assms(2) by (rule converse_rtranclp_into_rtranclp)

text \<open>The state \<open>s\<close> after its only flight has been answered.\<close>

definition landed :: "missed list \<Rightarrow> images \<Rightarrow> (nat \<times> writer \<times> bool) list \<Rightarrow> endpoint \<Rightarrow> bool" where
  "landed ms h replies s \<longleftrightarrow> ep_missed s = ms \<and> ep_calls s = [] \<and> ep_images s = h \<and> ep_replies s = replies"

lemma lone_land:
  assumes "ep_calls s = [c]" and "ca_waiters c = [(i, r)]"
    and "img_answer e clk new_writer r (ca_key c) (f, h) = (h', w, panic)"
  shows "landed (ep_missed s) h' (ep_replies s @ [(i, w, panic)]) (img_land e clk c f h s)"
  using assms by (simp add: img_land_def landed_def)

lemma lone_transform:
  assumes "ep_calls s = [c]" and "ca_waiters c = [(i, r)]" and "ca_phase c = Fetched data"
    and "ep_slots s = 0" and "0 < capacity"
    and "img_answer e clk new_writer r (ca_key c)
      (img_transform e (clk 1) (ca_key c) data (ca_params c) (ep_images s)) = (h', w, panic)"
  shows "\<exists>s'. (endpoint_step e selfHost capacity)\<^sup>*\<^sup>* s s' \<and>
    landed (ep_missed s) h' (ep_replies s @ [(i, w, panic)]) s'"
proof -
  let ?c = "c\<lparr>ca_phase := Transforming data\<rparr>"
  let ?s1 = "s\<lparr>ep_slots := 1, ep_calls := [?c]\<rparr>"
  have "img_acquire c data s = ?s1" using assms(1,4) by (simp add: img_acquire_def set_phase_def)
  then have take: "flight_step e selfHost capacity s ?s1"
    using flight_step.take_slot [of c s data capacity e selfHost] assms(1,3,4,5) by simp
  have finish: "flight_step e selfHost capacity ?s1 (img_finish e clk ?c data ?s1)"
    by (rule flight_step.transformed) simp_all
  obtain f h where t: "img_transform e (clk 1) (ca_key c) data (ca_params c) (ep_images s) = (f, h)" by fastforce
  have "img_finish e clk ?c data ?s1 = img_land e clk ?c f h (?s1\<lparr>ep_slots := ep_slots ?s1 - 1\<rparr>)"
    using t by (simp add: img_finish_def)
  moreover have "landed (ep_missed s) h' (ep_replies s @ [(i, w, panic)])
      (img_land e clk ?c f h (?s1\<lparr>ep_slots := ep_slots ?s1 - 1\<rparr>))"
    using lone_land [of "?s1\<lparr>ep_slots := ep_slots ?s1 - 1\<rparr>" ?c i r e clk f h h' w panic] assms(2,6) t by simp
  ultimately show ?thesis
    using flight_first [OF take flight_first [OF finish rtranclp.rtrancl_refl]] by (intro exI conjI) simp_all
qed

lemma lone_flight:
  assumes "ep_missed s = ms" and "ep_calls s = []" and "ep_slots s = 0" and "0 < capacity"
    and "m = \<lparr>mi_id = i, mi_request = r, mi_key = key, mi_src = src, mi_params = params\<rparr>"
    and "img_answer e clk new_writer r key (img_optimize e selfHost (clk 1) key src params (ep_images s)) = (h', w, panic)"
  shows "\<exists>s'. (endpoint_step e selfHost capacity)\<^sup>*\<^sup>* (s\<lparr>ep_missed := m # ms\<rparr>) s' \<and>
    landed ms h' (ep_replies s @ [(i, w, panic)]) s'"
proof -
  define c where "c ph = \<lparr>ca_key = key, ca_src = src, ca_params = params, ca_phase = ph, ca_waiters = [(i, r)]\<rparr>" for ph
  let ?s0 = "s\<lparr>ep_missed := m # ms\<rparr>" and ?s1 = "s\<lparr>ep_calls := [c Fetching]\<rparr>"
  have "img_join m ?s0 = ?s1" using assms(1,2,5) by (simp add: img_join_def c_def)
  then have joins: "flight_step e selfHost capacity ?s0 ?s1"
    using flight_step.joins [of m ?s0 e selfHost capacity] by simp
  have fetch: "flight_step e selfHost capacity ?s1 (img_fetched e selfHost clk (c Fetching) ?s1)"
    by (rule flight_step.fetch_ends) (simp_all add: c_def)
  obtain res net where f: "img_fetch (ie_world e) selfHost (ie_resolveText e) src (im_net (ep_images s)) = (res, net)"
    by fastforce
  let ?h = "(ep_images s)\<lparr>im_net := net\<rparr>"
  have "\<exists>s'. (endpoint_step e selfHost capacity)\<^sup>*\<^sup>* (img_fetched e selfHost clk (c Fetching) ?s1) s' \<and>
      landed ms h' (ep_replies s @ [(i, w, panic)]) s'"
  proof (cases res)
    case (Inl err)
    have "img_fetched e selfHost clk (c Fetching) ?s1 = img_land e clk (c Fetching) (FlightError err) ?h ?s1"
      using f Inl by (simp add: img_fetched_def c_def Let_def)
    moreover have "img_answer e clk new_writer r key (FlightError err, ?h) = (h', w, panic)"
      using assms(6) f Inl by (simp add: img_optimize_stages)
    ultimately have "landed ms h' (ep_replies s @ [(i, w, panic)]) (img_fetched e selfHost clk (c Fetching) ?s1)"
      using lone_land [of ?s1 "c Fetching" i r e clk "FlightError err" ?h h' w panic] assms(1) by (simp add: c_def)
    then show ?thesis by blast
  next
    case (Inr data)
    let ?s2 = "s\<lparr>ep_images := ?h, ep_calls := [c (Fetched data)]\<rparr>"
    have "img_fetched e selfHost clk (c Fetching) ?s1 = ?s2"
      using f Inr by (simp add: img_fetched_def set_phase_def c_def Let_def)
    moreover have "img_answer e clk new_writer r key (img_transform e (clk 1) key data params ?h) = (h', w, panic)"
      using assms(6) f Inr by (simp add: img_optimize_stages)
    ultimately show ?thesis
      using lone_transform [of ?s2 "c (Fetched data)" i r data capacity e clk h' w panic selfHost] assms(1,3,4)
      by (simp add: c_def)
  qed
  then show ?thesis using flight_first [OF joins] flight_first [OF fetch] by blast
qed



section \<open>Requests that share a flight\<close>

lemma img_answer_reply: "snd (img_answer e clk w r key (f, h)) = snd (img_answer e clk w r key (f, h'))"
  by (simp add: img_answer_def split: flight.split img_error.split)

lemma answer_all_replies:
  "snd (answer_all e clk key f qs h) = map (\<lambda>(i, r). (i, snd (img_answer e clk new_writer r key (f, h)))) qs"
proof (induction e clk key f qs h rule: answer_all.induct)
  case (2 e clk key f i r qs h)
  obtain h1 w panic where a: "img_answer e clk new_writer r key (f, h) = (h1, w, panic)" by (cases "img_answer e clk new_writer r key (f, h)")
  then have "snd (answer_all e clk key f qs h1) = map (\<lambda>(i, r). (i, snd (img_answer e clk new_writer r key (f, h)))) qs"
    using 2 [OF a [symmetric] refl refl] img_answer_reply [of e clk new_writer _ key f h1 h]
    by simp
  then show ?case using a by (simp add: case_prod_unfold Let_def)
qed simp

lemma img_land_replies:
  "ep_replies (img_land e clk c f h s) = ep_replies s @
     map (\<lambda>(i, r). (i, snd (img_answer e clk new_writer r (ca_key c) (f, h)))) (ca_waiters c)"
  using answer_all_replies [of e clk "ca_key c" f "ca_waiters c" h]
  by (simp add: img_land_def case_prod_unfold Let_def)

lemma answer_all_cache: "im_cache (fst (answer_all e clk key f qs h)) = im_cache h"
proof (induction e clk key f qs h rule: answer_all.induct)
  case (2 e clk key f i r qs h)
  then show ?case
    by (auto simp: img_answer_def Let_def split: prod.split flight.splits img_error.splits)
qed simp

text \<open>
  A flight runs with the context of the request that started it. When that client goes away while
  the flight waits for a slot, every request that shares the flight is answered 502 and nothing is
  stored, although the image was fetched and the other clients are still there.
\<close>

theorem leader_gone_fails_all:
  assumes "c \<in> set (ep_calls s)" and "ca_phase c = Fetched data"
  shows "\<exists>s'. flight_step e selfHost capacity s s' \<and> ep_calls s' = remove1 c (ep_calls s) \<and>
    im_cache (ep_images s') = im_cache (ep_images s) \<and>
    (\<forall>(i, r) \<in> set (ca_waiters c). \<exists>w. (i, w, False) \<in> set (ep_replies s') \<and> w_status w = 502)"
proof (intro exI conjI)
  let ?s' = "img_land e clk c (FlightError OtherError) (ep_images s) s"
  show "flight_step e selfHost capacity s ?s'"
    by (rule flight_step.context_ends [OF assms(1)]) (simp add: assms(2) context_error_def)
  show "ep_calls ?s' = remove1 c (ep_calls s)" by simp
  show "im_cache (ep_images ?s') = im_cache (ep_images s)"
    using answer_all_cache [of e clk "ca_key c" "FlightError OtherError" "ca_waiters c" "ep_images s"]
    by (simp add: img_land_def case_prod_unfold Let_def)
  show "\<forall>(i, r) \<in> set (ca_waiters c). \<exists>w. (i, w, False) \<in> set (ep_replies ?s') \<and> w_status w = 502"
    by (force simp: img_land_replies img_answer_def img_Error_def w_WriteHeader_def w_Write_def)
qed

definition sample_call :: call where
  "sample_call = \<lparr>ca_key = ''k'', ca_src = sample_url, ca_params = Defaults, ca_phase = Fetched ''GIF'',
     ca_waiters = [(0, sample_img_request), (1, sample_img_request)]\<rparr>"

theorem leader_gone_fails_all_witness:
  "\<exists>s' w. flight_step (sample_img_env NoReply) (\<lambda>_. False) 2
      ((new_endpoint sample_images)\<lparr>ep_calls := [sample_call]\<rparr>) s' \<and>
    (1, w, False) \<in> set (ep_replies s') \<and> w_status w = 502"
proof -
  have "sample_call \<in> set (ep_calls ((new_endpoint sample_images)\<lparr>ep_calls := [sample_call]\<rparr>))"
    "ca_phase sample_call = Fetched ''GIF''" by (simp_all add: sample_call_def)
  from leader_gone_fails_all [OF this, of "sample_img_env NoReply" "\<lambda>_. False" 2]
  have "\<exists>s'. flight_step (sample_img_env NoReply) (\<lambda>_. False) 2
      ((new_endpoint sample_images)\<lparr>ep_calls := [sample_call]\<rparr>) s' \<and>
    (\<forall>(i, r) \<in> set (ca_waiters sample_call). \<exists>w. (i, w, False) \<in> set (ep_replies s') \<and> w_status w = 502)" by blast
  then show ?thesis by (auto simp: sample_call_def)
qed

text \<open>
  The cache is not consulted again inside the flight: a request whose lookup missed just before
  another one's flight landed, and that calls \<open>Do\<close> just after, fetches and transforms a rendition
  that is already in the cache.
\<close>

theorem rendition_fetched_again:
  assumes "img_begin e selfHost clk new_writer r h = Inr (h1, key, src, params)"
    and "img_begin e selfHost clk' new_writer r' h1 = Inr (h2, key, src, params)"
    and "img_optimize e selfHost (clk 1) key src params h2 = (FlightObject obj, h3)" and "0 < capacity"
  shows "\<exists>s c. (endpoint_step e selfHost capacity)\<^sup>*\<^sup>* (new_endpoint h) s \<and>
    im_cache (ep_images s) = im_cache h3 \<and> map fst (ep_replies s) = [0] \<and>
    ep_calls s = [c] \<and> ca_key c = key \<and> ca_phase c = Fetching \<and> ca_waiters c = [(1, r')]"
proof -
  define m0 m1 where "m0 = \<lparr>mi_id = 0, mi_request = r, mi_key = key, mi_src = src, mi_params = params\<rparr>"
    and "m1 = \<lparr>mi_id = 1, mi_request = r', mi_key = key, mi_src = src, mi_params = params\<rparr>"
  let ?s1 = "img_arrive e selfHost clk r (new_endpoint h)" and ?s2 = "(new_endpoint h2)\<lparr>ep_arrived := 2, ep_missed := [m1]\<rparr>"
  have arrive: "img_arrive e selfHost clk' r' ?s1 = ?s2\<lparr>ep_missed := m0 # [m1]\<rparr>"
    using assms(1,2) by (simp add: img_arrive_def new_endpoint_def m0_def m1_def Let_def)
  obtain h' w panic where ans: "img_answer e clk new_writer r key (FlightObject obj, h3) = (h', w, panic)"
    by (cases "img_answer e clk new_writer r key (FlightObject obj, h3)")
  then have "im_cache h' = im_cache h3" by (auto simp: img_answer_def)
  moreover have "img_answer e clk new_writer r key (img_optimize e selfHost (clk 1) key src params (ep_images ?s2)) = (h', w, panic)"
    using assms(3) ans by (simp add: new_endpoint_def)
  from lone_flight [of ?s2 "[m1]", OF _ _ _ assms(4) m0_def this] obtain s where
    s: "(endpoint_step e selfHost capacity)\<^sup>*\<^sup>* (?s2\<lparr>ep_missed := m0 # [m1]\<rparr>) s" "ep_missed s = [m1]"
      "ep_calls s = []" "ep_images s = h'" "ep_replies s = [(0, w, panic)]"
    by (auto simp: new_endpoint_def landed_def)
  moreover have "endpoint_step e selfHost capacity s (img_join m1 s)"
    using s(2) by (intro endpoint_step.flight flight_step.joins) simp
  moreover have "endpoint_step e selfHost capacity (new_endpoint h) ?s1"
    "endpoint_step e selfHost capacity ?s1 (?s2\<lparr>ep_missed := m0 # [m1]\<rparr>)"
    unfolding arrive [symmetric] by (rule endpoint_step.arrival)+
  ultimately have "(endpoint_step e selfHost capacity)\<^sup>*\<^sup>* (new_endpoint h) (img_join m1 s)"
    by (meson converse_rtranclp_into_rtranclp rtranclp.rtrancl_into_rtrancl)
  then show ?thesis
    using s \<open>im_cache h' = im_cache h3\<close>
    by (intro exI [of _ "img_join m1 s"]) (simp add: img_join_def m1_def)
qed

end
