(* ===== verification/Server.thy ===== *)
theory Server
  imports Proxy ImgCdn Config Memory Bunny
begin

text \<open>
  \<open>internal/server/server.go\<close> and \<open>internal/web/web.go\<close>: assembly of a node, the certificate gate,
  routing, the node's own pages and the recovery middleware. What the views render to
  (\<open>Views\<close>), the embedded assets, \<open>http.ServeContent\<close> and the JSON encoder are parameters; the TLS
  set-up and the listener are in \<open>ServerRun\<close>; log lines are left out. The clock is numbered within a request: 0 to 2 for the
  proxy and the image endpoint, 3 and 4 for a first sight, 5 for the age of the snapshot, 6 for a
  refresh, 7 for the statistics.
\<close>

section \<open>Parameters and state\<close>

record stats_report =
  sr_uptime :: int
  sr_domains :: nat
  sr_cache :: stats
  sr_metrics :: metrics_snapshot

record server_env =
  se_x :: externals
  se_proxy :: env
  se_img :: img_env
  se_net :: "nat \<Rightarrow> network"
  se_landing :: "string \<Rightarrow> string list \<Rightarrow> bytes"
  se_setup :: "string \<Rightarrow> string \<Rightarrow> string \<Rightarrow> bytes"
  se_setupError :: "string \<Rightarrow> string \<Rightarrow> string \<Rightarrow> bytes"
  se_favicon :: bytes
  se_touchIcon :: bytes
  se_mascot :: bytes
  se_serveContent :: "request \<Rightarrow> bytes \<Rightarrow> writer \<Rightarrow> writer"
  se_json :: "stats_report \<Rightarrow> bytes"

text \<open>The cache and the metrics of \<open>sv_proxy\<close> are shared with the image endpoint.\<close>

record server =
  sv_cfg :: config
  sv_registry :: registry
  sv_guard :: guard
  sv_guardDisk :: disk
  sv_proxy :: proxy
  sv_net :: fetcher
  sv_started :: time

definition Server_New ::
  "externals \<Rightarrow> (bytes \<Rightarrow> events option) \<Rightarrow> (bytes \<Rightarrow> stored list option) \<Rightarrow> disk \<Rightarrow> read_result \<Rightarrow>
     read_result \<Rightarrow> meminfo \<Rightarrow> config \<Rightarrow> time \<Rightarrow> time \<Rightarrow> new_error + server" where
  "Server_New x unmarshalEvents unmarshalDomains d guardFile registryFile mem cfg now0 now =
     (let rs = Resolver_New (cfg_Resolver cfg) in
      case Guard_New unmarshalEvents guardFile (config_limits cfg) now0 of
        Inl err \<Rightarrow> Inl err
      | Inr guard \<Rightarrow>
          (case NewRegistry x unmarshalDomains registryFile rs (DefaultSettings (cfg_CacheMaxObjectBytes cfg))
                  (cfg_RefreshInterval cfg) (cfg_PendingRefreshInterval cfg) of
             Inl err \<Rightarrow> Inl err
           | Inr registry \<Rightarrow>
               (let budget = (if cfg_CacheMaxBytes cfg = 0 then AutoBudget mem else cfg_CacheMaxBytes cfg)
                in Inr \<lparr>sv_cfg = cfg, sv_registry = registry, sv_guard = guard, sv_guardDisk = d,
                        sv_proxy = Proxy_New (Cache_New budget),
                        sv_net = \<lparr>ft_step = 0, ft_dialed = [], ft_idle = []\<rparr>, sv_started = now\<rparr>)))"

section \<open>Host names\<close>

definition hostOnly :: "string \<Rightarrow> string" where
  "hostOnly hostport =
     (let host = (case SplitHostPort hostport of Inr (host, _) \<Rightarrow> host | Inl _ \<Rightarrow> hostport)
      in toLower (trimSuffix host ''.''))"

definition isSelfHost :: "config \<Rightarrow> string \<Rightarrow> bool" where
  "isSelfHost cfg host =
     (if host = cfg_Hostname cfg \<and> host \<noteq> [] then True
      else case ParseIP host of
             Some ip \<Rightarrow> list_ex (\<lambda>own. ip = own) (cfg_PublicIPs cfg)
           | None \<Rightarrow> False)"

section \<open>The certificate gate\<close>

datatype issuance_error =
    InvalidHost string
  | VerifyingHost string string
  | NotThisNode string
  | OverBudget limit_error

definition decideIssuance ::
  "externals \<Rightarrow> network \<Rightarrow> string \<Rightarrow> time \<Rightarrow> time \<Rightarrow> server \<Rightarrow> server \<times> issuance_error option" where
  "decideIssuance x net name0 now0 now sv =
     (let name = toLower name0;
          ips = cfg_PublicIPs (sv_cfg sv);
          check = (case Check (sv_guard sv) (Apex (x_psl x) name) now0 now of
                     (g, None) \<Rightarrow> (sv\<lparr>sv_guard := g\<rparr>, None)
                   | (g, Some err) \<Rightarrow> (sv\<lparr>sv_guard := g\<rparr>, Some (OverBudget err)))
      in if \<not> ValidHost name then (sv, Some (InvalidHost name))
         else if ips \<noteq> [] then
           (case PointsTo net (rg_resolver (sv_registry sv)) name ips of
              Inl err \<Rightarrow> (sv, Some (VerifyingHost name err))
            | Inr ok \<Rightarrow> if \<not> ok then (sv, Some (NotThisNode name)) else check)
         else check)"

text \<open>The ACME directory \<open>setupTLS\<close> selects; the two of Let's Encrypt are parameters.\<close>

definition acme_directory :: "string \<Rightarrow> string \<Rightarrow> config \<Rightarrow> string" where
  "acme_directory production staging cfg =
     (if cfg_ACMECA cfg = [] then if cfg_ACMEStaging cfg then staging else production
      else cfg_ACMECA cfg)"

text \<open>The fields of a certificate event that are read; \<open>None\<close> when absent or of another type.\<close>

record cert_event =
  ev_name :: string
  ev_renewal :: "bool option"
  ev_identifier :: "string option"

definition onCertEvent ::
  "externals \<Rightarrow> (events \<Rightarrow> bytes option) \<Rightarrow> io_result \<Rightarrow> cert_event \<Rightarrow> time \<Rightarrow> server \<Rightarrow> server" where
  "onCertEvent x marshal io ev now sv =
     (if ev_name ev = ''cert_obtained'' then
        if ev_renewal ev = Some True then sv
        else case ev_identifier ev of
               None \<Rightarrow> sv
             | Some name \<Rightarrow>
                 if name = [] then sv
                 else
                   (let (g, d) = Record marshal io (sv_guard sv) (sv_guardDisk sv) (Apex (x_psl x) name) now
                    in sv\<lparr>sv_guard := g, sv_guardDisk := d\<rparr>)
      else sv)"

section \<open>Pages\<close>

definition writeHTML :: "int \<Rightarrow> writer \<Rightarrow> writer" where
  "writeHTML status w =
     w_WriteHeader status
       (w\<lparr>w_header := header_set (header_set (w_header w) ''Content-Type'' ''text/html; charset=utf-8'')
                      ''Cache-Control'' ''no-store''\<rparr>)"

definition RenderLanding :: "server_env \<Rightarrow> writer \<Rightarrow> string \<Rightarrow> ip list \<Rightarrow> writer" where
  "RenderLanding e w hostname ips = w_Write (se_landing e hostname (map ip_String ips)) (writeHTML 200 w)"

definition RenderSetup :: "server_env \<Rightarrow> writer \<Rightarrow> snapshot \<Rightarrow> writer" where
  "RenderSetup e w snap =
     w_Write (se_setup e (sn_host snap) (OriginRecordPrefix @ sn_host snap) (ConfigRecordPrefix @ sn_host snap))
       (writeHTML 200 w)"

definition RenderSetupError :: "server_env \<Rightarrow> writer \<Rightarrow> snapshot \<Rightarrow> writer" where
  "RenderSetupError e w snap =
     w_Write (se_setupError e (sn_host snap) (OriginRecordPrefix @ sn_host snap) (sn_lastError snap))
       (writeHTML 503 w)"

definition serveAsset :: "server_env \<Rightarrow> writer \<Rightarrow> request \<Rightarrow> string \<Rightarrow> bytes \<Rightarrow> writer" where
  "serveAsset e w r contentType data =
     se_serveContent e r data
       (w\<lparr>w_header := header_set (header_set (w_header w) ''Content-Type'' contentType)
                      ''Cache-Control'' ''public, max-age=604800, immutable''\<rparr>)"

definition serveStats :: "server_env \<Rightarrow> time \<Rightarrow> writer \<Rightarrow> server \<Rightarrow> writer" where
  "serveStats e now w sv =
     w_Write
       (se_json e
          \<lparr>sr_uptime = duration_seconds (time_sub now (sv_started sv)),
           sr_domains = Registry_Count (sv_registry sv),
           sr_cache = Cache_Stats (px_cache (sv_proxy sv)),
           sr_metrics = Metrics_Snap (px_metrics (sv_proxy sv))\<rparr>)
       (w\<lparr>w_header := header_set (w_header w) ''Content-Type'' ''application/json''\<rparr>)"

definition write_Error :: "string \<Rightarrow> int \<Rightarrow> writer \<Rightarrow> writer" where
  "write_Error msg code w = sink_writer (Direct (http_Error msg code (ClientWriter w)))"

section \<open>Routing\<close>

text \<open>A handler returns the state, the client's writer and whether it panicked.\<close>

definition serve_images ::
  "server_env \<Rightarrow> (nat \<Rightarrow> time) \<Rightarrow> writer \<Rightarrow> request \<Rightarrow> server \<Rightarrow> server \<times> writer \<times> bool" where
  "serve_images e clk w r sv =
     (let p = sv_proxy sv;
          (h, w', panic) = img_ServeHTTP (se_img e) (isSelfHost (sv_cfg sv)) clk w r
            \<lparr>im_cache = px_cache p, im_metrics = px_metrics p, im_net = sv_net sv\<rparr>
      in (sv\<lparr>sv_proxy := p\<lparr>px_cache := im_cache h, px_metrics := im_metrics h\<rparr>, sv_net := im_net h\<rparr>,
          w', panic))"

definition serve_proxy ::
  "server_env \<Rightarrow> (nat \<Rightarrow> time) \<Rightarrow> writer \<Rightarrow> request \<Rightarrow> snapshot \<Rightarrow> server \<Rightarrow> server \<times> writer \<times> bool" where
  "serve_proxy e clk w r snap sv =
     (let (p, w', panic) = Proxy_ServeHTTP (se_proxy e) clk w r snap (sv_proxy sv)
      in (sv\<lparr>sv_proxy := p\<rparr>, w', panic))"

definition serveNode ::
  "server_env \<Rightarrow> (nat \<Rightarrow> time) \<Rightarrow> writer \<Rightarrow> request \<Rightarrow> server \<Rightarrow> server \<times> writer \<times> bool" where
  "serveNode e clk w r sv =
     (if hasPrefix (rq_path r) PathPrefix then serve_images e clk w r sv
      else if rq_path r = ''/'' \<or> rq_path r = ''/index.html'' then
        (sv, RenderLanding e w (cfg_Hostname (sv_cfg sv)) (cfg_PublicIPs (sv_cfg sv)), False)
      else if rq_path r = ''/favicon.ico'' then
        (sv, serveAsset e w r ''image/x-icon'' (se_favicon e), False)
      else if rq_path r = ''/apple-touch-icon.png'' then
        (sv, serveAsset e w r ''image/png'' (se_touchIcon e), False)
      else if rq_path r = ''/assets/mascot.webp'' then
        (sv, serveAsset e w r ''image/webp'' (se_mascot e), False)
      else if rq_path r = ''/hubcdn/health'' then
        (sv, w_Write (''ok'' @ [CHR 0x0A])
           (w\<lparr>w_header := header_set (w_header w) ''Content-Type'' ''text/plain; charset=utf-8''\<rparr>), False)
      else if rq_path r = ''/hubcdn/stats'' then (sv, serveStats e (clk 7) w sv, False)
      else (sv, write_Error ''404 page not found'' 404 w, False))"

text \<open>The snapshot of a host: looked up, or observed for the first time.\<close>

definition find_domain ::
  "server_env \<Rightarrow> (nat \<Rightarrow> time) \<Rightarrow> string \<Rightarrow> server \<Rightarrow> server \<times> snapshot" where
  "find_domain e clk host sv =
     (case Registry_Lookup (sv_registry sv) host of
        Some snap \<Rightarrow> (sv, snap)
      | None \<Rightarrow>
          (let (reg, snap) = Registry_Observe (se_x e) (se_net e 0) (sv_registry sv) host (clk 3) (clk 4)
           in (sv\<lparr>sv_registry := reg\<rparr>, snap)))"

definition serve_pending ::
  "server_env \<Rightarrow> (nat \<Rightarrow> time) \<Rightarrow> writer \<Rightarrow> request \<Rightarrow> string \<Rightarrow> snapshot \<Rightarrow> server \<Rightarrow> server \<times> writer \<times> bool"
where
  "serve_pending e clk w r host snap sv =
     (if time_sub (clk 5) (sn_lastRefreshed snap) > 5 * second then
        let (sv1, snap1) =
              (case Registry_Refresh (se_x e) (se_net e 1) (sv_registry sv) host (clk 6) of
                 Some (reg, updated) \<Rightarrow> (sv\<lparr>sv_registry := reg\<rparr>, updated)
               | None \<Rightarrow> (sv, snap))
        in if sn_status snap1 = StatusActive then serve_proxy e clk w r snap1 sv1
           else (sv1, RenderSetup e w snap1, False)
      else (sv, RenderSetup e w snap, False))"

definition route ::
  "server_env \<Rightarrow> (nat \<Rightarrow> time) \<Rightarrow> writer \<Rightarrow> request \<Rightarrow> server \<Rightarrow> server \<times> writer \<times> bool" where
  "route e clk w r sv0 =
     (let sv = sv0\<lparr>sv_proxy := bump (\<lambda>m. m\<lparr>m_TotalRequests := m_TotalRequests m + 1\<rparr>) (sv_proxy sv0)\<rparr>;
          host = hostOnly (rq_host r)
      in if host = [] \<or> host = cfg_Hostname (sv_cfg sv) \<or> \<not> ValidHost host then serveNode e clk w r sv
         else
           let (sv1, snap) = find_domain e clk host sv in
           if sn_status snap = StatusActive then serve_proxy e clk w r snap sv1
           else if sn_status snap = StatusError then
             (if sn_origin snap \<noteq> None then serve_proxy e clk w r snap sv1
              else (sv1, RenderSetupError e w snap, False))
           else serve_pending e clk w r host snap sv1)"

text \<open>A panic of the handler, whatever its value, becomes a plain 500.\<close>

definition recoveryMiddleware :: "server \<times> writer \<times> bool \<Rightarrow> server \<times> writer" where
  "recoveryMiddleware = (\<lambda>(sv, w, panic).
     if panic then (sv, write_Error ''Internal Server Error'' 500 w) else (sv, w))"

definition handle ::
  "server_env \<Rightarrow> (nat \<Rightarrow> time) \<Rightarrow> request \<Rightarrow> server \<Rightarrow> server \<times> writer" where
  "handle e clk r sv = recoveryMiddleware (route e clk new_writer r sv)"

section \<open>The background loops\<close>

text \<open>What changes a running node: requests, and the loops \<open>Run\<close> starts.\<close>

inductive server_step :: "server_env \<Rightarrow> server \<Rightarrow> server \<Rightarrow> bool" for e :: server_env where
  request: "handle e clk r sv = (sv', w) \<Longrightarrow> server_step e sv sv'"
| revalidated: "j \<in> set (px_jobs (sv_proxy sv)) \<Longrightarrow> run_job (se_proxy e) clk j (sv_proxy sv) = Some p \<Longrightarrow>
    server_step e sv (sv\<lparr>sv_proxy := p\<rparr>)"
| registry_tick: "run_step (se_x e) marshal net now io (sv_registry sv, d) = (reg, d') \<Longrightarrow>
    server_step e sv (sv\<lparr>sv_registry := reg\<rparr>)"
| memory_tick: "server_step e sv
    (sv\<lparr>sv_proxy := (sv_proxy sv)\<lparr>px_cache := Watchdog_tick budget headroom (px_cache (sv_proxy sv)) mem\<rparr>\<rparr>)"
| certificate_asked: "decideIssuance (se_x e) net name now0 now sv = (sv', err) \<Longrightarrow> server_step e sv sv'"
| certificate_event: "server_step e sv (onCertEvent (se_x e) marshal io ev now sv)"

inductive_cases server_stepE: "server_step e sv sv'"

end
