(* ===== verification/ServerInv.thy ===== *)
theory ServerInv
  imports Server ProxyInv RegistryInv CacheRuns
begin

text \<open>
  The invariant of a running node, put together from the invariants of its parts, and that every
  step keeps it: requests of any kind, background revalidations, registry and memory ticks and
  certificate traffic.
\<close>

section \<open>Images in the shared cache\<close>

text \<open>
  A rendition satisfies what the proxy promises of every cached object: its lifetime is what the
  caching policy reads from the \<open>Cache-Control\<close> it carries.
\<close>

lemma img_object_storable: "storable pe (img_object res now)"
proof -
  let ?h = "[(''Content-Type'', [res_ContentType res]),
             (''Cache-Control'', [''public, max-age=604800, immutable''])]"
  let ?p = "\<lparr>p_mode = ModeStandard, p_defaultTTL = 0, p_staleFor = 0,
              p_maxObjectBytes = int (length (res_Data res))\<rparr>"
  have cc: "cc_noStore (parseCacheControl ''public, max-age=604800, immutable'') = False"
    "cc_private (parseCacheControl ''public, max-age=604800, immutable'') = False"
    "cc_noCache (parseCacheControl ''public, max-age=604800, immutable'') = False"
    "cc_maxAge (parseCacheControl ''public, max-age=604800, immutable'') = 604800"
    "cc_sMaxAge (parseCacheControl ''public, max-age=604800, immutable'') = -1"
    by code_simp+
  have get: "header_get ?h ''Set-Cookie'' = []" "header_get ?h ''Vary'' = []"
    "header_get ?h ''Cache-Control'' = ''public, max-age=604800, immutable''"
    by (simp_all add: header_get_def)
  have vary: "contains (toLower []) ''*'' = False" by (simp add: toLower_def)
  have wrap: "wrap64 (604800 * second) = retention7"
    by (subst wrap64_id) (simp_all add: int64_def retention7_def duration_defs)
  have pos: "0 < retention7" "capTTL retention7 = retention7"
    by (simp_all add: retention7_def duration_defs capTTL_def maxTTL_def)
  have ttl: "ResponseTTL (e_parseTime pe) t ?p path 200 ?h = (retention7, True)" for t path
    unfolding ResponseTTL_def get cc Let_def vary
    by (simp add: wrap pos cacheableStatus_def)
  have strip: "strip_hop ?h = ?h"
    by (simp add: strip_hop_def hopHeaders_def header_del_def)
  show ?thesis
    unfolding storable_def
    by (rule exI [of _ ?p], intro exI conjI) (use ttl strip in \<open>auto simp: img_object_def\<close>)
qed

definition objects_ok :: "env \<Rightarrow> cache \<Rightarrow> bool" where
  "objects_ok pe c \<longleftrightarrow> store_ok pe (Proxy_New c)"

lemma objects_ok_proxy: "store_ok pe p \<longleftrightarrow> objects_ok pe (px_cache p)"
  by (simp add: objects_ok_def store_ok_def Proxy_New_def)

lemma objects_ok_Get:
  "objects_ok pe c \<Longrightarrow> Cache_Get c key now = Some (c', x, f) \<Longrightarrow> objects_ok pe c'"
  using store_ok_Get [of pe "Proxy_New c" key now c' x f]
  by (simp add: objects_ok_def Proxy_New_def)

lemma objects_ok_Set:
  "objects_ok pe c \<Longrightarrow> storable pe obj \<Longrightarrow> Cache_Set c key obj = Some c' \<Longrightarrow> objects_ok pe c'"
  using store_ok_Set [of pe "Proxy_New c" obj key c']
  by (simp add: objects_ok_def Proxy_New_def)

lemma objects_ok_SetBudget: "objects_ok pe c \<Longrightarrow> objects_ok pe (Cache_SetBudget c b)"
  using peek_SetBudget_le [of c b] SetBudget_wf [of c b]
  by (fastforce simp: objects_ok_def store_ok_def Proxy_New_def map_le_def dom_def)

lemma objects_ok_tick: "objects_ok pe c \<Longrightarrow> objects_ok pe (Watchdog_tick target headroom c f)"
  by (simp add: Watchdog_tick_def Let_def objects_ok_SetBudget)

lemma img_optimize_objects:
  assumes "img_optimize e selfHost now key src params h = (f, h')" and "objects_ok pe (im_cache h)"
  shows "objects_ok pe (im_cache h')"
  using assms
  by (auto simp: img_optimize_def Let_def intro: objects_ok_Set [OF _ img_object_storable]
      split: prod.splits sum.splits transform_error.splits if_splits option.splits)

lemma img_answer_cache: "im_cache (fst (img_answer e clk w r key (f, h))) = im_cache h"
  by (simp add: img_answer_def split: flight.split img_error.split)

lemma img_ServeHTTP_objects:
  assumes "objects_ok pe (im_cache h)"
  shows "objects_ok pe (im_cache (fst (img_ServeHTTP e selfHost clk w r h)))"
proof -
  have flight: "objects_ok pe (im_cache (fst (img_answer e clk w r key
      (img_optimize e selfHost now key src params h'))))"
    if "objects_ok pe (im_cache h')" for key now src params h'
    using img_optimize_objects [of e selfHost now key src params h'] that
    by (cases "img_optimize e selfHost now key src params h'") (auto simp: img_answer_cache)
  show ?thesis
    using assms objects_ok_Get [OF assms] flight unfolding img_ServeHTTP_def Let_def
    by (simp split: sum.split option.split freshness.split prod.split)
qed

section \<open>The registry under the refresher\<close>

lemma refresh_list_ok:
  assumes "reg_ok x r" and "\<forall>s \<in> set snaps. snap_ok x (rg_defaults r) s"
  shows "reg_ok x (refresh_list x env k now snaps r)"
  using assms
proof (induction snaps arbitrary: k r)
  case Nil
  then show ?case by simp
next
  case (Cons s snaps)
  obtain net t stopped where env: "env k = (net, t, stopped)" by (cases "env k") auto
  have "snap_ok x (rg_defaults r) (refreshSnapshot x net r t s)"
    using Cons.prems by (intro refresh_ok) simp_all
  then have "reg_ok x (Registry_store r (refreshSnapshot x net r t s))"
    using Cons.prems(1) by (intro RegistryInv.store_ok)
  then show ?case using Cons env by (auto simp: Let_def)
qed

lemma refreshDue_ok [inv_pres]:
  assumes "reg_ok x r"
  shows "reg_ok x (refreshDue x env now r)"
proof -
  have "snap_ok x (rg_defaults r) s" if "s \<in> set (Registry_All r)" for s
    using that assms by (auto simp: Registry_All_def reg_ok_def)
  then show ?thesis using assms by (auto simp: refreshDue_def intro: refresh_list_ok)
qed

section \<open>The node\<close>

definition server_ok :: "server_env \<Rightarrow> server \<Rightarrow> bool" where
  "server_ok e sv \<longleftrightarrow>
     objects_ok (se_proxy e) (px_cache (sv_proxy sv)) \<and> jobs_ok (sv_proxy sv) \<and>
     reg_ok (se_x e) (sv_registry sv) \<and> fetcher_ok (sv_net sv) \<and> events_ok (g_events (sv_guard sv))"

lemma serve_images_ok:
  assumes "serve_images e clk w r sv = (sv', w', panic)" and "server_ok e sv"
  shows "server_ok e sv'"
proof -
  let ?h = "\<lparr>im_cache = px_cache (sv_proxy sv), im_metrics = px_metrics (sv_proxy sv), im_net = sv_net sv\<rparr>"
  let ?res = "img_ServeHTTP (se_img e) (isSelfHost (sv_cfg sv)) clk w r ?h"
  have ok: "objects_ok (se_proxy e) (px_cache (sv_proxy sv))" "fetcher_ok (im_net ?h)"
    using assms(2) by (simp_all add: server_ok_def)
  have "objects_ok (se_proxy e) (im_cache (fst ?res))"
    using ok(1) by (intro img_ServeHTTP_objects) simp
  moreover have "fetcher_ok (im_net (fst ?res))"
    using img_ServeHTTP_net [of "se_img e" "isSelfHost (sv_cfg sv)" clk w r ?h]
      img_fetch_ok [OF prod.collapse [symmetric] ok(2)] ok(2) by metis
  moreover have "sv' = sv\<lparr>sv_proxy := (sv_proxy sv)\<lparr>px_cache := im_cache (fst ?res), px_metrics := im_metrics (fst ?res)\<rparr>,
      sv_net := im_net (fst ?res)\<rparr>"
    using assms(1) by (simp add: serve_images_def Let_def split: prod.splits)
  ultimately show ?thesis using assms(2) by (simp add: server_ok_def jobs_ok_def)
qed

lemma serve_proxy_ok:
  assumes "serve_proxy e clk w r snap sv = (sv', w', panic)" and "server_ok e sv"
  shows "server_ok e sv'"
proof -
  obtain p where p: "Proxy_ServeHTTP (se_proxy e) clk w r snap (sv_proxy sv) = (p, w', panic)"
    "sv' = sv\<lparr>sv_proxy := p\<rparr>"
    using assms(1) by (auto simp: serve_proxy_def Let_def split: prod.splits)
  from serve_step [OF p(1)] assms(2) have "store_ok (se_proxy e) p \<and> jobs_ok p"
    by (simp add: server_ok_def objects_ok_proxy)
  then show ?thesis using assms(2) p(2) by (simp add: server_ok_def objects_ok_proxy)
qed

lemma serveNode_ok:
  "serveNode e clk w r sv = (sv', w', panic) \<Longrightarrow> server_ok e sv \<Longrightarrow> server_ok e sv'"
  by (auto simp: serveNode_def split: if_splits dest: serve_images_ok)

lemma find_domain_ok:
  assumes "find_domain e clk host sv = (sv', snap)" and "server_ok e sv"
  shows "server_ok e sv' \<and> Registry_Lookup (sv_registry sv') host = Some snap"
proof (cases "Registry_Lookup (sv_registry sv) host")
  case (Some s)
  then show ?thesis using assms by (simp add: find_domain_def)
next
  case None
  obtain reg where obs: "Registry_Observe (se_x e) (se_net e 0) (sv_registry sv) host (clk 3) (clk 4) = (reg, snap)"
    "sv' = sv\<lparr>sv_registry := reg\<rparr>"
    using assms(1) None by (auto simp: find_domain_def split: prod.splits)
  from Observe_ok [OF _ obs(1)] assms(2) obs(2) show ?thesis by (simp add: server_ok_def)
qed

lemma serve_pending_ok:
  assumes "serve_pending e clk w r host snap sv = (sv', w', panic)" and "server_ok e sv"
  shows "server_ok e sv'"
proof (cases "Registry_Refresh (se_x e) (se_net e 1) (sv_registry sv) host (clk 6)")
  case None
  then show ?thesis
    using assms by (auto simp: serve_pending_def Let_def split: if_splits dest: serve_proxy_ok)
next
  case (Some q)
  obtain reg s where q: "q = (reg, s)" by (cases q)
  have "server_ok e (sv\<lparr>sv_registry := reg\<rparr>)"
    using Refresh_ok [OF _ Some [unfolded q]] assms(2) by (simp add: server_ok_def)
  then show ?thesis
    using assms Some q
    by (auto simp: serve_pending_def Let_def split: if_splits dest: serve_proxy_ok)
qed

lemma server_ok_count:
  "server_ok e sv \<Longrightarrow> server_ok e (sv\<lparr>sv_proxy := bump f (sv_proxy sv)\<rparr>)"
  by (simp add: server_ok_def jobs_ok_def)

lemma route_ok:
  assumes "route e clk w r sv = (sv', w', panic)" and "server_ok e sv"
  shows "server_ok e sv'"
proof -
  let ?sv = "sv\<lparr>sv_proxy := bump (\<lambda>m. m\<lparr>m_TotalRequests := m_TotalRequests m + 1\<rparr>) (sv_proxy sv)\<rparr>"
  let ?host = "hostOnly (rq_host r)"
  have ok: "server_ok e ?sv" using assms(2) by (rule server_ok_count)
  obtain sv1 snap where dom: "find_domain e clk ?host ?sv = (sv1, snap)" by fastforce
  have "server_ok e sv1" using find_domain_ok [OF dom ok] by simp
  then show ?thesis
    using assms(1) ok dom
    by (auto simp: route_def Let_def split: if_splits
        dest: serveNode_ok serve_proxy_ok serve_pending_ok)
qed

lemma decideIssuance_ok:
  "decideIssuance x net name now0 now sv = (sv', err) \<Longrightarrow> server_ok e sv \<Longrightarrow> server_ok e sv'"
  by (auto simp: decideIssuance_def Let_def server_ok_def Check_def
      split: if_splits sum.splits prod.splits option.splits)

lemma onCertEvent_ok: "server_ok e sv \<Longrightarrow> server_ok e (onCertEvent x marshal io ev now sv)"
  by (simp add: onCertEvent_def server_ok_def Record_def Let_def split: option.split)

lemma server_step_ok:
  assumes "server_step e sv sv'" and "server_ok e sv"
  shows "server_ok e sv'"
  using assms(1)
proof (cases rule: server_step.cases)
  case (request clk r w)
  then obtain w' panic where "route e clk new_writer r sv = (sv', w', panic)"
    by (auto simp: handle_def recoveryMiddleware_def split: prod.splits if_splits)
  then show ?thesis using assms(2) by (rule route_ok)
next
  case (revalidated j clk p)
  have "store_ok (se_proxy e) p \<and> jobs_ok p"
    using job_step [OF revalidated(3,2)] assms(2) by (simp add: server_ok_def objects_ok_proxy)
  then show ?thesis using revalidated(1) assms(2) by (simp add: server_ok_def objects_ok_proxy)
next
  case (registry_tick marshal net now io d reg d')
  have "reg = fst (Registry_save marshal io (refreshDue (se_x e) net now (sv_registry sv)) d)"
    using registry_tick(2) by (simp add: run_step_def prod_eq_iff)
  moreover have "reg_ok (se_x e) (refreshDue (se_x e) net now (sv_registry sv))"
    using assms(2) by (intro refreshDue_ok) (simp add: server_ok_def)
  ultimately have "reg_ok (se_x e) reg" by (simp add: reg_ok_def)
  then show ?thesis using registry_tick(1) assms(2) by (simp add: server_ok_def)
next
  case (memory_tick budget headroom mem)
  then show ?thesis using assms(2) by (simp add: server_ok_def objects_ok_tick jobs_ok_def)
next
  case (certificate_asked net name now0 now err)
  then show ?thesis using assms(2) decideIssuance_ok by blast
next
  case (certificate_event marshal io ev now)
  then show ?thesis using assms(2) onCertEvent_ok by blast
qed

interpretation running_node: step_invariant "server_step e" "server_ok e" for e
  by unfold_locales (rule server_step_ok)

lemma fresh_node_ok:
  assumes "Server_New x ue ud d NotExist NotExist mem cfg now0 now = Inr sv"
  shows "server_ok e sv"
proof -
  have sv: "px_jobs (sv_proxy sv) = []" "px_refreshing (sv_proxy sv) = []"
    "\<exists>b. px_cache (sv_proxy sv) = Cache_New b" "rg_domains (sv_registry sv) = []"
    "ft_dialed (sv_net sv) = []" "ft_idle (sv_net sv) = []" "g_events (sv_guard sv) = []"
    using assms by (auto simp: Server_New_def Guard_New_def NewRegistry_def Proxy_New_def Let_def)
  have "objects_ok (se_proxy e) (Cache_New b)" for b
    by (simp add: objects_ok_def store_ok_def Proxy_New_def cache_wf_New peek_def)
      (simp add: Cache_New_def empty_shard_def split: option.split)
  with sv show ?thesis
    by (auto simp: server_ok_def jobs_ok_def reg_ok_def fetcher_ok_def)
qed

end
