(* ===== verification/ServerProps.thy ===== *)
theory ServerProps
  imports ServerInv ConfigProps ProxyProps ImgCdnProps DnsxProps
begin

text \<open>
  Properties of the assembled node: what holds in every state it can reach, how requests are
  dispatched, when certificates are ordered, and what its middleware does to broken responses.
\<close>

section \<open>A node for the witnesses\<close>

definition sample_cfg :: config where
  "sample_cfg = (read_env (env_of []))\<lparr>cfg_Hostname := ''cdn.example''\<rparr>"

definition sample_server_env :: "origin_reply \<Rightarrow> server_env" where
  "sample_server_env reply =
     \<lparr>se_x = plain, se_proxy = sample_env reply, se_img = sample_img_env NoReply, se_net = (\<lambda>k. sample_network),
      se_landing = (\<lambda>h ips. ''landing''), se_setup = (\<lambda>h o1 c. ''setup''), se_setupError = (\<lambda>h o1 err. ''error''),
      se_favicon = [], se_touchIcon = [], se_mascot = [], se_serveContent = (\<lambda>r data w. w_Write data w),
      se_json = (\<lambda>report. ''{}'')\<rparr>"

definition sample_node :: server where
  "sample_node = projr (Server_New plain (\<lambda>_. None) (\<lambda>_. None) \<lparr>d_file = None, d_tmp = None\<rparr> NotExist NotExist
     None sample_cfg 0 0)"

lemma sample_node_new:
  "Server_New plain (\<lambda>_. None) (\<lambda>_. None) \<lparr>d_file = None, d_tmp = None\<rparr> NotExist NotExist None sample_cfg 0 0
     = Inr sample_node"
  by (simp add: sample_node_def Server_New_def Guard_New_def NewRegistry_def Let_def)

lemma sample_server_env_parts [simp]:
  "se_x (sample_server_env reply) = plain" "se_proxy (sample_server_env reply) = sample_env reply"
  by (simp_all add: sample_server_env_def)

lemma sample_node_parts:
  "cfg_Hostname (sv_cfg sample_node) = ''cdn.example''" "rg_domains (sv_registry sample_node) = []"
  by (simp_all add: sample_node_def Server_New_def Guard_New_def NewRegistry_def Let_def sample_cfg_def)

section \<open>Every reachable state\<close>



section \<open>Dispatch\<close>

text \<open>
  C10. A request for a customer's domain is either proxied, and then the domain has an origin to go to,
  or answered with the setup page, and then the domain is pending. The page for failing domains is
  never shown: a domain whose records never resolved counts as pending.
\<close>

theorem route_customer:
  assumes "server_ok e sv" and "ValidHost (hostOnly (rq_host r))" and "hostOnly (rq_host r) \<noteq> []"
    and "hostOnly (rq_host r) \<noteq> cfg_Hostname (sv_cfg sv)"
  shows "\<exists>sv' snap. sn_host snap = hostOnly (rq_host r) \<and>
    (route e clk w r sv = serve_proxy e clk w r snap sv' \<and> sn_origin snap \<noteq> None \<or>
     route e clk w r sv = (sv', RenderSetup e w snap, False) \<and> sn_status snap = ''pending'')"
proof -
  let ?sv = "sv\<lparr>sv_proxy := bump (\<lambda>m. m\<lparr>m_TotalRequests := m_TotalRequests m + 1\<rparr>) (sv_proxy sv)\<rparr>"
  let ?host = "hostOnly (rq_host r)"
  obtain sv1 snap where dom: "find_domain e clk ?host ?sv = (sv1, snap)" by fastforce
  have "server_ok e ?sv" using assms(1) by (rule server_ok_count)
  from find_domain_ok [OF dom this]
  have ok1: "server_ok e sv1" and look: "Registry_Lookup (sv_registry sv1) ?host = Some snap" by simp_all
  have reg: "reg_ok (se_x e) (sv_registry sv1)" using ok1 by (simp add: server_ok_def)
  have facts: "sn_host s = ?host \<and> sn_status s \<in> {StatusPending, StatusActive, StatusError} \<and>
      (sn_origin s = None \<longleftrightarrow> sn_status s = StatusPending)"
    if "reg_ok (se_x e) reg'" "Registry_Lookup reg' ?host = Some s" for reg' s
    using Lookup_ok [OF that] by (simp add: snap_ok_def)
  have route: "route e clk w r sv =
      (if sn_status snap = StatusActive \<or> sn_status snap = StatusError then serve_proxy e clk w r snap sv1
       else serve_pending e clk w r ?host snap sv1)"
    using assms(2-4) dom facts [OF reg look] by (auto simp: route_def Let_def)
  show ?thesis
  proof (cases "sn_status snap = StatusActive \<or> sn_status snap = StatusError")
    case True
    with route facts [OF reg look] show ?thesis by (intro exI [of _ sv1] exI [of _ snap]) auto
  next
    case False
    then have pend: "sn_status snap = StatusPending" using facts [OF reg look] by auto
    obtain reg' s where ref: "Registry_Refresh (se_x e) (se_net e 1) (sv_registry sv1) ?host (clk 6) = Some (reg', s)"
      using look by (auto simp: Registry_Refresh_def Let_def)
    have f: "sn_host s = ?host \<and> sn_status s \<in> {StatusPending, StatusActive, StatusError} \<and>
        (sn_origin s = None \<longleftrightarrow> sn_status s = StatusPending)"
      using Refresh_ok [OF reg ref] facts [of reg' s] by blast
    have "sn_status s \<noteq> StatusError"
      using ref look pend facts [OF reg look]
      by (auto simp: Registry_Refresh_def Let_def refreshSnapshot_def
          split: sum.splits origin_error.splits)
    then show ?thesis
      using False route pend f facts [OF reg look] ref
      by (auto simp: serve_pending_def Let_def StatusPending_def [symmetric]
          intro: exI [of _ sv1] exI [of _ snap] exI [of _ "sv1\<lparr>sv_registry := reg'\<rparr>"] exI [of _ s])
  qed
qed

lemma sample_host: "hostOnly (rq_host (sample_request m)) = ''a.com''" "ValidHost ''a.com''"
proof -
  have "hostOnly ''a.com'' = ''a.com''" by code_simp
  then show "hostOnly (rq_host (sample_request m)) = ''a.com''" by (simp add: sample_request_def)
  show "ValidHost ''a.com''" by code_simp
qed

theorem route_customer_witness:
  "\<exists>sv' snap. sn_host snap = ''a.com'' \<and>
    (route (sample_server_env sample_reply) int new_writer (sample_request ''GET'') sample_node =
       serve_proxy (sample_server_env sample_reply) int new_writer (sample_request ''GET'') snap sv'
       \<and> sn_origin snap \<noteq> None \<or>
     route (sample_server_env sample_reply) int new_writer (sample_request ''GET'') sample_node =
       (sv', RenderSetup (sample_server_env sample_reply) new_writer snap, False)
       \<and> sn_status snap = ''pending'')"
proof -
  have "server_ok (sample_server_env sample_reply) sample_node"
    using fresh_node_ok [OF sample_node_new] .
  from route_customer [OF this, of "sample_request ''GET''" int new_writer] sample_host
  show ?thesis by (simp add: sample_node_parts)
qed

section \<open>Certificates\<close>

text \<open>
  C17. An order is approved just for a valid host name that resolves to one of the node's addresses
  (when it knows them) and is within the issuance budgets; a refusal before the budgets leaves the
  issuance history alone.
\<close>

theorem decideIssuance_gate:
  "snd (decideIssuance x net name t0 t sv) = None \<longleftrightarrow>
     ValidHost (toLower name)
     \<and> (if cfg_PublicIPs (sv_cfg sv) = [] then True
        else (case net_IP net (rg_resolver (sv_registry sv)) (toLower name) of
                Inl err \<Rightarrow> False
              | Inr addrs \<Rightarrow> set addrs \<inter> set (cfg_PublicIPs (sv_cfg sv)) \<noteq> {}))
     \<and> snd (Check (sv_guard sv) (Apex (x_psl x) (toLower name)) t0 t) = None"
proof -
  have pt: "PointsTo net rs n ips = (case net_IP net rs n of
      Inl err \<Rightarrow> Inl (''dnsx: resolving '' @ n @ '': '' @ err)
    | Inr addrs \<Rightarrow> Inr (set addrs \<inter> set ips \<noteq> {}))" if "ips \<noteq> []" for rs n ips
    using that by (auto simp: PointsTo_def list_ex_iff split: sum.split)
  show ?thesis
    by (auto simp: decideIssuance_def Let_def pt split: sum.split prod.split option.split)
qed

text \<open>
  A new certificate counts against the budget of its apex domain, once; renewals, failures and
  events without a name leave the history alone.
\<close>

theorem onCertEvent_counts:
  "countSince (g_events (sv_guard (onCertEvent x marshal io ev now sv))) apex cutoff =
     countSince (g_events (sv_guard sv)) apex cutoff +
       (case ev_identifier ev of
          None \<Rightarrow> 0
        | Some name \<Rightarrow>
            if ev_name ev = ''cert_obtained'' \<and> ev_renewal ev \<noteq> Some True \<and> name \<noteq> [] \<and>
              Apex (x_psl x) name = apex \<and> cutoff < now then 1 else 0)"
  by (auto simp: onCertEvent_def Record_def Let_def countSince_add split: option.split)

section \<open>The node's own name\<close>

text \<open>
  A configured host name with an upper-case letter never matches: hosts are lower-cased before
  they are compared, so neither routing nor the self-host check recognises the node by its name.
\<close>

lemma hostOnly_lower: "toLower (hostOnly s) = hostOnly s"
  by (simp add: hostOnly_def Let_def)

theorem mixed_case_hostname_never_matches:
  assumes "toLower (cfg_Hostname cfg) \<noteq> cfg_Hostname cfg"
  shows "hostOnly hostport \<noteq> cfg_Hostname cfg \<and>
    (isSelfHost cfg (toLower host) \<longleftrightarrow>
       (case ParseIP (toLower host) of Some ip \<Rightarrow> ip \<in> set (cfg_PublicIPs cfg) | None \<Rightarrow> False))"
proof -
  have "hostOnly hostport \<noteq> cfg_Hostname cfg" using assms hostOnly_lower by metis
  moreover have "toLower host \<noteq> cfg_Hostname cfg" using assms toLower_idem by metis
  ultimately show ?thesis by (auto simp: isSelfHost_def list_ex_iff split: option.split)
qed

theorem mixed_case_hostname_never_matches_witness:
  "hostOnly ''CDN.example'' \<noteq> cfg_Hostname (sample_cfg\<lparr>cfg_Hostname := ''CDN.example''\<rparr>)"
proof -
  have "toLower ''CDN.example'' \<noteq> ''CDN.example''" by code_simp
  then show ?thesis
    using mixed_case_hostname_never_matches [of "sample_cfg\<lparr>cfg_Hostname := ''CDN.example''\<rparr>"] by simp
qed

lemma valid_host_chars:
  assumes "ValidHost h" and "\<not> hasSuffix h ''.''"
  shows "\<forall>c \<in> set h. ldh c \<or> c = CHR ''.''" and "CHR ''.'' \<in> set h"
proof -
  have trim: "trimSuffix h ''.'' = h" using assms(2) by (simp add: trimSuffix_def)
  have labels: "2 \<le> length (splitOn CHR ''.'' h)" "list_all (list_all ldh) (splitOn CHR ''.'' h)"
    using assms(1) by (auto simp: ValidHost_reading trim Let_def list_all_iff)
  show "\<forall>c \<in> set h. ldh c \<or> c = CHR ''.''"
    using splitOn_covers [of _ h "CHR ''.''"] labels(2) by (fastforce simp: list_all_iff)
  show "CHR ''.'' \<in> set h" using splitOn_length_ge2 [OF labels(1)] .
qed

lemma splitOn_snoc: "splitOn c (s @ [c]) = splitOn c s @ [[]]"
  by (induction s) (auto split: list.split)

lemma ParseIP_dotted:
  assumes "CHR ''.'' \<in> set s" and "CHR '':'' \<notin> set s" and "CHR ''%'' \<notin> set s"
  shows "ParseIP s = map_option v4_mapped (parseIPv4Fields s)"
proof -
  have "\<exists>t. dropWhile (\<lambda>c. c \<notin> {CHR ''.'', CHR '':'', CHR ''%''}) s = CHR ''.'' # t"
    using assms by (induction s) auto
  then show ?thesis by (auto simp: ParseIP_def)
qed

lemma ParseIP_trailing_dot:
  assumes "ValidHost h" and "\<not> hasSuffix h ''.''"
  shows "ParseIP (h @ ''.'') = None"
proof -
  have "CHR '':'' \<notin> set h" "CHR ''%'' \<notin> set h"
    using valid_host_chars(1) [OF assms] ldh_not_special by fastforce+
  then have "ParseIP (h @ ''.'') = map_option v4_mapped (parseIPv4Fields (h @ ''.''))"
    by (intro ParseIP_dotted) simp_all
  moreover have "parseIPv4Fields (h @ ''.'') = None"
  proof -
    have "v4_field [] = None" by code_simp
    then show ?thesis
      by (auto simp: parseIPv4Fields_def splitOn_snoc split: list.split option.split)
  qed
  ultimately show ?thesis by simp
qed

text \<open>
  The self-host check compares the host as it is written, routing drops a trailing dot first. A
  source URL with the node's name and a dot passes the check, and the request it leads to is served
  by this node: the image endpoint can be made to fetch from itself.
\<close>

theorem trailing_dot_reaches_node:
  assumes "cfg_Hostname (sv_cfg sv) = h" and "ValidHost h" and "\<not> hasSuffix h ''.''"
    and "rq_host r = h @ ''.''"
  shows "\<not> isSelfHost (sv_cfg sv) (toLower (h @ ''.'')) \<and>
    (\<exists>sv1. route e clk w r sv = serveNode e clk w r sv1)"
proof -
  have "toLower h = h"
    using valid_host_chars(1) [OF assms(2,3)]
    by (auto simp: toLower_def lower_char_def ldh_def is_digit_def intro!: map_idI)
  then have lower: "toLower (h @ ''.'') = h @ ''.''" by (simp add: toLower_def lower_char_def)
  have "CHR '':'' \<notin> set (h @ ''.'')"
    using valid_host_chars(1) [OF assms(2,3)] ldh_not_special by fastforce
  then have "last_index_of CHR '':'' (h @ ''.'') = None"
    unfolding last_index_of_def by (simp add: index_of_None del: rev_append)
  then have "SplitHostPort (h @ ''.'') = Inl MissingPort" by (simp add: SplitHostPort_def)
  then have "hostOnly (h @ ''.'') = h" by (simp add: hostOnly_def \<open>toLower h = h\<close>)
  then have "\<exists>sv1. route e clk w r sv = serveNode e clk w r sv1"
    using assms(1,4) by (auto simp: route_def Let_def)
  moreover have "\<not> isSelfHost (sv_cfg sv) (h @ ''.'')"
    using assms(1) ParseIP_trailing_dot [OF assms(2,3)] by (simp add: isSelfHost_def)
  ultimately show ?thesis unfolding lower by blast
qed

theorem trailing_dot_reaches_node_witness:
  "\<not> isSelfHost (sv_cfg sample_node) (toLower (''cdn.example'' @ ''.''))"
proof -
  have "ValidHost ''cdn.example''" "\<not> hasSuffix ''cdn.example'' ''.''" by code_simp+
  from trailing_dot_reaches_node [OF sample_node_parts(1) this, of "(sample_request ''GET'')\<lparr>rq_host := ''cdn.example'' @ ''.''\<rparr>"]
  show ?thesis by simp
qed

section \<open>Broken responses\<close>



end
