(* ===== verification/Paths.thy ===== *)
theory Paths
  imports Bunny
begin

text \<open>
  \<open>filepath.Join\<close> and \<open>filepath.Clean\<close> on Unix, and the files a node keeps in its data directory:
  the issuance history (\<open>certguard.go\<close>), the registry (\<open>registry.go\<close>), the temporary files they are
  written to first, and the store of the certificates (\<open>server.go\<close>).
\<close>

section \<open>\<open>path/filepath\<close>\<close>

text \<open>One element of a path, with those kept so far in reverse.\<close>

definition path_step :: "bool \<Rightarrow> string list \<Rightarrow> string \<Rightarrow> string list" where
  "path_step rooted out p =
     (if p = [] \<or> p = ''.'' then out
      else if p = ''..'' then
        (case out of
           o1 # out' \<Rightarrow> if o1 \<noteq> ''..'' then out' else p # out
         | [] \<Rightarrow> if rooted then [] else [p])
      else p # out)"

definition path_elements :: "string \<Rightarrow> string list" where
  "path_elements path = rev (foldl (path_step (hasPrefix path ''/'')) [] (splitOn CHR ''/'' path))"

definition path_Clean :: "string \<Rightarrow> string" where
  "path_Clean path =
     (let body = join ''/'' (path_elements path)
      in if hasPrefix path ''/'' then ''/'' @ body else if body = [] then ''.'' else body)"

definition path_Join :: "string \<Rightarrow> string \<Rightarrow> string" where
  "path_Join dir name = path_Clean (if dir = [] then name else dir @ ''/'' @ name)"

section \<open>The files\<close>

definition Guard_path :: "string \<Rightarrow> string" where
  "Guard_path dir = path_Join dir ''certguard.json''"

definition Registry_path :: "string \<Rightarrow> string" where
  "Registry_path dir = path_Join dir ''domains.json''"

definition certs_path :: "string \<Rightarrow> string" where
  "certs_path dir = path_Join dir ''certs''"

definition temporary :: "string \<Rightarrow> string" where
  "temporary path = path @ ''.tmp''"

section \<open>Plain names in a directory\<close>

definition plain_name :: "string \<Rightarrow> bool" where
  "plain_name p \<longleftrightarrow> p \<noteq> [] \<and> p \<noteq> ''.'' \<and> p \<noteq> ''..'' \<and> CHR ''/'' \<notin> set p"

lemma path_step_plain: "plain_name p \<Longrightarrow> path_step rooted out p = p # out"
  by (simp add: plain_name_def path_step_def)

lemma path_step_Nil [simp]: "path_step rooted out [] = out"
  by (simp add: path_step_def)

lemma path_step_set: "q \<in> set (path_step rooted out p) \<Longrightarrow> q \<in> set out \<or> q = p \<and> p \<noteq> [] \<and> p \<noteq> ''.''"
  by (auto simp: path_step_def split: if_splits list.splits)

lemma path_steps_set:
  "q \<in> set (foldl (path_step rooted) out ps) \<Longrightarrow> q \<in> set out \<or> q \<in> set ps \<and> q \<noteq> [] \<and> q \<noteq> ''.''"
  by (induction ps arbitrary: out) (auto dest: path_step_set)

lemma path_elements_plain: "p \<in> set (path_elements path) \<Longrightarrow> p \<noteq> [] \<and> p \<noteq> ''.'' \<and> CHR ''/'' \<notin> set p"
  unfolding path_elements_def by (auto dest: path_steps_set splitOn_parts)

lemma join_snoc: "join sep (xs @ [a]) = (if xs = [] then a else join sep xs @ sep @ a)"
  by (induction sep xs rule: join.induct) simp_all

lemma splitOn_path: "c \<notin> set name \<Longrightarrow> splitOn c (dir @ c # name) = splitOn c dir @ [name]"
  by (induction dir) (auto simp: splitOn_absent split: list.split)

lemma path_elements_Join:
  assumes "plain_name name" and "dir \<noteq> []"
  shows "path_elements (dir @ ''/'' @ name) = path_elements dir @ [name]"
proof -
  have "hasPrefix (dir @ ''/'' @ name) ''/'' = hasPrefix dir ''/''"
    using assms(2) by (cases dir) (simp_all add: hasPrefix_def)
  then show ?thesis
    using assms(1) splitOn_path [of "CHR ''/''" name dir]
    by (simp add: path_elements_def path_step_plain plain_name_def [of name])
qed

lemma join_elements:
  assumes "xs = path_elements path" and "xs \<noteq> []"
  shows "join ''/'' xs \<noteq> []" and "join ''/'' xs \<noteq> ''.''" and "join ''/'' xs \<noteq> ''/''"
proof -
  obtain x ys where xs: "xs = x # ys" using assms(2) by (cases xs) auto
  have x: "x \<noteq> []" "x \<noteq> ''.''" "CHR ''/'' \<notin> set x"
    using path_elements_plain [of x path] unfolding assms(1) [symmetric] xs by simp_all
  have "join ''/'' xs = x \<or> (\<exists>y zs. ys = y # zs \<and> y \<noteq> [] \<and> join ''/'' xs = x @ ''/'' @ join ''/'' ys)"
    using path_elements_plain [of "hd ys" path] unfolding assms(1) [symmetric] xs by (cases ys) simp_all
  then show "join ''/'' xs \<noteq> []" "join ''/'' xs \<noteq> ''.''" "join ''/'' xs \<noteq> ''/''"
    using x by (auto simp: append_eq_Cons_conv)
qed

text \<open>A plain name joined to a directory is the file of that name in the cleaned directory.\<close>

lemma path_Join_plain:
  assumes "plain_name name"
  shows "path_Join dir name =
    (if path_Clean dir = ''.'' then name else if path_Clean dir = ''/'' then ''/'' @ name
     else path_Clean dir @ ''/'' @ name)"
proof (cases "dir = []")
  case True
  have "\<not> hasPrefix name ''/''" using assms by (cases name) (auto simp: plain_name_def hasPrefix_def)
  moreover have "path_elements name = [name]"
    using assms by (simp add: path_elements_def path_step_plain plain_name_def [of name] splitOn_absent)
  ultimately show ?thesis
    using True assms by (simp add: path_Join_def path_Clean_def path_elements_def plain_name_def hasPrefix_def Let_def)
next
  case False
  let ?xs = "path_elements dir"
  have root: "hasPrefix (dir @ ''/'' @ name) ''/'' = hasPrefix dir ''/''"
    using False by (cases dir) (simp_all add: hasPrefix_def)
  have new: "join ''/'' (path_elements (dir @ ''/'' @ name)) = (if ?xs = [] then name else join ''/'' ?xs @ ''/'' @ name)"
    unfolding path_elements_Join [OF assms False] join_snoc ..
  have name: "name \<noteq> []" using assms by (simp add: plain_name_def)
  show ?thesis
    using False root new name join_elements [OF refl, of dir]
    by (auto simp: path_Join_def path_Clean_def Let_def)
qed

text \<open>
  Whatever directory is configured, the node's files lie in it under their own names: the history,
  the registry, the two temporary files and the certificate store never coincide, so no component
  writes over the state of another.
\<close>

theorem node_files_distinct:
  "distinct [Guard_path dir, temporary (Guard_path dir), Registry_path dir, temporary (Registry_path dir), certs_path dir] \<and>
   (\<exists>prefix. Guard_path dir = prefix @ ''certguard.json'' \<and> Registry_path dir = prefix @ ''domains.json'' \<and>
      certs_path dir = prefix @ ''certs'' \<and> prefix \<in> {[], ''/'', path_Clean dir @ ''/''})"
proof -
  have plain: "plain_name ''certguard.json''" "plain_name ''domains.json''" "plain_name ''certs''"
    by (simp_all add: plain_name_def)
  define prefix where "prefix = (if path_Clean dir = ''.'' then [] else if path_Clean dir = ''/'' then ''/''
     else path_Clean dir @ ''/'')"
  have "path_Join dir name = prefix @ name" if "plain_name name" for name
    using path_Join_plain [OF that, of dir] by (simp add: prefix_def)
  from this [OF plain(1)] this [OF plain(2)] this [OF plain(3)]
  have files: "Guard_path dir = prefix @ ''certguard.json''" "Registry_path dir = prefix @ ''domains.json''"
    "certs_path dir = prefix @ ''certs''"
    by (simp_all only: Guard_path_def Registry_path_def certs_path_def)
  moreover have "prefix \<in> {[], ''/'', path_Clean dir @ ''/''}" by (simp add: prefix_def)
  ultimately show ?thesis unfolding temporary_def files by auto
qed

end
