(* ===== verification/ServerRun.thy ===== *)
theory ServerRun
  imports ServerProps Paths F64Bounds
begin

text \<open>
  \<open>setupTLS\<close> and \<open>Run\<close> of \<open>server.go\<close>, and \<open>StartMetrics\<close> and \<open>ReportMetric\<close> of \<open>devlite.go\<close>: what
  certmagic, the ACME issuer and the TLS listener are configured with, how the node stops, and the
  figures it reports. certmagic and the SDK are called, not modelled; the clock, the listener and
  which of several ready channels \<open>select\<close> takes are arguments.
\<close>

section \<open>\<open>setupTLS\<close>\<close>

record tls_setup =
  ts_storage :: string
  ts_DecisionFunc :: "network \<Rightarrow> string \<Rightarrow> time \<Rightarrow> time \<Rightarrow> server \<Rightarrow> server \<times> issuance_error option"
  ts_OnEvent :: "(events \<Rightarrow> bytes option) \<Rightarrow> io_result \<Rightarrow> cert_event \<Rightarrow> time \<Rightarrow> server \<Rightarrow> server"
  ts_debugLogger :: bool
  ts_CA :: string
  ts_Email :: string
  ts_Agreed :: bool
  ts_DisableHTTPChallenge :: bool

definition setupTLS :: "externals \<Rightarrow> string \<Rightarrow> string \<Rightarrow> config \<Rightarrow> tls_setup" where
  "setupTLS x production staging cfg =
     \<lparr>ts_storage = certs_path (cfg_DataDir cfg),
      ts_DecisionFunc = decideIssuance x,
      ts_OnEvent = onCertEvent x,
      ts_debugLogger = cfg_ACMEDebug cfg,
      ts_CA = acme_directory production staging cfg,
      ts_Email = cfg_ACMEEmail cfg,
      ts_Agreed = True,
      ts_DisableHTTPChallenge = True\<rparr>"

section \<open>The listener\<close>

definition VersionTLS12 :: int where "VersionTLS12 = 0x0303"

record tls_config =
  tc_MinVersion :: int
  tc_NextProtos :: "string list"

text \<open>What \<open>Run\<close> makes of the configuration certmagic returns.\<close>

definition listener_tls :: "tls_config \<Rightarrow> tls_config" where
  "listener_tls c = c\<lparr>tc_MinVersion := VersionTLS12, tc_NextProtos := [''h2'', ''http/1.1''] @ tc_NextProtos c\<rparr>"

text \<open>The server \<open>Run\<close> starts; its handler is \<open>Server.handle\<close>, its log is left out.\<close>

record https_server =
  hs_Addr :: string
  hs_TLSConfig :: tls_config
  hs_ReadHeaderTimeout :: duration
  hs_IdleTimeout :: duration

definition httpsSrv :: "tls_config \<Rightarrow> config \<Rightarrow> https_server" where
  "httpsSrv magic cfg =
     \<lparr>hs_Addr = cfg_HTTPSAddr cfg, hs_TLSConfig = listener_tls magic,
      hs_ReadHeaderTimeout = 15 * second, hs_IdleTimeout = 2 * minute\<rparr>"

text \<open>
  The protocol \<open>crypto/tls\<close> selects: the first of the server that the client offers too. Without an
  offer, or when a client of HTTP/1.1 meets a server of HTTP/2, there is none; otherwise the
  handshake fails (\<open>None\<close>).
\<close>

definition negotiateALPN :: "string list \<Rightarrow> string list \<Rightarrow> string option" where
  "negotiateALPN serverProtos clientProtos =
     (if serverProtos = [] \<or> clientProtos = [] then Some []
      else case filter (\<lambda>s. s \<in> set clientProtos) serverProtos of
             s # _ \<Rightarrow> Some s
           | [] \<Rightarrow> if ''h2'' \<in> set serverProtos \<and> ''http/1.1'' \<in> set clientProtos then Some [] else None)"

text \<open>
  Browsers get HTTP/2 or HTTP/1.1 whatever else they offer, and a handshake that offers only the
  protocol of the TLS-ALPN-01 challenge is answered with it when certmagic serves that challenge:
  putting the web protocols in front does not hide the only challenge the node leaves enabled.
\<close>

theorem challenge_not_hidden:
  assumes "''acme-tls/1'' \<in> set (tc_NextProtos c)"
  shows "negotiateALPN (tc_NextProtos (hs_TLSConfig (httpsSrv c cfg))) [''acme-tls/1''] = Some ''acme-tls/1''
    \<and> negotiateALPN (tc_NextProtos (hs_TLSConfig (httpsSrv c cfg))) client =
        (if client = [] then Some []
         else if ''h2'' \<in> set client then Some ''h2''
         else if ''http/1.1'' \<in> set client then Some ''http/1.1''
         else negotiateALPN (tc_NextProtos c) client)
    \<and> ts_DisableHTTPChallenge (setupTLS x production staging cfg)"
proof -
  have "\<exists>ps. filter (\<lambda>s. s = ''acme-tls/1'') (tc_NextProtos c) = ''acme-tls/1'' # ps"
    using assms
    by (cases "filter (\<lambda>s. s = ''acme-tls/1'') (tc_NextProtos c)") (auto simp: filter_empty_conv Cons_eq_filter_iff filter_eq_Cons_iff)
  then have "negotiateALPN (tc_NextProtos (hs_TLSConfig (httpsSrv c cfg))) [''acme-tls/1''] = Some ''acme-tls/1''"
    by (auto simp: negotiateALPN_def listener_tls_def httpsSrv_def)
  moreover have "tc_NextProtos c \<noteq> []" using assms by auto
  ultimately show ?thesis
    by (auto simp: negotiateALPN_def listener_tls_def httpsSrv_def setupTLS_def split: list.split)
qed

theorem challenge_not_hidden_witness:
  "negotiateALPN [''h2'', ''http/1.1'', ''acme-tls/1''] [''acme-tls/1''] = Some ''acme-tls/1''"
  using challenge_not_hidden [of "\<lparr>tc_MinVersion = 0, tc_NextProtos = [''acme-tls/1'']\<rparr>", THEN conjunct1]
  by (simp add: listener_tls_def httpsSrv_def)

section \<open>The end of \<open>Run\<close>\<close>

datatype 'e serve_error = HttpsListen string 'e | ErrServerClosed | ServeError 'e

text \<open>What the listener's goroutine sends: why it could not listen, or how \<open>ServeTLS\<close> ended.\<close>

definition https_goroutine ::
  "(string \<Rightarrow> 'e option) \<Rightarrow> (https_server \<Rightarrow> 'e serve_error option) \<Rightarrow> https_server \<Rightarrow> 'e serve_error option" where
  "https_goroutine listen serveTLS srv =
     (case listen (hs_Addr srv) of
        Some err \<Rightarrow> Some (HttpsListen (hs_Addr srv) err)
      | None \<Rightarrow> serveTLS srv)"

text \<open>What \<open>select\<close> took: the message of the listener, or the end of the context.\<close>

datatype 'e awaited = FromListener "'e serve_error option" | ContextDone

text \<open>The error \<open>Run\<close> returns and whether it has shut the server down in an orderly way.\<close>

definition Run_end :: "'e awaited \<Rightarrow> 'e serve_error option \<times> bool" where
  "Run_end ev =
     (case ev of
        FromListener (Some err) \<Rightarrow> if err \<noteq> ErrServerClosed then (Some err, False) else (None, True)
      | FromListener None \<Rightarrow> (None, True)
      | ContextDone \<Rightarrow> (None, True))"

text \<open>How long \<open>Shutdown\<close> may wait for requests under way.\<close>

definition shutdownTimeout :: duration where "shutdownTimeout = 10 * second"

section \<open>The reported figures\<close>

record metric_point =
  mp_name :: string
  mp_value :: rat
  mp_unit :: string

definition metric :: "string \<Rightarrow> int \<Rightarrow> string \<Rightarrow> metric_point" where
  "metric name n unit = \<lparr>mp_name = name, mp_value = f64 (of_int n), mp_unit = unit\<rparr>"

text \<open>The points of one collection; \<open>ReportMetric\<close> hands one to the SDK while it is enabled.\<close>

definition collect_metrics :: "server \<Rightarrow> metric_point list" where
  "collect_metrics sv =
     (let cacheStats = Cache_Stats (px_cache (sv_proxy sv)); requestStats = Metrics_Snap (px_metrics (sv_proxy sv)) in
      [metric ''hubcdn.cache.entries'' (st_entries cacheStats) ''count'',
       metric ''hubcdn.cache.bytes'' (st_bytes cacheStats) ''byte'',
       metric ''hubcdn.cache.hits'' (int (ms_cache_hits requestStats)) ''count'',
       metric ''hubcdn.cache.misses'' (int (ms_cache_misses requestStats)) ''count'',
       metric ''hubcdn.domains'' (int (Registry_Count (sv_registry sv))) ''count''])"

definition ReportMetric :: "bool \<Rightarrow> metric_point list \<Rightarrow> metric_point \<Rightarrow> metric_point list" where
  "ReportMetric enabled sent p = (if \<not> enabled then sent else sent @ [p])"

text \<open>
  The points sent when the ticker fires in some states, each with whether the SDK is still enabled
  then. Nothing is started when it is not enabled at first.
\<close>

definition StartMetrics :: "bool \<Rightarrow> (bool \<times> server) list \<Rightarrow> metric_point list" where
  "StartMetrics enabled ticks =
     (if \<not> enabled then []
      else foldl (\<lambda>sent (enabled', sv). foldl (ReportMetric enabled') sent (collect_metrics sv)) [] ticks)"

lemma f64_of_small_int:
  assumes "0 \<le> n" and "n < 2 ^ 53"
  shows "f64 (of_int n) = of_int n"
proof (cases "n = 0")
  case True
  then show ?thesis by (simp add: f64_def)
next
  case False
  then have n: "1 \<le> n" using assms(1) by simp
  have "(2 :: rat) powi (- 1000) \<le> 2 powi 0" by (rule power_int_increasing) simp_all
  also have "\<dots> \<le> of_int n" using n by simp
  finally obtain e m where em: "f64 (of_int n) = of_int m * 2 powi e" "2 powi (52 + e) \<le> (of_int n :: rat)"
    "\<bar>of_int m - of_int n / 2 powi e :: rat\<bar> \<le> 1 / 2"
    using f64_shape [of "of_int n"] by blast
  have "e \<le> 0"
  proof (rule ccontr)
    assume "\<not> e \<le> 0"
    then have "(2 :: rat) powi 53 \<le> 2 powi (52 + e)" by (intro power_int_increasing) simp_all
    also have "\<dots> \<le> of_int n" by (rule em(2))
    also have "\<dots> < of_int (2 ^ 53)" using assms(2) by (simp only: of_int_less_iff)
    finally show False by simp
  qed
  define k where "k = n * 2 ^ nat (- e)"
  have k: "(of_int n / 2 powi e :: rat) = of_int k"
    using \<open>e \<le> 0\<close> by (simp add: k_def power_int_def power_inverse divide_simps)
  then have "of_int (\<bar>m - k\<bar> * 2) \<le> (of_int 1 :: rat)" using em(3) by (simp flip: of_int_diff of_int_abs)
  then have "\<bar>m - k\<bar> * 2 \<le> 1" by (simp only: of_int_le_iff)
  then have "m = k" by arith
  then show ?thesis using em(1) k by (simp add: field_simps)
qed

lemma metric_value: "n < 2 ^ 53 \<Longrightarrow> mp_value (metric name (int n) unit) = of_nat n"
  using f64_of_small_int [of "int n"] by (simp add: metric_def)

lemma sum_over_shards:
  fixes f :: "nat \<Rightarrow> int"
  shows "(\<Sum>i < shardCount. f i) = sum_list (map f [0..<shardCount])"
  by (simp add: interv_sum_list_conv_sum_set_nat atLeast0LessThan)

lemma length_concat_map: "int (length (concat xss)) = sum_list (map (\<lambda>xs. int (length xs)) xss)"
  by (induction xss) simp_all

lemma sum_list_concat_map:
  fixes f :: "'a \<Rightarrow> int"
  shows "sum_list (map f (concat xss)) = sum_list (map (\<lambda>xs. sum_list (map f xs)) xss)"
  by (induction xss) simp_all

text \<open>
  C38. In every state a fresh node reaches, the reported figures are the true ones, exactly, as long as
  they are below 2^53: the number and the bytes of the objects that are in the cache, the hits and
  misses counted by the proxy, and the number of hosts the registry knows. Nothing is sent when
  telemetry is disabled.
\<close>

theorem reported_metrics:
  assumes "Server_New (se_x e) ue ud d NotExist NotExist mem cfg t0 t1 = Inr sv0"
    and "(server_step e)\<^sup>*\<^sup>* sv0 sv"
    and "objects = concat (map (\<lambda>i. s_lru (c_shards (px_cache (sv_proxy sv)) i)) [0..<shardCount])"
    and "sum_list (map e_size objects) < 2 ^ 53" and "length objects < 2 ^ 53"
    and "card (fst ` set (rg_domains (sv_registry sv))) < 2 ^ 53"
    and "unat (m_CacheHits (px_metrics (sv_proxy sv))) < 2 ^ 53"
    and "unat (m_CacheMisses (px_metrics (sv_proxy sv))) < 2 ^ 53"
  shows "map mp_value (StartMetrics enabled [(True, sv)]) =
    (if enabled then
       [of_nat (length objects), of_int (sum_list (map e_size objects)),
        of_nat (unat (m_CacheHits (px_metrics (sv_proxy sv)))),
        of_nat (unat (m_CacheMisses (px_metrics (sv_proxy sv)))),
        of_nat (card (fst ` set (rg_domains (sv_registry sv))))]
     else [])"
proof -
  let ?c = "px_cache (sv_proxy sv)"
  have ok: "server_ok e sv" using running_node.steps_inv [OF assms(2) fresh_node_ok [OF assms(1)]] .
  have wf: "cache_wf ?c" using ok by (simp add: server_ok_def objects_ok_def store_ok_def Proxy_New_def)
  have reg: "card (fst ` set (rg_domains (sv_registry sv))) = length (rg_domains (sv_registry sv))"
    using ok distinct_card [of "map fst (rg_domains (sv_registry sv))"] by (simp add: server_ok_def reg_ok_def)
  have "s_bytes (c_shards ?c i) = sum_list (map e_size (s_lru (c_shards ?c i)))" if "i < shardCount" for i
    using wf that unfolding cache_wf_def shard_wf_def by (metis mk_shard_simps(3) total_size_def)
  then have "(\<Sum>i < shardCount. s_bytes (c_shards ?c i)) = (\<Sum>i < shardCount. sum_list (map e_size (s_lru (c_shards ?c i))))"
    by simp
  then have bytes: "c_bytes ?c = sum_list (map e_size objects)"
    using wf by (simp add: cache_wf_def assms(3) sum_over_shards sum_list_concat_map comp_def)
  have entries: "c_entries ?c = int (length objects)"
    using wf by (simp add: cache_wf_def assms(3) sum_over_shards length_concat_map comp_def)
  have "0 < e_size o'" if "o' \<in> set objects" for o'
    using wf that lru_ok_size by (auto simp: assms(3) cache_wf_def shard_wf_def)
  then have "0 \<le> sum_list (map e_size objects)" by (intro sum_list_nonneg) (auto intro: less_imp_le)
  then have size: "mp_value (metric name (sum_list (map e_size objects)) unit) = of_int (sum_list (map e_size objects))"
    for name unit
    using f64_of_small_int assms(4) by (simp add: metric_def)
  define hits misses where "hits = unat (m_CacheHits (px_metrics (sv_proxy sv)))"
    and "misses = unat (m_CacheMisses (px_metrics (sv_proxy sv)))"
  have snap: "ms_cache_hits (Metrics_Snap (px_metrics (sv_proxy sv))) = hits"
    "ms_cache_misses (Metrics_Snap (px_metrics (sv_proxy sv))) = misses"
    by (simp_all add: Metrics_Snap_def hits_def misses_def)
  have "map mp_value (collect_metrics sv) = [of_nat (length objects), of_int (sum_list (map e_size objects)),
      of_nat hits, of_nat misses, of_nat (card (fst ` set (rg_domains (sv_registry sv))))]"
    using assms(4-8)
    by (simp add: collect_metrics_def Let_def snap Cache_Stats_def entries bytes size metric_value reg
        Registry_Count_def flip: hits_def misses_def)
  moreover have "StartMetrics enabled [(True, sv)] = (if enabled then collect_metrics sv else [])"
    by (simp add: StartMetrics_def collect_metrics_def ReportMetric_def Let_def)
  ultimately show ?thesis by (simp only: hits_def misses_def) simp
qed

theorem reported_metrics_witness:
  "map mp_value (StartMetrics True [(True, sample_node)]) = [0, 0, 0, 0, 0]"
proof -
  have start: "(server_step (sample_server_env sample_reply))\<^sup>*\<^sup>* sample_node sample_node" by simp
  have new: "Server_New (se_x (sample_server_env sample_reply)) (\<lambda>_. None) (\<lambda>_. None)
      \<lparr>d_file = None, d_tmp = None\<rparr> NotExist NotExist None sample_cfg 0 0 = Inr sample_node"
    using sample_node_new by simp
  have parts: "px_metrics (sv_proxy sample_node) = zero_metrics"
    "\<And>i. s_lru (c_shards (px_cache (sv_proxy sample_node)) i) = []"
    by (simp_all add: sample_node_def Server_New_def Guard_New_def NewRegistry_def Let_def Proxy_New_def
        Cache_New_def empty_shard_def)
  have none: "concat (map (\<lambda>i. []) xs) = ([] :: entry list)" for xs :: "nat list"
    by (induction xs) simp_all
  show ?thesis
    using reported_metrics [OF new start refl, of True] by (simp add: none parts zero_metrics_def sample_node_parts)
qed

end
