(* ===== verification/MetricsProps.thy ===== *)
theory MetricsProps
  imports ServerProps
begin

text \<open>
  The request counters (\<open>internal/metrics\<close>) as the handlers maintain them: every request that
  reaches the proxy moves exactly the counters of its outcome.
\<close>

section \<open>What a request adds\<close>

definition count_request :: "metrics \<Rightarrow> metrics" where
  "count_request m = m\<lparr>m_ProxyRequests := m_ProxyRequests m + 1\<rparr>"

text \<open>An answer from the cache, counted once more when it is a 304.\<close>

definition count_cached :: "(string \<Rightarrow> time option) \<Rightarrow> request \<Rightarrow> object \<Rightarrow> metrics \<Rightarrow> metrics" where
  "count_cached parseTime r obj m =
     (if notModified parseTime r obj then m\<lparr>m_NotModified := m_NotModified m + 1\<rparr> else m)"

lemma serveCached_metrics:
  "px_metrics (fst (serveCached e now w r obj status p)) = count_cached (e_parseTime e) r obj (px_metrics p)"
  by (simp add: serveCached_def count_cached_def Let_def)

lemma revalidate_metrics [simp]: "px_metrics (revalidate key r snap enc p) = px_metrics p"
  by (simp add: revalidate_def)

lemma serve_miss_metrics:
  assumes "Proxy_ServeHTTP e clk w r snap p = (p', w', panic)" and "uses_cache r snap"
    and "Cache_Get (px_cache p) (request_key e r snap) (clk 0) = Some (c, None, f)"
  shows "px_metrics p' = (count_request (px_metrics p))\<lparr>m_CacheMisses := m_CacheMisses (px_metrics p) + 1\<rparr>"
  using assms
  by (auto simp: Proxy_ServeHTTP_def Let_def uses_cache_def request_key_def count_request_def
      split: prod.splits rwriter.splits option.splits if_splits)

lemma serve_fresh_metrics:
  assumes "Proxy_ServeHTTP e clk w r snap p = (p', w', panic)" and "uses_cache r snap"
    and "Cache_Get (px_cache p) (request_key e r snap) (clk 0) = Some (c, Some obj, Fresh)"
  shows "px_metrics p' = count_cached (e_parseTime e) r obj
    ((count_request (px_metrics p))\<lparr>m_CacheHits := m_CacheHits (px_metrics p) + 1\<rparr>)"
  using serve_fresh [where clk = clk and w = w, OF assms(2,3)] assms(1)
  by (auto simp: count_request_def case_prod_unfold Let_def serveCached_metrics)

lemma serve_stale_metrics:
  assumes "Proxy_ServeHTTP e clk w r snap p = (p', w', panic)" and "uses_cache r snap"
    and "Cache_Get (px_cache p) (request_key e r snap) (clk 0) = Some (c, Some obj, Stale)"
  shows "px_metrics p' = count_cached (e_parseTime e) r obj
    ((count_request (px_metrics p))\<lparr>m_CacheStales := m_CacheStales (px_metrics p) + 1\<rparr>)"
  using serve_stale [where clk = clk and w = w, OF assms(2,3)] assms(1)
  by (auto simp: count_request_def case_prod_unfold Let_def serveCached_metrics)

text \<open>
  C37. What a request adds to the counters, exactly: it is one more request, and it is counted as one
  websocket, or one bypass, or, by what the cache holds for its key, as one hit, one stale hit or one
  miss; a hit answered 304 is counted as such too. A websocket refused by the settings of the domain
  is counted as a request only. Nothing else moves.
\<close>

theorem proxy_requests_counted:
  assumes "Proxy_ServeHTTP e clk w r snap p = (p', w', panic)" and "cache_wf (px_cache p)"
    and "cache_valid_key (request_key e r snap)" and "m = px_metrics p"
  shows "px_metrics p' =
    (if isUpgrade r then
       (if cfg_websocket (sn_settings snap)
        then (count_request m)\<lparr>m_WebSocketUpgrades := m_WebSocketUpgrades m + 1\<rparr>
        else count_request m)
     else if \<not> CacheableRequest (Settings_Policy (sn_settings snap)) (rq_method r) (rq_header r) then
       (count_request m)\<lparr>m_CacheBypass := m_CacheBypass m + 1\<rparr>
     else (case lookup_result (peek (px_cache p) (request_key e r snap)) (clk 0) of
         (Some obj, Fresh) \<Rightarrow>
           count_cached (e_parseTime e) r obj ((count_request m)\<lparr>m_CacheHits := m_CacheHits m + 1\<rparr>)
       | (Some obj, Stale) \<Rightarrow>
           count_cached (e_parseTime e) r obj ((count_request m)\<lparr>m_CacheStales := m_CacheStales m + 1\<rparr>)
       | _ \<Rightarrow> (count_request m)\<lparr>m_CacheMisses := m_CacheMisses m + 1\<rparr>))"
proof (cases "uses_cache r snap")
  case False
  then show ?thesis
    using assms(1,4)
    by (auto simp: Proxy_ServeHTTP_def Let_def uses_cache_def count_request_def split: prod.splits if_splits)
next
  case use: True
  then have plain: "\<not> isUpgrade r" "CacheableRequest (Settings_Policy (sn_settings snap)) (rq_method r) (rq_header r)"
    by (simp_all add: uses_cache_def)
  obtain c x f where get: "Cache_Get (px_cache p) (request_key e r snap) (clk 0) = Some (c, x, f)"
    using obj_cache.get_total [OF assms(2,3), of "clk 0"] by (cases "Cache_Get (px_cache p) (request_key e r snap) (clk 0)") auto
  note res = Get_peek(1) [OF assms(2) get, symmetric]
  show ?thesis
  proof (cases rule: Cache_Get_shape [OF assms(2) get])
    case 1
    then show ?thesis using serve_miss_metrics [OF assms(1) use] get plain res assms(4) by simp
  next
    case (2 obj)
    then show ?thesis using serve_fresh_metrics [OF assms(1) use] get plain res assms(4) by simp
  next
    case (3 obj)
    then show ?thesis using serve_stale_metrics [OF assms(1) use] get plain res assms(4) by simp
  qed
qed

theorem proxy_requests_counted_witness:
  "px_metrics (fst (Proxy_ServeHTTP (sample_env sample_reply) int new_writer
     (sample_request ''GET'') sample_snap sample_proxy)) =
   zero_metrics\<lparr>m_ProxyRequests := 1, m_CacheMisses := 1\<rparr>"
proof -
  obtain p' w' panic where run: "Proxy_ServeHTTP (sample_env sample_reply) int new_writer
      (sample_request ''GET'') sample_snap sample_proxy = (p', w', panic)" by (metis prod.collapse)
  have "px_metrics sample_proxy = zero_metrics" by (simp add: sample_proxy_def Proxy_New_def)
  moreover have "\<not> isUpgrade (sample_request ''GET'')"
    "CacheableRequest (Settings_Policy (sn_settings sample_snap)) (rq_method (sample_request ''GET'')) (rq_header (sample_request ''GET''))"
    using sample_uses_cache(1) by (simp_all add: uses_cache_def)
  ultimately show ?thesis
    using proxy_requests_counted [OF run sample_proxy_simps(1) sample_key_ok refl]
    by (simp add: run lookup_result_simps count_request_def zero_metrics_def)
qed

end
