(* ===== verification/ViewText.thy ===== *)
theory ViewText
  imports Prelude
begin

text \<open>
  The static texts of the pages (\<open>internal/web/views/*_templ.go\<close>), numbered as in the calls of
  \<open>templruntime.WriteString\<close>: markup, the style sheet and the scripts, byte for byte.
\<close>

text \<open>Texts of several lines: each line with its number of tabs, joined by newlines.\<close>

definition text_line :: "nat \<times> string \<Rightarrow> string" where
  "text_line = (\<lambda>(n, s). replicate n (CHR 0x09) @ s)"

fun text_lines :: "(nat \<times> string) list \<Rightarrow> string" where
  "text_lines [] = []"
| "text_lines [l] = text_line l"
| "text_lines (l # m # ls) = text_line l @ CHR 0x0A # text_lines (m # ls)"

section \<open>\<open>layout_templ.go\<close>\<close>

definition layout_text1 :: string where
  "layout_text1 = concat
    [''<!doctype html><html lang=\"en\"><head><meta charset=\"utf-8\"><meta name=\"viewport\" '',
     ''content=\"width=device-width, initial-scale=1\">'']"

definition layout_text2 :: string where
  "layout_text2 = ''<meta http-equiv=\"refresh\" content=\"15\">''"

definition layout_text3 :: string where
  "layout_text3 = ''<title>''"

definition layout_text4 :: string where
  "layout_text4 = text_lines
    [(0, concat [''</title><link rel=\"icon\" href=\"/favicon.ico\" sizes=\"any\"><link rel=\"apple-touch-icon\" '',
        ''href=\"/apple-touch-icon.png\"><style>'']),
     (4, '':root {''),
     (5, ''--ink: #1a1a1a;''),
     (5, ''--muted: #6b6b6b;''),
     (5, ''--line: #e4e4e4;''),
     (5, ''--paper: #fafafa;''),
     (5, ''--accent: #0b7a4b;''),
     (4, ''}''),
     (4, ''* { box-sizing: border-box; margin: 0; padding: 0; }''),
     (4, ''body {''),
     (5, ''font: 16px/1.65 system-ui, -apple-system, \"Segoe UI\", sans-serif;''),
     (5, ''color: var(--ink);''),
     (5, ''background: var(--paper);''),
     (5, ''transition: background 0.35s ease;''),
     (4, ''}''),
     (4, ''/* Image CDN mode: switching tabs re-themes the whole page. */''),
     (4, ''body:has(#tab-img:checked) {''),
     (5, ''--paper: #eef4f6;''),
     (5, ''--accent: #0b5d7a;''),
     (5, ''background: var(--paper);''),
     (4, ''}''),
     (4, ''.tab-input { display: none; }''),
     (4, ''.tabs { display: flex; gap: 0.5rem; margin-bottom: 2.25rem; }''),
     (4, ''.tabs label {''),
     (5, ''cursor: pointer;''),
     (5, ''padding: 0.4rem 1.15rem;''),
     (5, ''border: 1px solid var(--line);''),
     (5, ''border-radius: 999px;''),
     (5, ''font-size: 0.9rem;''),
     (5, ''color: var(--muted);''),
     (5, ''background: #fff;''),
     (5, ''transition: color 0.15s ease, border-color 0.15s ease;''),
     (4, ''}''),
     (4, ''body:has(#tab-site:checked) label[for=\"tab-site\"],''),
     (4, ''body:has(#tab-img:checked) label[for=\"tab-img\"] {''),
     (5, ''color: var(--accent);''),
     (5, ''border-color: var(--accent);''),
     (5, ''font-weight: 600;''),
     (4, ''}''),
     (4, ''/* Site pane shows by default so browsers without :has() still''),
     (4, ''   get the full onboarding page. */''),
     (4, ''.pane-img { display: none; }''),
     (4, ''body:has(#tab-img:checked) .pane-site { display: none; }''),
     (4, ''body:has(#tab-img:checked) .pane-img { display: block; }''),
     (4, ''.builder {''),
     (5, ''background: #fff;''),
     (5, ''border: 1px solid var(--line);''),
     (5, ''border-radius: 8px;''),
     (5, ''padding: 1.25rem 1.5rem 1.5rem;''),
     (5, ''margin: 1rem 0;''),
     (4, ''}''),
     (4, concat [''.builder label { display: block; font-size: 0.85rem; color: var(--muted); margin: '',
        ''0.75rem 0 0.25rem; }'']),
     (4, ''.builder input, .builder select {''),
     (5, ''width: 100%;''),
     (5, ''padding: 0.5rem 0.65rem;''),
     (5, ''border: 1px solid var(--line);''),
     (5, ''border-radius: 6px;''),
     (5, ''font: 0.88rem/1.4 ui-monospace, \"SF Mono\", Menlo, Consolas, monospace;''),
     (5, ''background: var(--paper);''),
     (5, ''color: var(--ink);''),
     (4, ''}''),
     (4, ''.builder .row { display: flex; gap: 0.75rem; }''),
     (4, ''.builder .row > div { flex: 1; }''),
     (4, ''.builder .out {''),
     (5, ''margin-top: 1rem;''),
     (5, ''word-break: break-all;''),
     (5, ''background: var(--paper);''),
     (5, ''border: 1px solid var(--line);''),
     (5, ''border-radius: 6px;''),
     (5, ''padding: 0.75rem 0.9rem;''),
     (5, ''font: 0.85rem/1.5 ui-monospace, \"SF Mono\", Menlo, Consolas, monospace;''),
     (5, ''color: var(--accent);''),
     (5, ''min-height: 2.9rem;''),
     (4, ''}''),
     (4, ''.builder img.preview {''),
     (5, ''display: none;''),
     (5, ''max-width: 100%;''),
     (5, ''margin-top: 1rem;''),
     (5, ''border: 1px solid var(--line);''),
     (5, ''border-radius: 6px;''),
     (4, ''}''),
     (4, concat [''main { max-width: 680px; margin: 0 auto; padding: 4rem 1.25rem 6rem; position: '',
        ''relative; z-index: 1; }'']),
     (4, ''/* Mascot art anchored to the viewport edge, in the dead space''),
     (4, ''   beside the text column. Only shown once that space is wide''),
     (4, ''   enough to fit it without ever overlapping content. */''),
     (4, ''.mascot-bg {''),
     (5, ''position: fixed;''),
     (5, ''right: 1.5vw;''),
     (5, ''bottom: 0;''),
     (5, ''width: 300px;''),
     (5, ''pointer-events: none;''),
     (5, ''user-select: none;''),
     (5, ''z-index: 0;''),
     (5, ''filter: drop-shadow(0 16px 28px rgba(11, 93, 122, 0.16));''),
     (4, ''}''),
     (4, ''@media (max-width: 1320px) {''),
     (5, ''.mascot-bg { display: none; }''),
     (4, ''}''),
     (4, ''h1 { font-size: 1.6rem; letter-spacing: -0.02em; }''),
     (4, ''h1 span { color: var(--accent); }''),
     (4, ''h2 { font-size: 1.05rem; margin: 2.5rem 0 0.75rem; }''),
     (4, ''p { margin: 0.75rem 0; }''),
     (4, ''p.lead { color: var(--muted); margin-top: 0.5rem; }''),
     (4, ''ol.steps { margin: 1rem 0 0 1.25rem; }''),
     (4, ''ol.steps li { margin: 1.25rem 0; }''),
     (4, ''ol.steps li strong { display: block; }''),
     (4, ''code, pre {''),
     (5, ''font: 0.85rem/1.6 ui-monospace, \"SF Mono\", Menlo, Consolas, monospace;''),
     (4, ''}''),
     (4, ''code {''),
     (5, ''background: #fff;''),
     (5, ''border: 1px solid var(--line);''),
     (5, ''border-radius: 4px;''),
     (5, ''padding: 0.1rem 0.35rem;''),
     (4, ''}''),
     (4, ''pre.record {''),
     (5, ''background: #fff;''),
     (5, ''border: 1px solid var(--line);''),
     (5, ''border-radius: 6px;''),
     (5, ''padding: 1rem 1.25rem;''),
     (5, ''margin: 0.75rem 0;''),
     (5, ''overflow-x: auto;''),
     (4, ''}''),
     (4, ''pre.record b { color: var(--accent); font-weight: 600; }''),
     (4, ''table { border-collapse: collapse; width: 100%; margin: 0.75rem 0; font-size: 0.9rem; }''),
     (4, concat [''th, td { text-align: left; padding: 0.5rem 0.75rem; border-bottom: 1px solid '',
        ''var(--line); }'']),
     (4, ''th { color: var(--muted); font-weight: 500; }''),
     (4, ''td code { border: none; padding: 0; }''),
     (4, ''.badge {''),
     (5, ''display: inline-block;''),
     (5, ''font-size: 0.75rem;''),
     (5, ''font-weight: 600;''),
     (5, ''text-transform: uppercase;''),
     (5, ''letter-spacing: 0.06em;''),
     (5, ''color: var(--accent);''),
     (5, ''border: 1px solid var(--accent);''),
     (5, ''border-radius: 999px;''),
     (5, ''padding: 0.15rem 0.6rem;''),
     (5, ''margin-bottom: 1rem;''),
     (4, ''}''),
     (4, ''.muted { color: var(--muted); font-size: 0.9rem; }''),
     (4, ''.notice {''),
     (5, ''background: #fff;''),
     (5, ''border: 1px solid var(--line);''),
     (5, ''border-left: 3px solid var(--accent);''),
     (5, ''border-radius: 6px;''),
     (5, ''padding: 0.85rem 1.1rem;''),
     (5, ''margin: 1rem 0;''),
     (5, ''font-size: 0.9rem;''),
     (4, ''}''),
     (4, ''.notice strong { color: var(--accent); }''),
     (4, ''.results {''),
     (5, ''background: #fff;''),
     (5, ''border: 1px solid var(--line);''),
     (5, ''border-radius: 8px;''),
     (5, ''padding: 1.25rem 1.5rem 1.5rem;''),
     (5, ''margin: 1.5rem 0 0;''),
     (4, ''}''),
     (4, ''.results-title { font-size: 1rem; font-weight: 500; margin: 0 0 0.75rem; }''),
     (4, ''.results-title b { color: var(--accent); }''),
     (4, ''.results table { margin: 0 0 0.75rem; }''),
     (4, ''.results td strong { color: var(--accent); }''),
     (4, ''.results .muted { margin: 0.5rem 0 0; }''),
     (4, ''.results img.example {''),
     (5, ''display: block;''),
     (5, ''width: 100%;''),
     (5, ''max-width: 100%;''),
     (5, ''height: auto;''),
     (5, ''margin-bottom: 1rem;''),
     (5, ''border: 1px solid var(--line);''),
     (5, ''border-radius: 6px;''),
     (4, ''}''),
     (4, ''.results pre.record { margin-top: 1rem; }''),
     (4, ''footer { margin-top: 4rem; padding-top: 1rem; border-top: 1px solid var(--line); }''),
     (4, ''footer p { color: var(--muted); font-size: 0.85rem; }''),
     (4, ''a { color: var(--accent); }''),
     (4, ''/* ---- live metrics dashboard ---- */''),
     (4, ''.dash {''),
     (5, ''margin: 3.5rem 0 0;''),
     (5, ''background: #111113;''),
     (5, ''border-radius: 12px;''),
     (5, ''padding: 1.75rem 2rem 2rem;''),
     (5, ''color: #e4e4e7;''),
     (5, ''box-shadow: 0 8px 32px rgba(0,0,0,0.18);''),
     (4, ''}''),
     (4, ''body:has(#tab-img:checked) .dash {''),
     (5, ''background: #0c1a20;''),
     (5, ''box-shadow: 0 8px 32px rgba(11,93,122,0.15);''),
     (4, ''}''),
     (4, ''.dash-head {''),
     (5, ''display: flex;''),
     (5, ''justify-content: space-between;''),
     (5, ''align-items: center;''),
     (5, ''margin-bottom: 1.5rem;''),
     (5, ''padding-bottom: 1rem;''),
     (5, ''border-bottom: 1px solid #27272a;''),
     (4, ''}''),
     (4, ''.dash-title {''),
     (5, ''font-size: 0.8rem;''),
     (5, ''font-weight: 600;''),
     (5, ''text-transform: uppercase;''),
     (5, ''letter-spacing: 0.08em;''),
     (5, ''color: #a1a1aa;''),
     (4, ''}''),
     (4, ''.dash-status {''),
     (5, ''font-size: 0.75rem;''),
     (5, ''color: #71717a;''),
     (5, ''display: flex;''),
     (5, ''align-items: center;''),
     (5, ''gap: 0.4rem;''),
     (4, ''}''),
     (4, ''.dash-dot {''),
     (5, ''display: inline-block;''),
     (5, ''width: 7px;''),
     (5, ''height: 7px;''),
     (5, ''border-radius: 50%;''),
     (5, ''background: #52525b;''),
     (4, ''}''),
     (4, ''.dash-dot.live {''),
     (5, ''background: #22c55e;''),
     (5, ''box-shadow: 0 0 6px rgba(34,197,94,0.5);''),
     (5, ''animation: pulse 2s ease-in-out infinite;''),
     (4, ''}''),
     (4, ''@keyframes pulse {''),
     (5, ''0%, 100% { opacity: 1; }''),
     (5, ''50% { opacity: 0.5; }''),
     (4, ''}''),
     (4, ''.dash-grid {''),
     (5, ''display: grid;''),
     (5, ''grid-template-columns: repeat(auto-fill, minmax(130px, 1fr));''),
     (5, ''gap: 1px;''),
     (5, ''background: #27272a;''),
     (5, ''border-radius: 8px;''),
     (5, ''overflow: hidden;''),
     (4, ''}''),
     (4, ''.dash-card {''),
     (5, ''background: #18181b;''),
     (5, ''padding: 1.1rem 1rem;''),
     (5, ''display: flex;''),
     (5, ''flex-direction: column;''),
     (5, ''gap: 0.35rem;''),
     (4, ''}''),
     (4, ''body:has(#tab-img:checked) .dash-card {''),
     (5, ''background: #0f2028;''),
     (4, ''}''),
     (4, ''.dash-card.accent .dash-val {''),
     (5, ''color: #4ade80;''),
     (4, ''}''),
     (4, ''body:has(#tab-img:checked) .dash-card.accent .dash-val {''),
     (5, ''color: #38bdf8;''),
     (4, ''}''),
     (4, ''.dash-val {''),
     (5, ''font-size: 1.5rem;''),
     (5, ''font-weight: 700;''),
     (5, ''font-variant-numeric: tabular-nums;''),
     (5, ''letter-spacing: -0.02em;''),
     (5, ''color: #fafafa;''),
     (5, ''line-height: 1.2;''),
     (4, ''}''),
     (4, ''.dash-lbl {''),
     (5, ''font-size: 0.7rem;''),
     (5, ''font-weight: 500;''),
     (5, ''text-transform: uppercase;''),
     (5, ''letter-spacing: 0.05em;''),
     (5, ''color: #71717a;''),
     (4, ''}''),
     (4, ''.dash-divider {''),
     (5, ''grid-column: 1 / -1;''),
     (5, ''height: 0;''),
     (4, ''}''),
     (4, ''.dash-card.wide {''),
     (5, ''/* wide cards fill more columns on larger screens */''),
     (4, ''}''),
     (4, ''@media (min-width: 640px) {''),
     (5, ''.dash-grid {''),
     (6, ''grid-template-columns: repeat(4, 1fr);''),
     (5, ''}''),
     (4, ''}''),
     (4, ''@media (max-width: 639px) {''),
     (5, ''.dash { padding: 1.25rem 1rem 1.5rem; }''),
     (5, ''.dash-grid {''),
     (6, ''grid-template-columns: repeat(3, 1fr);''),
     (5, ''}''),
     (5, ''.dash-val { font-size: 1.2rem; }''),
     (4, ''}''),
     (4, ''@media (prefers-reduced-motion: reduce) {''),
     (5, ''*, *::before, *::after {''),
     (6, ''animation-duration: 0.01ms !important;''),
     (6, ''animation-iteration-count: 1 !important;''),
     (6, ''transition-duration: 0.01ms !important;''),
     (5, ''}''),
     (4, ''}''),
     (0, []),
     (3, ''</style></head><body><main>'')]"

definition layout_text5 :: string where
  "layout_text5 = concat
    [''<footer><p>Powered by <a href=\"https://github.com/hubfly-space/hubcdn\">hubCDN</a> - the '',
     ''self-hosted CDN configured entirely through DNS.</p></footer></main></body></html>'']"

section \<open>\<open>landing_templ.go\<close>\<close>

definition landing_text1 :: string where
  "landing_text1 = concat
    [''<input class=\"tab-input\" type=\"radio\" name=\"mode\" id=\"tab-site\" checked> <input '',
     ''class=\"tab-input\" type=\"radio\" name=\"mode\" id=\"tab-img\"><div class=\"tabs\"><label '',
     ''for=\"tab-site\">Site CDN</label> <label for=\"tab-img\">Image CDN</label></div><section '',
     ''class=\"pane pane-site\">'']"

definition landing_text2 :: string where
  "landing_text2 = ''</section><section class=\"pane pane-img\">''"

definition landing_text3 :: string where
  "landing_text3 = ''</section>''"

definition landing_text4 :: string where
  "landing_text4 = concat
    [''<div class=\"badge\">hubCDN node</div><h1>Put your domain behind <span>hubCDN</span></h1>'',
     ''<p class=\"lead\">No signup, no dashboard. Everything is configured with two DNS '',
     ''records.</p><ol class=\"steps\"><li><strong>Point your domain at this node</strong> '']"

definition landing_text5 :: string where
  "landing_text5 = concat
    [''<p>Add a CNAME (or ALIAS at the apex) to:</p><pre class=\"record\">www.your-domain.com    '',
     ''CNAME    <b>'']"

definition landing_text6 :: string where
  "landing_text6 = ''</b></pre>''"

definition landing_text7 :: string where
  "landing_text7 = ''<p>''"

definition landing_text8 :: string where
  "landing_text8 = ''Or point A/AAAA records directly at:''"

definition landing_text9 :: string where
  "landing_text9 = ''Add A/AAAA records pointing at:''"

definition landing_text10 :: string where
  "landing_text10 = ''</p><pre class=\"record\">''"

definition landing_text11 :: string where
  "landing_text11 = ''your-domain.com    A/AAAA    <b>''"

definition landing_text12 :: string where
  "landing_text12 = ''</b> ''"

definition landing_text13 :: string where
  "landing_text13 = ''</pre>''"

definition landing_text14 :: string where
  "landing_text14 = concat
    [''</li><li><strong>Open your domain in a browser</strong><p>Once DNS propagates, hubCDN '',
     ''issues a TLS certificate for your domain automatically and shows a setup page with your '',
     ''next step.</p></li><li><strong>Declare your origin in a TXT record</strong><p>Tell '',
     ''hubCDN where your actual server lives:</p><pre class=\"record\">'',
     ''hubcdn.v1.origin.your-domain.com    TXT    <b>\"https://origin.your-server.com\"</b></pre>'',
     ''<p>That\\'s it. Traffic now flows through this node with caching and automatic '',
     ''certificate renewal.</p></li></ol><h2>Optional: tune caching with one more TXT '',
     ''record</h2><pre class=\"record\">hubcdn.v1.config.your-domain.com    TXT    <b>'',
     ''\"cache=aggressive; ttl=6h; websocket=on\"</b></pre>'']"

definition landing_text15 :: string where
  "landing_text15 = text_lines
    [(0, concat [''<img class=\"mascot-bg\" src=\"/assets/mascot.webp\" alt=\"\" aria-hidden=\"true\"><div '',
        ''class=\"badge\">direct caching - no DNS needed</div><h1>Optimize any image through <span>'',
        ''hubCDN</span></h1><p class=\"lead\">Wrap any public image URL and get back a compressed, '',
        ''resized, edge-cached copy. No DNS changes, no signup - just a URL.</p><h2>URL '',
        ''format</h2><pre class=\"record\">/img/<b>&lt;options&gt;</b>/<b>&lt;image-url&gt;</b>'',
        ''</pre><pre class=\"record\">/img/<b>w=800,q=75,f=jpeg</b>'',
        ''/https://your-site.com/photo.jpg</pre><p>Options are comma-separated <code>'',
        ''key=value</code> pairs. A single <code>_</code> applies the defaults: re-encode at '',
        ''quality 80 with metadata stripped.</p><h2>Try it</h2><div class=\"builder\"><label '',
        ''for=\"b-src\">Image URL</label> <input type=\"text\" id=\"b-src\" '',
        ''placeholder=\"https://your-site.com/photo.jpg\" autocomplete=\"off\"><div class=\"row\"><div>'',
        ''<label for=\"b-w\">Width (px)</label> <input type=\"number\" id=\"b-w\" min=\"1\" max=\"4096\" '',
        ''placeholder=\"auto\"></div><div><label for=\"b-q\">Quality (1'',
        [CHR 0xE2, CHR 0x80, CHR 0x93],
        ''100)</label> <input type=\"number\" id=\"b-q\" min=\"1\" max=\"100\" placeholder=\"80\"></div>'',
        ''<div><label for=\"b-f\">Format</label> <select id=\"b-f\"><option value=\"\">auto</option> '',
        ''<option value=\"jpeg\">jpeg</option> <option value=\"png\">png</option> <option value=\"gif\">'',
        ''gif</option></select></div></div><div class=\"out\" id=\"b-out\">Your optimized URL appears '',
        ''here.</div><img class=\"preview\" id=\"b-prev\" alt=\"optimized preview\" loading=\"lazy\">'',
        ''</div><script>'']),
     (2, ''(function () {''),
     (3, ''var src = document.getElementById(\\'b-src\\');''),
     (3, ''var wIn = document.getElementById(\\'b-w\\');''),
     (3, ''var qIn = document.getElementById(\\'b-q\\');''),
     (3, ''var fIn = document.getElementById(\\'b-f\\');''),
     (3, ''var out = document.getElementById(\\'b-out\\');''),
     (3, ''var prev = document.getElementById(\\'b-prev\\');''),
     (3, ''function build() {''),
     (4, ''var u = src.value.trim();''),
     (4, ''if (!u) {''),
     (5, ''out.textContent = \\'Your optimized URL appears here.\\';''),
     (5, ''prev.style.display = \\'none\\';''),
     (5, ''return;''),
     (4, ''}''),
     (4, ''var opts = [];''),
     (4, ''if (wIn.value) opts.push(\\'w=\\' + wIn.value);''),
     (4, ''if (qIn.value) opts.push(\\'q=\\' + qIn.value);''),
     (4, ''if (fIn.value) opts.push(\\'f=\\' + fIn.value);''),
     (4, ''var full = location.origin + \\'/img/\\' + (opts.length ? opts.join(\\',\\') : \\'_\\') + \\'/\\' + u;''),
     (4, ''out.textContent = full;''),
     (4, ''prev.src = full;''),
     (4, ''prev.style.display = \\'block\\';''),
     (3, ''}''),
     (3, ''[src, wIn, qIn, fIn].forEach(function (el) {''),
     (4, ''el.addEventListener(\\'input\\', build);''),
     (4, ''el.addEventListener(\\'change\\', build);''),
     (3, ''});''),
     (2, ''})();''),
     (1, concat [''</script><h2>All options</h2><table><tr><th>Key</th><th>Values</th><th>Effect</th></tr>'',
        ''<tr><td><code>w</code>, <code>h</code></td><td>1'',
        [CHR 0xE2, CHR 0x80, CHR 0x93],
        ''4096</td><td>Resize; one dimension keeps aspect ratio</td></tr><tr><td><code>fit</code>'',
        ''</td><td><code>scaledown</code> '',
        [CHR 0xC2, CHR 0xB7],
        '' <code>contain</code> '',
        [CHR 0xC2, CHR 0xB7],
        '' <code>cover</code> '',
        [CHR 0xC2, CHR 0xB7],
        '' <code>fill</code></td><td>How the image maps into w'',
        [CHR 0xC3, CHR 0x97],
        ''h (<code>cover</code> center-crops)</td></tr><tr><td><code>dpr</code></td><td>0.5'',
        [CHR 0xE2, CHR 0x80, CHR 0x93],
        ''3</td><td>Device pixel ratio multiplier for w/h</td></tr><tr><td><code>q</code></td><td>'',
        ''1'',
        [CHR 0xE2, CHR 0x80, CHR 0x93],
        ''100</td><td>JPEG quality (default 80)</td></tr><tr><td><code>f</code></td><td><code>'',
        ''auto</code> '',
        [CHR 0xC2, CHR 0xB7],
        '' <code>jpeg</code> '',
        [CHR 0xC2, CHR 0xB7],
        '' <code>png</code> '',
        [CHR 0xC2, CHR 0xB7],
        '' <code>gif</code></td><td>Output format; <code>auto</code> keeps transparency in '',
        ''PNG</td></tr><tr><td><code>gray</code></td><td><code>on</code></td><td>Grayscale</td>'',
        ''</tr><tr><td><code>blur</code></td><td>1'',
        [CHR 0xE2, CHR 0x80, CHR 0x93],
        ''50</td><td>Blur radius</td></tr><tr><td><code>flip</code></td><td><code>h</code> '',
        [CHR 0xC2, CHR 0xB7],
        '' <code>v</code> '',
        [CHR 0xC2, CHR 0xB7],
        '' <code>hv</code></td><td>Mirror horizontally / vertically</td></tr><tr><td><code>'',
        ''_</code></td><td>-</td><td>No options: just compress &amp; strip metadata</td></tr>'',
        ''</table><div class=\"notice\"><strong>Retention:</strong> optimized images stay cached '',
        ''for up to 7&nbsp;days. When the node fills up, the least-recently-used images are '',
        ''purged automatically and simply re-optimized on their next request - so hotlinking '',
        ''these URLs is always safe. Animated GIFs are passed through untouched.</div>''])]"

definition landing_text16 :: string where
  "landing_text16 = concat
    [''<div class=\"results\"><p class=\"results-title\">Real example: <b>110x smaller</b>, '',
     ''automatically</p><img class=\"example\" src=\"'']"

definition landing_text17 :: string where
  "landing_text17 = concat
    [''\" alt=\"Photo optimized live through hubCDN\\'s image endpoint\" loading=\"lazy\"><table><tr>'',
     ''<th>Metric</th><th>Original</th><th>Through hubCDN</th></tr><tr><td>File size</td><td>'',
     ''3.7 MB</td><td><strong>34 KB</strong></td></tr><tr><td>Dimensions</td><td>6000'',
     [CHR 0xC3, CHR 0x97],
     ''4000</td><td><strong>600'',
     [CHR 0xC3, CHR 0x97],
     ''400</strong></td></tr><tr><td>Format</td><td>JPEG, untouched</td><td>JPEG, quality 80, '',
     ''no metadata</td></tr></table><p class=\"muted\">That preview above is this exact photo, '',
     ''live, resized with <code>w=600</code> - <strong>99% smaller (110x)</strong>. Even with '',
     ''zero options at all (<code>/img/_/&lt;url&gt;</code>), just the default 2048px cap and '',
     ''re-encode alone takes it from 3.7&nbsp;MB down to <strong>247&nbsp;KB</strong> - a 93% '',
     ''reduction - with no configuration whatsoever.</p><p class=\"muted\">The first request '',
     ''pays a one-time cost to fetch and optimize the source (a few seconds, since this source '',
     ''is large); every request after that is served instantly from cache.</p><p class=\"muted\">'',
     ''Test it yourself - open either link directly:</p><pre class=\"record\">Original:  <a '',
     ''href=\"'']"

definition landing_text18 :: string where
  "landing_text18 = ''\" target=\"_blank\" rel=\"noopener\">''"

definition landing_text19 :: string where
  "landing_text19 = ''</a></pre><pre class=\"record\">Optimized: <a href=\"''"

definition landing_text20 :: string where
  "landing_text20 = ''\" target=\"_blank\" rel=\"noopener\">''"

definition landing_text21 :: string where
  "landing_text21 = ''</a></pre></div>''"

definition landing_text22 :: string where
  "landing_text22 = concat
    [''<div class=\"results\"><p class=\"results-title\">Results: <b>dummy-web.uhost.pro</b> is '',
     ''faster</p><table><tr><th>Metric</th><th>dummy-web.uhost.pro</th><th>'',
     ''origin-dummy-web.uhost.pro</th></tr><tr><td>Avg. first byte (TTFB)</td><td><strong>'',
     ''0.595s</strong></td><td>1.153s</td></tr><tr><td>Avg. total time</td><td><strong>'',
     ''0.702s</strong></td><td>1.153s</td></tr><tr><td>Response size</td><td>12,881 bytes</td>'',
     ''<td>12,881 bytes</td></tr></table><p class=\"muted\"><b>dummy-web.uhost.pro</b> is '',
     ''<strong>~48% faster</strong> in time to first byte than the origin - served from '',
     ''hubCDN\\'s edge cache instead of round-tripping across continents on every request.</p>'',
     ''</div>'']"

definition landing_text23 :: string where
  "landing_text23 = concat
    [''<table><tr><th>Key</th><th>Values</th><th>Default</th></tr><tr><td><code>cache</code>'',
     ''</td><td><code>off</code> '',
     [CHR 0xC2, CHR 0xB7],
     '' <code>standard</code> '',
     [CHR 0xC2, CHR 0xB7],
     '' <code>aggressive</code></td><td><code>standard</code></td></tr><tr><td><code>ttl</code>'',
     ''</td><td>duration (<code>90s</code>, <code>6h</code>) or seconds</td><td><code>1h</code>'',
     ''</td></tr><tr><td><code>swr</code></td><td>serve-stale window '',
     [CHR 0xC2, CHR 0xB7],
     '' <code>0</code> = off</td><td><code>10m</code></td></tr><tr><td><code>websocket</code>'',
     ''</td><td><code>on</code> '',
     [CHR 0xC2, CHR 0xB7],
     '' <code>off</code></td><td><code>on</code></td></tr><tr><td><code>preserve_host</code>'',
     ''</td><td><code>on</code> '',
     [CHR 0xC2, CHR 0xB7],
     '' <code>off</code></td><td><code>on</code></td></tr><tr><td><code>max_object</code></td>'',
     ''<td>size (<code>16mb</code>)</td><td>node limit</td></tr></table><p class=\"muted\">'',
     ''Changes are picked up automatically on the next refresh cycle.</p>'']"

definition landing_text24 :: string where
  "landing_text24 = text_lines
    [(0, concat [''<div class=\"dash\" id=\"metrics-dash\"><div class=\"dash-head\"><div class=\"dash-title\">Live '',
        ''Metrics</div><div class=\"dash-status\" id=\"m-status\"><span class=\"dash-dot\"></span> '',
        ''connecting...</div></div><div class=\"dash-grid\"><div class=\"dash-card\"><div '',
        ''class=\"dash-val\" id=\"m-total\">-</div><div class=\"dash-lbl\">Total Requests</div></div>'',
        ''<div class=\"dash-card accent\"><div class=\"dash-val\" id=\"m-hits\">-</div><div '',
        ''class=\"dash-lbl\">Cache Hits</div></div><div class=\"dash-card\"><div class=\"dash-val\" '',
        ''id=\"m-stales\">-</div><div class=\"dash-lbl\">Stale Served</div></div><div '',
        ''class=\"dash-card\"><div class=\"dash-val\" id=\"m-misses\">-</div><div class=\"dash-lbl\">'',
        ''Cache Misses</div></div><div class=\"dash-card\"><div class=\"dash-val\" id=\"m-bypass\">'',
        ''-</div><div class=\"dash-lbl\">Bypass</div></div><div class=\"dash-card\"><div '',
        ''class=\"dash-val\" id=\"m-304\">-</div><div class=\"dash-lbl\">Not Modified</div></div><div '',
        ''class=\"dash-card\"><div class=\"dash-val\" id=\"m-ws\">-</div><div class=\"dash-lbl\">'',
        ''WebSocket</div></div><div class=\"dash-divider\"></div><div class=\"dash-card accent\"><div '',
        ''class=\"dash-val\" id=\"m-img-total\">-</div><div class=\"dash-lbl\">Image Requests</div>'',
        ''</div><div class=\"dash-card\"><div class=\"dash-val\" id=\"m-img-hits\">-</div><div '',
        ''class=\"dash-lbl\">Image Hits</div></div><div class=\"dash-card\"><div class=\"dash-val\" '',
        ''id=\"m-img-misses\">-</div><div class=\"dash-lbl\">Image Misses</div></div><div '',
        ''class=\"dash-divider\"></div><div class=\"dash-card wide\"><div class=\"dash-val\" '',
        ''id=\"m-entries\">-</div><div class=\"dash-lbl\">Cached Objects</div></div><div '',
        ''class=\"dash-card wide\"><div class=\"dash-val\" id=\"m-bytes\">-</div><div class=\"dash-lbl\">'',
        ''Cache Usage</div></div><div class=\"dash-card wide\"><div class=\"dash-val\" id=\"m-uptime\">'',
        ''-</div><div class=\"dash-lbl\">Uptime</div></div><div class=\"dash-card wide\"><div '',
        ''class=\"dash-val\" id=\"m-domains\">-</div><div class=\"dash-lbl\">Active Domains</div></div>'',
        ''</div></div><script>'']),
     (2, ''(function () {''),
     (3, ''var prev = {};''),
     (3, ''var els = {};''),
     (3, ''var ids = [''),
     (4, ''[\\'total\\',\\'m-total\\'],[\\'proxy_requests\\',\\'m-total\\'],''),
     (4, ''[\\'cache_hits\\',\\'m-hits\\'],[\\'cache_stales\\',\\'m-stales\\'],''),
     (4, ''[\\'cache_misses\\',\\'m-misses\\'],[\\'cache_bypass\\',\\'m-bypass\\'],''),
     (4, ''[\\'not_modified\\',\\'m-304\\'],[\\'websocket_upgrades\\',\\'m-ws\\'],''),
     (4, ''[\\'image_requests\\',\\'m-img-total\\'],''),
     (4, ''[\\'image_cache_hits\\',\\'m-img-hits\\'],''),
     (4, ''[\\'image_cache_misses\\',\\'m-img-misses\\']''),
     (3, ''];''),
     (3, ''function fmt(n) {''),
     (4, ''if (n >= 1e9) return (n/1e9).toFixed(1)+\\'B\\';''),
     (4, ''if (n >= 1e6) return (n/1e6).toFixed(1)+\\'M\\';''),
     (4, ''if (n >= 1e4) return (n/1e3).toFixed(1)+\\'K\\';''),
     (4, ''return n.toLocaleString();''),
     (3, ''}''),
     (3, ''function fmtBytes(b) {''),
     (4, ''if (b >= 1073741824) return (b/1073741824).toFixed(1)+\\' GB\\';''),
     (4, ''if (b >= 1048576) return (b/1048576).toFixed(1)+\\' MB\\';''),
     (4, ''if (b >= 1024) return (b/1024).toFixed(1)+\\' KB\\';''),
     (4, ''return b+\\' B\\';''),
     (3, ''}''),
     (3, ''function fmtUptime(s) {''),
     (4, ''var d=Math.floor(s/86400), h=Math.floor((s%86400)/3600),''),
     (4, ''    m=Math.floor((s%3600)/60);''),
     (4, ''if (d>0) return d+\\'d \\'+h+\\'h\\';''),
     (4, ''if (h>0) return h+\\'h \\'+m+\\'m\\';''),
     (4, ''return m+\\'m\\';''),
     (3, ''}''),
     (3, ''function set(id, val) {''),
     (4, ''var el = document.getElementById(id);''),
     (4, ''if (el && el.textContent !== val) el.textContent = val;''),
     (3, ''}''),
     (3, ''function tick() {''),
     (4, ''fetch(\\'/hubcdn/stats\\').then(function(r){return r.json()}).then(function(d){''),
     (5, ''var m = d.metrics || {};''),
     (5, ''var c = d.cache || {};''),
     (5, ''set(\\'m-total\\', fmt(m.total_requests||0));''),
     (5, ''set(\\'m-hits\\', fmt(m.cache_hits||0));''),
     (5, ''set(\\'m-stales\\', fmt(m.cache_stales||0));''),
     (5, ''set(\\'m-misses\\', fmt(m.cache_misses||0));''),
     (5, ''set(\\'m-bypass\\', fmt(m.cache_bypass||0));''),
     (5, ''set(\\'m-304\\', fmt(m.not_modified||0));''),
     (5, ''set(\\'m-ws\\', fmt(m.websocket_upgrades||0));''),
     (5, ''set(\\'m-img-total\\', fmt(m.image_requests||0));''),
     (5, ''set(\\'m-img-hits\\', fmt(m.image_cache_hits||0));''),
     (5, ''set(\\'m-img-misses\\', fmt(m.image_cache_misses||0));''),
     (5, ''set(\\'m-entries\\', fmt(c.entries||0));''),
     (5, ''set(\\'m-bytes\\', fmtBytes(c.bytes||0)+\\' / \\'+fmtBytes(c.budget||0));''),
     (5, ''set(\\'m-uptime\\', fmtUptime(d.uptime_seconds||0));''),
     (5, ''set(\\'m-domains\\', d.domains||0);''),
     (5, ''var st = document.getElementById(\\'m-status\\');''),
     (5, ''if (st) st.innerHTML = \\'<span class=\"dash-dot live\"></span> live\\';''),
     (4, ''}).catch(function(){''),
     (5, ''var st = document.getElementById(\\'m-status\\');''),
     (5, ''if (st) st.innerHTML = \\'<span class=\"dash-dot\"></span> offline\\';''),
     (4, ''});''),
     (3, ''}''),
     (3, ''tick();''),
     (3, ''setInterval(tick, 5000);''),
     (2, ''})();''),
     (1, ''</script>'')]"

section \<open>\<open>setup_templ.go\<close>\<close>

definition setup_text1 :: string where
  "setup_text1 = ''<div class=\"badge\">one step left</div><h1><span>''"

definition setup_text2 :: string where
  "setup_text2 = concat
    [''</span> is connected</h1><p class=\"lead\">DNS is pointing here and your TLS certificate '',
     ''is live. hubCDN just doesn\\'t know where your server is yet.</p><h2>Add your origin TXT '',
     ''record</h2><p>In your DNS provider, create this record:</p><pre class=\"record\">'']"

definition setup_text3 :: string where
  "setup_text3 = concat
    ['' TXT    <b>\"https://origin.your-server.com\"</b></pre><p>Replace the value with the '',
     ''address of your actual server - a full URL (<code>https://203.0.113.7</code>, <code>'',
     ''http://origin.example.com:8080</code>) or a bare hostname, which defaults to HTTPS.</p>'',
     ''<div class=\"notice\"><strong>Give it a few minutes.</strong> DNS changes aren\\'t instant '',
     ''- most providers apply a new TXT record within a few minutes, though it can '',
     ''occasionally take longer depending on your provider and the record\\'s TTL. There\\'s '',
     ''nothing else to do here: this page checks automatically every 15&nbsp;seconds and '',
     ''refreshes itself, so just leave it open, or come back and reload shortly.</div><h2>'',
     ''Optional: caching &amp; behavior</h2><p>Tune this domain with a second TXT record:</p>'',
     ''<pre class=\"record\">'']"

definition setup_text4 :: string where
  "setup_text4 = '' TXT    <b>\"cache=aggressive; ttl=6h\"</b></pre>''"

definition setup_text5 :: string where
  "setup_text5 = ''<div class=\"badge\">needs attention</div><h1>Can\\'t reach the configuration for <span>''"

definition setup_text6 :: string where
  "setup_text6 = concat
    [''</span></h1><p class=\"lead\">The origin record for this domain could not be resolved.</p>'',
     ''<pre class=\"record\">'']"

definition setup_text7 :: string where
  "setup_text7 = concat
    ['' TXT    <b>\"https://origin.your-server.com\"</b></pre><p>Last error:</p><pre '',
     ''class=\"record\">'']"

definition setup_text8 :: string where
  "setup_text8 = concat
    [''</pre><div class=\"notice\">If you just changed this record, this may just be DNS '',
     ''propagation - it isn\\'t always instant. hubCDN keeps retrying automatically, and this '',
     ''page refreshes on its own, so no action is needed yet.</div>'']"

end
