(* ===== verification/Views.thy ===== *)
theory Views
  imports ViewText
begin

text \<open>
  The generated views (\<open>internal/web/views/*_templ.go\<close>). A view runs on the state of the templ
  runtime and may end with an error at every write. The runtime is a parameter: getting and
  releasing the buffer, the two ways of writing to it, escaping, and the functions that prepare
  strings, attributes and URLs. The children of a context are passed as an argument.
\<close>

section \<open>The runtime and sequencing\<close>

record ('s, 'e) templ_runtime =
  rt_ctxErr :: "'e option"
  rt_GetBuffer :: "'s \<Rightarrow> 's \<times> bool"
  rt_ReleaseBuffer :: "'s \<Rightarrow> 's \<times> 'e option"
  rt_WriteString :: "nat \<Rightarrow> string \<Rightarrow> 's \<Rightarrow> 's \<times> 'e option"
  rt_Write :: "string \<Rightarrow> 's \<Rightarrow> 's \<times> 'e option"
  rt_EscapeString :: "string \<Rightarrow> string"
  rt_JoinStringErrs :: "string \<Rightarrow> string \<times> 'e option"
  rt_ResolveAttributeValue :: "string \<Rightarrow> string \<times> 'e option"
  rt_URL :: "string \<Rightarrow> string"
  rt_JoinURLErrs :: "string \<Rightarrow> string \<times> 'e option"

text \<open>An error as it comes, or a \<open>templ.Error\<close> with the place in the template.\<close>

datatype 'e view_error = Plain 'e | TemplError string nat nat 'e

type_synonym ('s, 'e) view = "'s \<Rightarrow> 's \<times> 'e view_error option"

definition then_view :: "('s, 'e) view \<Rightarrow> ('s, 'e) view \<Rightarrow> ('s, 'e) view" where
  "then_view a b = (\<lambda>s. case a s of (s', None) \<Rightarrow> b s' | (s', Some err) \<Rightarrow> (s', Some err))"

definition no_view :: "('s, 'e) view" where
  "no_view = (\<lambda>s. (s, None))"

definition view_steps :: "('s, 'e) view list \<Rightarrow> ('s, 'e) view" where
  "view_steps vs = foldr then_view vs no_view"

definition plain_view :: "('s \<Rightarrow> 's \<times> 'e option) \<Rightarrow> ('s, 'e) view" where
  "plain_view op = (\<lambda>s. let (s', err) = op s in (s', map_option Plain err))"

definition static_text :: "('s, 'e) templ_runtime \<Rightarrow> nat \<Rightarrow> string \<Rightarrow> ('s, 'e) view" where
  "static_text rt n t = plain_view (rt_WriteString rt n t)"

text \<open>A string between tags, an attribute value and a URL in an attribute.\<close>

definition prepared_value ::
  "('s, 'e) templ_runtime \<Rightarrow> string \<Rightarrow> nat \<Rightarrow> nat \<Rightarrow> string \<times> 'e option \<Rightarrow> (string \<Rightarrow> string) \<Rightarrow> ('s, 'e) view" where
  "prepared_value rt templ line col res f =
     (case res of
        (_, Some err) \<Rightarrow> (\<lambda>s. (s, Some (TemplError templ line col err)))
      | (x, None) \<Rightarrow> plain_view (rt_Write rt (f x)))"

definition shown_value :: "('s, 'e) templ_runtime \<Rightarrow> string \<Rightarrow> nat \<Rightarrow> nat \<Rightarrow> string \<Rightarrow> ('s, 'e) view" where
  "shown_value rt templ line col v = prepared_value rt templ line col (rt_JoinStringErrs rt v) (rt_EscapeString rt)"

definition attribute_value :: "('s, 'e) templ_runtime \<Rightarrow> string \<Rightarrow> nat \<Rightarrow> nat \<Rightarrow> string \<Rightarrow> ('s, 'e) view" where
  "attribute_value rt templ line col v = prepared_value rt templ line col (rt_ResolveAttributeValue rt v) (\<lambda>x. x)"

definition link_value :: "('s, 'e) templ_runtime \<Rightarrow> string \<Rightarrow> nat \<Rightarrow> nat \<Rightarrow> string \<Rightarrow> ('s, 'e) view" where
  "link_value rt templ line col v = prepared_value rt templ line col (rt_JoinURLErrs rt (rt_URL rt v)) (rt_EscapeString rt)"

text \<open>
  What every generated component does around its body: it stops when the context is done
  (\<open>checked\<close>; the bodies passed as children do not look), gets a buffer, and releases it at the end
  when it was not handed one, where an error of the body takes precedence.
\<close>

definition generated :: "('s, 'e) templ_runtime \<Rightarrow> bool \<Rightarrow> ('s, 'e) view \<Rightarrow> ('s, 'e) view" where
  "generated rt checked body = (\<lambda>s.
     if checked \<and> rt_ctxErr rt \<noteq> None then (s, map_option Plain (rt_ctxErr rt))
     else
       let (s1, isBuffer) = rt_GetBuffer rt s; (s2, err) = body s1 in
       if isBuffer then (s2, err)
       else let (s3, bufErr) = rt_ReleaseBuffer rt s2
            in (s3, if err = None then map_option Plain bufErr else err))"

section \<open>\<open>layout_templ.go\<close>\<close>

definition layout :: "('s, 'e) templ_runtime \<Rightarrow> string \<Rightarrow> bool \<Rightarrow> ('s, 'e) view \<Rightarrow> ('s, 'e) view" where
  "layout rt title refresh children = generated rt True (view_steps
     [static_text rt 1 layout_text1,
      if refresh then static_text rt 2 layout_text2 else no_view,
      static_text rt 3 layout_text3,
      shown_value rt ''internal/web/views/layout.templ'' 14 17 title,
      static_text rt 4 layout_text4,
      children,
      static_text rt 5 layout_text5])"

section \<open>\<open>landing_templ.go\<close>\<close>

definition exampleImageURL :: string where
  "exampleImageURL = ''http://origin-dummy-web.uhost.pro/arnaud-padalle-9a8GgZPWnqU-unsplash.jpg''"

definition exampleOptimizedPath :: string where
  "exampleOptimizedPath = ''/img/w=600/'' @ exampleImageURL"

definition exampleOptimizedURL :: "string \<Rightarrow> string list \<Rightarrow> string" where
  "exampleOptimizedURL hostname ips =
     (if hostname \<noteq> [] then ''https://'' @ hostname @ exampleOptimizedPath
      else case ips of ip # _ \<Rightarrow> ''https://'' @ ip @ exampleOptimizedPath | [] \<Rightarrow> exampleOptimizedPath)"

definition landing_templ :: string where
  "landing_templ = ''internal/web/views/landing.templ''"

definition metricsDashboard :: "('s, 'e) templ_runtime \<Rightarrow> ('s, 'e) view" where
  "metricsDashboard rt = generated rt True (view_steps [static_text rt 24 landing_text24])"

definition configReference :: "('s, 'e) templ_runtime \<Rightarrow> ('s, 'e) view" where
  "configReference rt = generated rt True (view_steps [static_text rt 23 landing_text23])"

definition resultsSection :: "('s, 'e) templ_runtime \<Rightarrow> ('s, 'e) view" where
  "resultsSection rt = generated rt True (view_steps [static_text rt 22 landing_text22])"

definition imageExample :: "('s, 'e) templ_runtime \<Rightarrow> string \<Rightarrow> string list \<Rightarrow> ('s, 'e) view" where
  "imageExample rt hostname ips = generated rt True (view_steps
     [static_text rt 16 landing_text16,
      attribute_value rt landing_templ 198 29 exampleOptimizedPath,
      static_text rt 17 landing_text17,
      link_value rt landing_templ 222 69 exampleImageURL,
      static_text rt 18 landing_text18,
      shown_value rt landing_templ 222 120 exampleImageURL,
      static_text rt 19 landing_text19,
      link_value rt landing_templ 223 88 (exampleOptimizedURL hostname ips),
      static_text rt 20 landing_text20,
      shown_value rt landing_templ 223 158 (exampleOptimizedURL hostname ips),
      static_text rt 21 landing_text21])"

definition imagePane :: "('s, 'e) templ_runtime \<Rightarrow> string \<Rightarrow> string list \<Rightarrow> ('s, 'e) view" where
  "imagePane rt hostname ips = generated rt True (view_steps
     [static_text rt 15 landing_text15, imageExample rt hostname ips])"

definition addressRow :: "('s, 'e) templ_runtime \<Rightarrow> string \<Rightarrow> ('s, 'e) view" where
  "addressRow rt ip = view_steps
     [static_text rt 11 landing_text11,
      shown_value rt landing_templ 46 42 ip,
      static_text rt 12 landing_text12,
      shown_value rt landing_templ 47 12 [CHR 0x0A]]"

definition sitePane :: "('s, 'e) templ_runtime \<Rightarrow> string \<Rightarrow> string list \<Rightarrow> ('s, 'e) view" where
  "sitePane rt hostname ips = generated rt True (view_steps
     [static_text rt 4 landing_text4,
      if hostname \<noteq> [] then view_steps
        [static_text rt 5 landing_text5, shown_value rt landing_templ 34 69 hostname, static_text rt 6 landing_text6]
      else no_view,
      if 0 < length ips then view_steps
        [static_text rt 7 landing_text7,
         if hostname \<noteq> [] then static_text rt 8 landing_text8 else static_text rt 9 landing_text9,
         static_text rt 10 landing_text10,
         view_steps (map (addressRow rt) ips),
         static_text rt 13 landing_text13]
      else no_view,
      static_text rt 14 landing_text14,
      configReference rt,
      resultsSection rt])"

definition Landing :: "('s, 'e) templ_runtime \<Rightarrow> string \<Rightarrow> string list \<Rightarrow> ('s, 'e) view" where
  "Landing rt hostname ips = generated rt True
     (layout rt ''hubCDN - self-hosted CDN'' False (generated rt False (view_steps
        [static_text rt 1 landing_text1,
         sitePane rt hostname ips,
         static_text rt 2 landing_text2,
         imagePane rt hostname ips,
         static_text rt 3 landing_text3,
         metricsDashboard rt])))"

section \<open>\<open>setup_templ.go\<close>\<close>

definition setup_templ :: string where
  "setup_templ = ''internal/web/views/setup.templ''"

definition Setup :: "('s, 'e) templ_runtime \<Rightarrow> string \<Rightarrow> string \<Rightarrow> string \<Rightarrow> ('s, 'e) view" where
  "Setup rt host originRecord configRecord = generated rt True
     (layout rt (host @ '' - almost there'') True (generated rt False (view_steps
        [static_text rt 1 setup_text1,
         shown_value rt setup_templ 9 18 host,
         static_text rt 2 setup_text2,
         shown_value rt setup_templ 16 36 originRecord,
         static_text rt 3 setup_text3,
         shown_value rt setup_templ 32 36 configRecord,
         static_text rt 4 setup_text4,
         configReference rt])))"

definition SetupError :: "('s, 'e) templ_runtime \<Rightarrow> string \<Rightarrow> string \<Rightarrow> string \<Rightarrow> ('s, 'e) view" where
  "SetupError rt host originRecord lastError = generated rt True
     (layout rt (host @ '' - configuration problem'') True (generated rt False (view_steps
        [static_text rt 5 setup_text5,
         shown_value rt setup_templ 41 52 host,
         static_text rt 6 setup_text6,
         shown_value rt setup_templ 43 36 originRecord,
         static_text rt 7 setup_text7,
         shown_value rt setup_templ 45 33 lastError,
         static_text rt 8 setup_text8])))"

end
