(* ===== verification/Rendering.thy ===== *)
theory Rendering
  imports Views
begin

text \<open>
  The pages as texts, and that each view appends its text to the output, or a first part of it when
  a write fails.
\<close>

section \<open>The texts\<close>

text \<open>The pages as texts, for what the runtime makes of strings, attributes and URLs.\<close>

record escapes =
  es_text :: "string \<Rightarrow> string"
  es_attribute :: "string \<Rightarrow> string"
  es_url :: "string \<Rightarrow> string"

definition escapes_of :: "('s, 'e) templ_runtime \<Rightarrow> escapes" where
  "escapes_of rt = \<lparr>es_text = rt_EscapeString rt, es_attribute = fst \<circ> rt_ResolveAttributeValue rt,
     es_url = rt_EscapeString rt \<circ> rt_URL rt\<rparr>"

definition layout_html :: "escapes \<Rightarrow> string \<Rightarrow> bool \<Rightarrow> string \<Rightarrow> string" where
  "layout_html f title refresh inner = concat
     [layout_text1, if refresh then layout_text2 else [], layout_text3, es_text f title, layout_text4,
      inner, layout_text5]"

definition imageExample_html :: "escapes \<Rightarrow> string \<Rightarrow> string list \<Rightarrow> string" where
  "imageExample_html f hostname ips = concat
     [landing_text16, es_attribute f exampleOptimizedPath, landing_text17, es_url f exampleImageURL,
      landing_text18, es_text f exampleImageURL, landing_text19, es_url f (exampleOptimizedURL hostname ips),
      landing_text20, es_text f (exampleOptimizedURL hostname ips), landing_text21]"

definition addressRow_html :: "escapes \<Rightarrow> string \<Rightarrow> string" where
  "addressRow_html f ip = concat [landing_text11, es_text f ip, landing_text12, es_text f [CHR 0x0A]]"

definition sitePane_html :: "escapes \<Rightarrow> string \<Rightarrow> string list \<Rightarrow> string" where
  "sitePane_html f hostname ips = concat
     [landing_text4,
      if hostname \<noteq> [] then concat [landing_text5, es_text f hostname, landing_text6] else [],
      if 0 < length ips then concat
        [landing_text7, if hostname \<noteq> [] then landing_text8 else landing_text9, landing_text10,
         concat (map (addressRow_html f) ips), landing_text13]
      else [],
      landing_text14, landing_text23, landing_text22]"

definition landing_html :: "escapes \<Rightarrow> string \<Rightarrow> string list \<Rightarrow> string" where
  "landing_html f hostname ips = layout_html f ''hubCDN - self-hosted CDN'' False (concat
     [landing_text1, sitePane_html f hostname ips, landing_text2,
      concat [landing_text15, imageExample_html f hostname ips], landing_text3, landing_text24])"

definition setup_html :: "escapes \<Rightarrow> string \<Rightarrow> string \<Rightarrow> string \<Rightarrow> string" where
  "setup_html f host originRecord configRecord = layout_html f (host @ '' - almost there'') True (concat
     [setup_text1, es_text f host, setup_text2, es_text f originRecord, setup_text3,
      es_text f configRecord, setup_text4, landing_text23])"

definition setupError_html :: "escapes \<Rightarrow> string \<Rightarrow> string \<Rightarrow> string \<Rightarrow> string" where
  "setupError_html f host originRecord lastError = layout_html f (host @ '' - configuration problem'') True (concat
     [setup_text5, es_text f host, setup_text6, es_text f originRecord, setup_text7,
      es_text f lastError, setup_text8])"

section \<open>Views write their texts\<close>

text \<open>An operation appends a text to the output, or a first part of it and fails.\<close>

definition appends :: "('s \<Rightarrow> string) \<Rightarrow> string \<Rightarrow> ('s \<Rightarrow> 's \<times> 'x option) \<Rightarrow> bool" where
  "appends out t op \<longleftrightarrow> (\<forall>s. \<exists>p q. t = p @ q \<and> out (fst (op s)) = out s @ p \<and> (snd (op s) = None \<longrightarrow> q = []))"

text \<open>
  What the documentation of the runtime says: writing appends, getting and releasing a buffer does
  not touch what was written, and a string, attribute or URL of this kind is prepared without error.
\<close>

definition templ_contract :: "('s, 'e) templ_runtime \<Rightarrow> ('s \<Rightarrow> string) \<Rightarrow> bool" where
  "templ_contract rt out \<longleftrightarrow>
     (\<forall>s. out (fst (rt_GetBuffer rt s)) = out s) \<and> (\<forall>s. out (fst (rt_ReleaseBuffer rt s)) = out s) \<and>
     (\<forall>n t. appends out t (rt_WriteString rt n t)) \<and> (\<forall>t. appends out t (rt_Write rt t)) \<and>
     (\<forall>v. rt_JoinStringErrs rt v = (v, None)) \<and> (\<forall>v. rt_JoinURLErrs rt v = (v, None)) \<and>
     (\<forall>v. snd (rt_ResolveAttributeValue rt v) = None)"

named_theorems renders \<open>a view appends its text\<close>

lemma appendsE:
  assumes "appends out t op"
  obtains p q where "t = p @ q" "out (fst (op s)) = out s @ p" "snd (op s) = None \<longrightarrow> q = []"
  using assms unfolding appends_def by blast

lemma appends_no_view [renders]: "appends out [] no_view"
  by (simp add: appends_def no_view_def)

lemma appends_then:
  assumes "appends out t a" and "appends out u b"
  shows "appends out (t @ u) (then_view a b)"
  unfolding appends_def
proof
  fix s
  obtain s1 e1 where a: "a s = (s1, e1)" by fastforce
  obtain p q where p: "t = p @ q" "out s1 = out s @ p" "e1 = None \<longrightarrow> q = []"
    using appendsE [OF assms(1), of s] a by (metis fst_conv snd_conv)
  show "\<exists>p q. t @ u = p @ q \<and> out (fst (then_view a b s)) = out s @ p \<and> (snd (then_view a b s) = None \<longrightarrow> q = [])"
  proof (cases e1)
    case None
    obtain p' q' where "u = p' @ q'" "out (fst (b s1)) = out s1 @ p'" "snd (b s1) = None \<longrightarrow> q' = []"
      using appendsE [OF assms(2), of s1] .
    then show ?thesis
      using p None a by (intro exI [of _ "t @ p'"] exI [of _ q']) (simp add: then_view_def)
  next
    case (Some x)
    then show ?thesis using a p by (intro exI [of _ p] exI [of _ "q @ u"]) (simp add: then_view_def)
  qed
qed

lemma appends_steps [renders]:
  "list_all2 (appends out) ts vs \<Longrightarrow> appends out (concat ts) (view_steps vs)"
  by (induction rule: list_all2_induct) (simp_all add: view_steps_def appends_then appends_no_view)

lemma appends_plain: "appends out t op \<Longrightarrow> appends out t (plain_view op)"
  unfolding appends_def plain_view_def by (simp add: case_prod_unfold Let_def)

lemma appends_if [renders]:
  "appends out t a \<Longrightarrow> appends out u b \<Longrightarrow> appends out (if c then t else u) (if c then a else b)"
  by simp

lemma appends_static [renders]: "templ_contract rt out \<Longrightarrow> appends out t (static_text rt n t)"
  by (simp add: templ_contract_def static_text_def appends_plain)

lemma appends_values [renders]:
  assumes "templ_contract rt out"
  shows "appends out (es_text (escapes_of rt) v) (shown_value rt templ line col v)"
    and "appends out (es_attribute (escapes_of rt) v) (attribute_value rt templ line col v)"
    and "appends out (es_url (escapes_of rt) v) (link_value rt templ line col v)"
proof -
  have wr: "appends out t (plain_view (rt_Write rt t))" for t
    using assms by (simp add: templ_contract_def appends_plain)
  have "rt_JoinStringErrs rt v = (v, None)" "rt_JoinURLErrs rt v = (v, None)" for v
    using assms by (simp_all add: templ_contract_def)
  moreover obtain x where "rt_ResolveAttributeValue rt v = (x, None)"
    using assms by (cases "rt_ResolveAttributeValue rt v") (auto simp: templ_contract_def dest: spec [of _ v])
  ultimately show "appends out (es_text (escapes_of rt) v) (shown_value rt templ line col v)"
    and "appends out (es_attribute (escapes_of rt) v) (attribute_value rt templ line col v)"
    and "appends out (es_url (escapes_of rt) v) (link_value rt templ line col v)"
    using wr by (simp_all add: shown_value_def attribute_value_def link_value_def prepared_value_def escapes_of_def)
qed

lemma appends_generated [renders]:
  assumes "templ_contract rt out" and "appends out t body"
  shows "appends out t (generated rt checked body)"
  unfolding appends_def
proof
  fix s
  obtain s1 isBuffer where b: "rt_GetBuffer rt s = (s1, isBuffer)" by fastforce
  obtain s2 err where r: "body s1 = (s2, err)" by fastforce
  obtain s3 bufErr where c: "rt_ReleaseBuffer rt s2 = (s3, bufErr)" by fastforce
  have out: "out s1 = out s" "out s3 = out s2"
    using assms(1) b c unfolding templ_contract_def by (metis fst_conv)+
  obtain p q where "t = p @ q" "out s2 = out s1 @ p" "err = None \<longrightarrow> q = []"
    using appendsE [OF assms(2), of s1] r by (metis fst_conv snd_conv)
  then show "\<exists>p q. t = p @ q \<and> out (fst (generated rt checked body s)) = out s @ p \<and>
      (snd (generated rt checked body s) = None \<longrightarrow> q = [])"
    using out b r c
    by (cases "checked \<and> rt_ctxErr rt \<noteq> None")
      (auto simp: generated_def intro: exI [of _ "[]"])
qed

lemma layout_renders [renders]:
  assumes "templ_contract rt out" and "appends out inner children"
  shows "appends out (layout_html (escapes_of rt) title refresh inner) (layout rt title refresh children)"
  unfolding layout_def layout_html_def
  by (intro appends_generated appends_steps assms) (simp add: renders assms)

lemma pane_of_one_text:
  "templ_contract rt out \<Longrightarrow> appends out t (generated rt True (view_steps [static_text rt n t]))"
  using appends_generated [of rt out "concat [t]"] appends_steps [of out "[t]" "[static_text rt n t]"]
  by (simp add: appends_static)

lemma panes_render [renders]:
  assumes "templ_contract rt out"
  shows "appends out landing_text23 (configReference rt)"
    and "appends out landing_text22 (resultsSection rt)"
    and "appends out landing_text24 (metricsDashboard rt)"
    and "appends out (imageExample_html (escapes_of rt) hostname ips) (imageExample rt hostname ips)"
    and "appends out (addressRow_html (escapes_of rt) ip) (addressRow rt ip)"
proof -
  note parts = appends_static [OF assms] appends_values [OF assms]
  show "appends out landing_text23 (configReference rt)" "appends out landing_text22 (resultsSection rt)"
    "appends out landing_text24 (metricsDashboard rt)"
    unfolding configReference_def resultsSection_def metricsDashboard_def
    by (rule pane_of_one_text [OF assms])+
  show "appends out (imageExample_html (escapes_of rt) hostname ips) (imageExample rt hostname ips)"
    unfolding imageExample_def imageExample_html_def
    by (intro appends_generated appends_steps assms) (simp add: parts)
  show "appends out (addressRow_html (escapes_of rt) ip) (addressRow rt ip)"
    unfolding addressRow_def addressRow_html_def by (intro appends_steps) (simp add: parts)
qed

lemma addressRows_render [renders]:
  assumes "templ_contract rt out"
  shows "appends out (concat (map (addressRow_html (escapes_of rt)) ips)) (view_steps (map (addressRow rt) ips))"
  by (intro appends_steps) (simp add: list_all2_map1 list_all2_map2 list_all2_same panes_render [OF assms])

lemma sitePane_renders [renders]:
  assumes "templ_contract rt out"
  shows "appends out (sitePane_html (escapes_of rt) hostname ips) (sitePane rt hostname ips)"
proof -
  note parts = appends_static [OF assms] appends_values [OF assms] panes_render [OF assms]
    addressRows_render [OF assms]
  show ?thesis
    unfolding sitePane_def sitePane_html_def
    by (intro appends_generated appends_steps assms list_all2_Cons [THEN iffD2] conjI list_all2_Nil [THEN iffD2]
        appends_if appends_no_view parts) simp_all
qed

lemma page_renders:
  assumes "templ_contract rt out" and "list_all2 (appends out) ts vs"
  shows "appends out (layout_html (escapes_of rt) title refresh (concat ts))
    (generated rt True (layout rt title refresh (generated rt False (view_steps vs))))"
  by (intro appends_generated layout_renders appends_steps assms)

lemma pages_render:
  assumes "templ_contract rt out"
  shows "appends out (setup_html (escapes_of rt) host origin config) (Setup rt host origin config)"
    and "appends out (setupError_html (escapes_of rt) host origin err) (SetupError rt host origin err)"
    and "appends out (landing_html (escapes_of rt) hostname ips) (Landing rt hostname ips)"
proof -
  note parts = appends_static [OF assms] appends_values [OF assms] panes_render [OF assms]
    sitePane_renders [OF assms]
  show "appends out (setup_html (escapes_of rt) host origin config) (Setup rt host origin config)"
    unfolding Setup_def setup_html_def by (rule page_renders [OF assms]) (simp add: parts)
  show "appends out (setupError_html (escapes_of rt) host origin err) (SetupError rt host origin err)"
    unfolding SetupError_def setupError_html_def by (rule page_renders [OF assms]) (simp add: parts)
  have "appends out (concat [landing_text15, imageExample_html (escapes_of rt) hostname ips]) (imagePane rt hostname ips)"
    unfolding imagePane_def by (intro appends_generated appends_steps assms) (simp only: list_all2_Cons list_all2_Nil parts)
  then show "appends out (landing_html (escapes_of rt) hostname ips) (Landing rt hostname ips)"
    unfolding Landing_def landing_html_def by (intro page_renders [OF assms]) (simp only: list_all2_Cons list.rel_inject parts list_all2_Nil simp_thms)
qed

end
