(* ===== verification/Markup.thy ===== *)
theory Markup
  imports ViewText
begin

text \<open>
  The markup of a page: a small HTML tokenizer that tells text, tags and quoted attribute values
  apart, what it reads in the static texts, and that escaped values leave it where it was.
\<close>

section \<open>A tokenizer\<close>

datatype html_state = Data | InTag | Quoted

fun html_next :: "html_state \<Rightarrow> char \<Rightarrow> html_state" where
  "html_next Data c = (if c = CHR ''<'' then InTag else Data)"
| "html_next InTag c = (if c = CHR ''>'' then Data else if c = CHR 0x22 then Quoted else InTag)"
| "html_next Quoted c = (if c = CHR 0x22 then InTag else Quoted)"

fun html_run :: "html_state \<Rightarrow> string \<Rightarrow> html_state" where
  "html_run st [] = st"
| "html_run st (c # cs) = html_run (html_next st c) cs"

text \<open>The markup: the characters of the tags, without texts and without attribute values.\<close>

fun markup :: "html_state \<Rightarrow> string \<Rightarrow> string" where
  "markup st [] = []"
| "markup st (c # cs) =
     (if st = InTag \<or> st = Data \<and> c = CHR ''<'' then c # markup (html_next st c) cs
      else markup (html_next st c) cs)"

definition no_markup :: "string \<Rightarrow> bool" where
  "no_markup s \<longleftrightarrow> list_all (\<lambda>c. c \<noteq> CHR ''<'' \<and> c \<noteq> CHR ''>'' \<and> c \<noteq> CHR 0x22) s"

lemma html_run_append [simp]: "html_run st (s @ t) = html_run (html_run st s) t"
  by (induction st s rule: html_run.induct) simp_all

lemma markup_append [simp]: "markup st (s @ t) = markup st s @ markup (html_run st s) t"
  by (induction st s rule: html_run.induct) simp_all

lemma no_markup_run [simp]:
  "no_markup s \<Longrightarrow> html_run Data s = Data" "no_markup s \<Longrightarrow> html_run Quoted s = Quoted"
  by (induction s) (simp_all add: no_markup_def)

lemma no_markup_markup [simp]:
  "no_markup s \<Longrightarrow> markup Data s = []" "no_markup s \<Longrightarrow> markup Quoted s = []"
  by (induction s) (simp_all add: no_markup_def)

section \<open>The static texts\<close>

lemma layout_states:
  "html_run Data layout_text1 = Data" "html_run Data layout_text2 = Data"
  "html_run Data layout_text3 = Data" "html_run Data layout_text4 = Data"
  "html_run Data layout_text5 = Data"
  by code_simp+

lemma landing_states:
  "html_run Data landing_text1 = Data" "html_run Data landing_text2 = Data"
  "html_run Data landing_text3 = Data" "html_run Data landing_text4 = Data"
  "html_run Data landing_text5 = Data" "html_run Data landing_text6 = Data"
  "html_run Data landing_text7 = Data" "html_run Data landing_text8 = Data"
  "html_run Data landing_text9 = Data" "html_run Data landing_text10 = Data"
  "html_run Data landing_text11 = Data" "html_run Data landing_text12 = Data"
  "html_run Data landing_text13 = Data" "html_run Data landing_text14 = Data"
  by code_simp+

lemma image_states:
  "html_run Data landing_text15 = Data" "html_run Data landing_text16 = Quoted"
  "html_run Quoted landing_text17 = Quoted" "html_run Quoted landing_text18 = Data"
  "html_run Data landing_text19 = Quoted" "html_run Quoted landing_text20 = Data"
  "html_run Data landing_text21 = Data" "html_run Data landing_text22 = Data"
  "html_run Data landing_text23 = Data"
  by code_simp+

lemma dashboard_state: "html_run Data landing_text24 = Data"
  by code_simp

lemma setup_states:
  "html_run Data setup_text1 = Data" "html_run Data setup_text2 = Data"
  "html_run Data setup_text3 = Data" "html_run Data setup_text4 = Data"
  "html_run Data setup_text5 = Data" "html_run Data setup_text6 = Data"
  "html_run Data setup_text7 = Data" "html_run Data setup_text8 = Data"
  by code_simp+

lemmas text_states = layout_states landing_states image_states dashboard_state setup_states

end
