(* ===== verification/PageProps.thy ===== *)
theory PageProps
  imports Rendering Markup DomainProps ImgCdn
begin

text \<open>
  Properties of the pages: values cannot change the markup, a failing write leaves a first part of
  the page, and what the pages tell a visitor to do is what the node understands.
\<close>

section \<open>The pages\<close>

datatype page =
    LandingPage string "string list"
  | SetupPage string string string
  | SetupErrorPage string string string

fun render_page :: "('s, 'e) templ_runtime \<Rightarrow> page \<Rightarrow> ('s, 'e) view" where
  "render_page rt (LandingPage hostname ips) = Landing rt hostname ips"
| "render_page rt (SetupPage host originRecord configRecord) = Setup rt host originRecord configRecord"
| "render_page rt (SetupErrorPage host originRecord lastError) = SetupError rt host originRecord lastError"

fun page_html :: "escapes \<Rightarrow> page \<Rightarrow> string" where
  "page_html f (LandingPage hostname ips) = landing_html f hostname ips"
| "page_html f (SetupPage host originRecord configRecord) = setup_html f host originRecord configRecord"
| "page_html f (SetupErrorPage host originRecord lastError) = setupError_html f host originRecord lastError"

text \<open>The page with every value left out.\<close>

definition blank :: escapes where
  "blank = \<lparr>es_text = (\<lambda>_. []), es_attribute = (\<lambda>_. []), es_url = (\<lambda>_. [])\<rparr>"

definition escapes_safe :: "escapes \<Rightarrow> bool" where
  "escapes_safe f \<longleftrightarrow> (\<forall>v. no_markup (es_text f v) \<and> no_markup (es_attribute f v) \<and> no_markup (es_url f v))"

text \<open>A text that leaves the tokenizer where it was, with a fixed markup.\<close>

definition inert :: "string \<Rightarrow> string \<Rightarrow> bool" where
  "inert s t \<longleftrightarrow> html_run Data s = Data \<and> html_run Data t = Data \<and> markup Data s = markup Data t"

lemma inert_layout:
  assumes "escapes_safe f" and "inert s t"
  shows "inert (layout_html f title refresh s) (layout_html blank title' refresh t)"
  using assms by (simp add: inert_def layout_html_def text_states escapes_safe_def blank_def)

lemma inert_imageExample:
  assumes "escapes_safe f"
  shows "inert (imageExample_html f hostname ips) (imageExample_html blank hostname' ips')"
  using assms by (simp add: inert_def imageExample_html_def text_states escapes_safe_def blank_def)

lemma inert_rows:
  assumes "escapes_safe f" and "length ips = length ips'"
  shows "inert (concat (map (addressRow_html f) ips)) (concat (map (addressRow_html blank) ips'))"
  using assms(2,1)
  by (induction ips ips' rule: list_induct2)
    (simp_all add: inert_def addressRow_html_def text_states escapes_safe_def blank_def)

lemma inert_sitePane:
  assumes "escapes_safe f" and "hostname = [] \<longleftrightarrow> hostname' = []" and "length ips = length ips'"
  shows "inert (sitePane_html f hostname ips) (sitePane_html blank hostname' ips')"
  using assms inert_rows [OF assms(1,3)]
  by (simp add: inert_def sitePane_html_def text_states escapes_safe_def blank_def)

text \<open>Pages of the same shape: the same page, with the same parts on it.\<close>

fun same_shape :: "page \<Rightarrow> page \<Rightarrow> bool" where
  "same_shape (LandingPage hostname ips) (LandingPage hostname' ips') \<longleftrightarrow>
     (hostname = [] \<longleftrightarrow> hostname' = []) \<and> length ips = length ips'"
| "same_shape (SetupPage _ _ _) (SetupPage _ _ _) \<longleftrightarrow> True"
| "same_shape (SetupErrorPage _ _ _) (SetupErrorPage _ _ _) \<longleftrightarrow> True"
| "same_shape _ _ \<longleftrightarrow> False"

lemma inert_page:
  assumes "escapes_safe f" and "same_shape pg pg'"
  shows "inert (page_html f pg) (page_html blank pg')"
  using assms(2)
proof (cases rule: same_shape.elims(2))
  case (1 hostname ips hostname' ips')
  then have "inert (sitePane_html f hostname ips) (sitePane_html blank hostname' ips')"
    by (intro inert_sitePane assms(1)) auto
  moreover note inert_imageExample [OF assms(1), of hostname ips hostname' ips']
  ultimately show ?thesis
    unfolding 1 page_html.simps landing_html_def
    by (intro inert_layout assms(1)) (simp add: inert_def text_states)
next
  case (2 host origin config host' origin' config')
  show ?thesis
    unfolding 2 page_html.simps setup_html_def
    by (intro inert_layout assms(1))
      (use assms(1) in \<open>simp add: inert_def text_states escapes_safe_def blank_def\<close>)
next
  case (3 host origin err host' origin' err')
  show ?thesis
    unfolding 3 page_html.simps setupError_html_def
    by (intro inert_layout assms(1))
      (use assms(1) in \<open>simp add: inert_def text_states escapes_safe_def blank_def\<close>)
qed

lemma render_page_appends:
  "templ_contract rt out \<Longrightarrow> appends out (page_html (escapes_of rt) pg) (render_page rt pg)"
  by (cases pg) (simp_all add: pages_render)

text \<open>
  C15. Whatever names, records and error texts are put into a page, its markup stays the same: host names,
  addresses and the text of a DNS error cannot add a tag or an attribute, close one, or get out of
  the place they were written to, as long as the runtime escapes the three characters that HTML is
  made of.
\<close>

theorem page_markup_fixed:
  assumes "templ_contract rt out" and "escapes_safe (escapes_of rt)" and "same_shape pg pg'"
    and "out s = []" and "render_page rt pg s = (s', None)"
  shows "markup Data (out s') = markup Data (page_html blank pg') \<and> html_run Data (out s') = Data"
proof -
  have "out s' = page_html (escapes_of rt) pg"
    by (rule appendsE [OF render_page_appends [OF assms(1), of pg], of s]) (simp add: assms(4,5))
  then show ?thesis using inert_page [OF assms(2,3)] by (simp add: inert_def)
qed

text \<open>
  C33. A page that was rendered without an error is complete, and one whose rendering failed, at whichever
  write, is a first part of it: no part is skipped and nothing is written after an error.
\<close>

theorem failed_page_is_prefix:
  assumes "templ_contract rt out" and "render_page rt pg s = (s', err)"
  shows "\<exists>rest. out s' @ rest = out s @ page_html (escapes_of rt) pg \<and> (err = None \<longrightarrow> rest = [])"
  by (rule appendsE [OF render_page_appends [OF assms(1), of pg], of s]) (simp add: assms(2))

section \<open>A runtime for the witnesses\<close>

text \<open>A runtime that escapes like HTML and writes to a client that takes a limited number of bytes.\<close>

definition sample_escape :: "string \<Rightarrow> string" where
  "sample_escape = concat \<circ> map (\<lambda>c.
     if c = CHR ''<'' then ''&lt;'' else if c = CHR ''>'' then ''&gt;''
     else if c = CHR 0x22 then ''&#34;'' else if c = CHR ''&'' then ''&amp;'' else [c])"

definition sample_put :: "nat option \<Rightarrow> string \<Rightarrow> string \<Rightarrow> string \<times> unit option" where
  "sample_put limit t s =
     (case limit of
        None \<Rightarrow> (s @ t, None)
      | Some n \<Rightarrow> if length s + length t \<le> n then (s @ t, None) else (s @ take (n - length s) t, Some ()))"

definition sample_runtime :: "nat option \<Rightarrow> (string, unit) templ_runtime" where
  "sample_runtime limit =
     \<lparr>rt_ctxErr = None, rt_GetBuffer = (\<lambda>s. (s, True)), rt_ReleaseBuffer = (\<lambda>s. (s, None)),
      rt_WriteString = (\<lambda>_. sample_put limit), rt_Write = sample_put limit, rt_EscapeString = sample_escape,
      rt_JoinStringErrs = (\<lambda>v. (v, None)), rt_ResolveAttributeValue = (\<lambda>v. (sample_escape v, None)),
      rt_URL = (\<lambda>v. v), rt_JoinURLErrs = (\<lambda>v. (v, None))\<rparr>"

lemma sample_put_appends: "appends (\<lambda>s. s) t (sample_put limit t)"
  unfolding appends_def
proof
  fix s
  have t: "t = take n t @ drop n t" for n by simp
  show "\<exists>p q. t = p @ q \<and> fst (sample_put limit t s) = s @ p \<and> (snd (sample_put limit t s) = None \<longrightarrow> q = [])"
  proof (cases limit)
    case (Some n)
    show ?thesis
    proof (cases "length s + length t \<le> n")
      case False
      then show ?thesis
        using Some t [of "n - length s"]
        by (intro exI [of _ "take (n - length s) t"] exI [of _ "drop (n - length s) t"]) (simp add: sample_put_def)
    qed (simp add: sample_put_def Some)
  qed (simp add: sample_put_def)
qed

lemma sample_contract: "templ_contract (sample_runtime limit) (\<lambda>s. s)"
  by (simp add: templ_contract_def sample_runtime_def sample_put_appends)

lemma sample_safe: "escapes_safe (escapes_of (sample_runtime limit))"
proof -
  have "no_markup (sample_escape v)" for v
    by (induction v) (simp_all add: sample_escape_def no_markup_def)
  then show ?thesis by (simp add: escapes_safe_def escapes_of_def sample_runtime_def comp_def)
qed

lemma sample_complete: "snd (Setup (sample_runtime None) host origin config s) = None"
  by (simp add: Setup_def layout_def configReference_def generated_def view_steps_def then_view_def no_view_def
      static_text_def shown_value_def prepared_value_def plain_view_def sample_runtime_def sample_put_def)

theorem page_markup_fixed_witness:
  "\<exists>s'. render_page (sample_runtime None) (SetupPage ''a.com'' ''<script>'' ''x'') [] = (s', None) \<and>
     markup Data s' = markup Data (page_html blank (SetupPage [] [] []))"
proof -
  let ?pg = "SetupPage ''a.com'' ''<script>'' ''x''"
  obtain s' where run: "render_page (sample_runtime None) ?pg [] = (s', None)"
    using sample_complete by (metis prod.collapse render_page.simps(2))
  have "same_shape ?pg (SetupPage [] [] [])" by simp
  from page_markup_fixed [OF sample_contract sample_safe this refl run] show ?thesis using run by blast
qed

theorem failed_page_is_prefix_witness:
  "\<exists>rest. fst (render_page (sample_runtime (Some 40)) (LandingPage [] [''192.0.2.1'']) []) @ rest =
     page_html (escapes_of (sample_runtime (Some 40))) (LandingPage [] [''192.0.2.1''])"
proof -
  let ?rt = "sample_runtime (Some 40)" and ?pg = "LandingPage [] [''192.0.2.1'']"
  obtain s' err where run: "render_page ?rt ?pg [] = (s', err)" by fastforce
  show ?thesis using failed_page_is_prefix [OF sample_contract run] unfolding run by auto
qed

section \<open>What the pages say\<close>

fun starts :: "string \<Rightarrow> string \<Rightarrow> bool" where
  "starts s [] = True"
| "starts [] (p # ps) = False"
| "starts (c # s) (p # ps) = (if c = p then starts s ps else False)"

fun occurs :: "string \<Rightarrow> string \<Rightarrow> bool" where
  "occurs [] p = (p = [])"
| "occurs (c # s) p = (if starts (c # s) p then True else occurs s p)"

lemma starts_hasPrefix: "starts s p = hasPrefix s p"
  by (induction s p rule: starts.induct) (simp_all add: hasPrefix_def)

lemma occurs_contains: "occurs s p = contains s p"
  by (induction s p rule: occurs.induct) (simp_all add: starts_hasPrefix)

text \<open>
  The table of settings on the pages shows the defaults: written out as a record they change nothing.
  The record shown as an example switches to aggressive caching for six hours.
\<close>

theorem documented_settings:
  "contains landing_text23 ''<code>cache</code></td><td><code>off</code>'' \<and>
   contains landing_text23 ''</td><td><code>1h</code></td>'' \<and>
   contains landing_text23 ''</td><td><code>10m</code></td>'' \<and>
   ParseSettings ''cache=standard; ttl=1h; swr=10m; websocket=on; preserve_host=on'' (DefaultSettings n) =
     DefaultSettings n \<and>
   contains setup_text4 ''cache=aggressive; ttl=6h'' \<and>
   ParseSettings ''cache=aggressive; ttl=6h'' (DefaultSettings n) =
     (DefaultSettings n)\<lparr>cfg_mode := ModeAggressive, cfg_ttl := 6 * hour\<rparr>"
proof -
  have "occurs landing_text23 ''<code>cache</code></td><td><code>off</code>''"
    "occurs landing_text23 ''</td><td><code>1h</code></td>''"
    "occurs landing_text23 ''</td><td><code>10m</code></td>''"
    "occurs setup_text4 ''cache=aggressive; ttl=6h''"
    by code_simp+
  moreover have "ParseSettings ''cache=standard; ttl=1h; swr=10m; websocket=on; preserve_host=on'' (DefaultSettings n) =
      DefaultSettings n"
    by code_simp
  moreover have "ParseSettings ''cache=aggressive; ttl=6h'' (DefaultSettings n) =
     (DefaultSettings n)\<lparr>cfg_mode := ModeAggressive, cfg_ttl := 6 * hour\<rparr>"
    by code_simp
  ultimately show ?thesis unfolding occurs_contains by blast
qed

text \<open>
  The example on the landing page is a request the node understands: its path names a source on
  another host and options that ask for a width of 600. Without a host name the link is built from
  the first address as it is written, so for an IPv6 address, which a URL has to put into brackets,
  it names another host.
\<close>

theorem landing_example:
  assumes "rq_escaped r = exampleOptimizedPath" and "rq_rawQuery r = []"
    and "urlParse exampleImageURL = Some u" and "url_Hostname u \<noteq> []" and "u_user u = None"
  shows "parsePath urlParse r = Inr (''w=600'', u)"
    and "Params_Parse ''w=600'' = Inr (Defaults\<lparr>pm_Width := 600\<rparr>)"
    and "exampleOptimizedURL hostname ips = exampleOptimizedPath \<longleftrightarrow> hostname = [] \<and> ips = []"
    and "exampleOptimizedURL [] [''2001:db8::1''] = ''https://'' @ ''2001:db8::1'' @ exampleOptimizedPath"
    and "url_Hostname (u\<lparr>u_host := ''2001:db8::1''\<rparr>) \<noteq> ''2001:db8::1''"
proof -
  have "normalize_source exampleImageURL = exampleImageURL" "exampleImageURL \<noteq> []"
    by (simp_all add: normalize_source_def exampleImageURL_def hasPrefix_def)
  moreover have "cut CHR ''/'' (trimPrefix exampleOptimizedPath PathPrefix) = Some (''w=600'', exampleImageURL)"
    unfolding exampleOptimizedPath_def by code_simp
  ultimately show "parsePath urlParse r = Inr (''w=600'', u)"
    using assms by (simp add: parsePath_def)
  show "Params_Parse ''w=600'' = Inr (Defaults\<lparr>pm_Width := 600\<rparr>)" by code_simp
  show "exampleOptimizedURL hostname ips = exampleOptimizedPath \<longleftrightarrow> hostname = [] \<and> ips = []"
    by (auto simp: exampleOptimizedURL_def exampleOptimizedPath_def split: list.split)
  show "exampleOptimizedURL [] [''2001:db8::1''] = ''https://'' @ ''2001:db8::1'' @ exampleOptimizedPath"
    by (simp add: exampleOptimizedURL_def)
  have "fst (url_splitHostPort ''2001:db8::1'') \<noteq> ''2001:db8::1''" by code_simp
  then show "url_Hostname (u\<lparr>u_host := ''2001:db8::1''\<rparr>) \<noteq> ''2001:db8::1''"
    by (simp add: url_Hostname_def)
qed

end
