(* ===== verification/Onboarding.thy ===== *)
theory Onboarding
  imports ServerProps PageProps
begin

text \<open>
  A new customer's way onto the node, across the registry, DNS, routing and the pages: the first
  visit answers with a page that names the TXT record to create, and once DNS has that record the
  next visit is proxied to the origin it names.
\<close>

section \<open>Customer hosts\<close>

definition customer_host :: "server \<Rightarrow> string \<Rightarrow> bool" where
  "customer_host sv host \<longleftrightarrow> ValidHost host \<and> host \<noteq> [] \<and> host \<noteq> cfg_Hostname (sv_cfg sv)"

text \<open>What the registry knows of a host that DNS has no origin for.\<close>

definition pending_at :: "server \<Rightarrow> string \<Rightarrow> time set \<Rightarrow> snapshot \<Rightarrow> bool" where
  "pending_at sv host ts snap \<longleftrightarrow> Registry_Lookup (sv_registry sv) host = Some snap \<and> sn_host snap = host \<and>
     sn_status snap = StatusPending \<and> sn_lastRefreshed snap \<in> ts"

lemma refresh_without_origin:
  assumes "Resolver_Origin (x_urlParse x) net (rg_resolver r) (sn_host s) = Inl ErrNoOrigin"
  shows "sn_host (refreshSnapshot x net r now s) = sn_host s"
    and "sn_status (refreshSnapshot x net r now s) = StatusPending"
    and "sn_lastRefreshed (refreshSnapshot x net r now s) = now"
  using assms by (simp_all add: refreshSnapshot_def Let_def split: sum.split)

lemma refresh_with_origin:
  assumes "Resolver_Origin (x_urlParse x) net (rg_resolver r) (sn_host s) = Inr u"
  shows "sn_host (refreshSnapshot x net r now s) = sn_host s"
    and "sn_status (refreshSnapshot x net r now s) = StatusActive"
    and "sn_origin (refreshSnapshot x net r now s) = Some u"
  using assms by (simp_all add: refreshSnapshot_def Let_def split: sum.split)

lemma first_sight:
  assumes "Registry_Lookup (sv_registry sv) host = None"
    and "Resolver_Origin (x_urlParse (se_x e)) (se_net e 0) (rg_resolver (sv_registry sv)) host = Inl ErrNoOrigin"
    and "find_domain e clk host sv = (sv', snap)"
  shows "pending_at sv' host {clk 4} snap" and "rg_resolver (sv_registry sv') = rg_resolver (sv_registry sv)"
    and "sv_cfg sv' = sv_cfg sv"
proof -
  let ?s = "refreshSnapshot (se_x e) (se_net e 0) (sv_registry sv) (clk 4) (new_snapshot (se_x e) (sv_registry sv) host (clk 3))"
  have new: "snap = ?s" "sv' = sv\<lparr>sv_registry := (sv_registry sv)
      \<lparr>rg_domains := AList.update host ?s (rg_domains (sv_registry sv)), rg_dirty := True\<rparr>\<rparr>"
    using assms(1,3) by (auto simp: find_domain_def Registry_Observe_def Observe_commit_def Registry_Lookup_def)
  with assms(2) show "pending_at sv' host {clk 4} snap"
    by (simp add: pending_at_def Registry_Lookup_def update_conv' refresh_without_origin)
  from new(2) show "rg_resolver (sv_registry sv') = rg_resolver (sv_registry sv)" "sv_cfg sv' = sv_cfg sv"
    by simp_all
qed

lemma still_pending:
  assumes "pending_at sv host ts snap"
    and "Resolver_Origin (x_urlParse (se_x e)) (se_net e 1) (rg_resolver (sv_registry sv)) host = Inl ErrNoOrigin"
  shows "\<exists>sv' snap'. serve_pending e clk w r host snap sv = (sv', RenderSetup e w snap', False) \<and>
    pending_at sv' host (insert (clk 6) ts) snap' \<and>
    rg_resolver (sv_registry sv') = rg_resolver (sv_registry sv) \<and> sv_cfg sv' = sv_cfg sv"
  using assms
  by (auto simp: serve_pending_def Registry_Refresh_def Let_def pending_at_def refresh_without_origin
      Registry_Lookup_def)

lemma activated:
  assumes "pending_at sv host ts snap" and "\<forall>t \<in> ts. 5 * second < time_sub (clk 5) t"
    and "Resolver_Origin (x_urlParse (se_x e)) (se_net e 1) (rg_resolver (sv_registry sv)) host = Inr u"
  shows "\<exists>sv' snap'. serve_pending e clk w r host snap sv = serve_proxy e clk w r snap' sv' \<and>
    sn_host snap' = host \<and> sn_origin snap' = Some u"
proof -
  let ?s = "refreshSnapshot (se_x e) (se_net e 1) (sv_registry sv) (clk 6) snap"
  have "serve_pending e clk w r host snap sv =
      serve_proxy e clk w r ?s (sv\<lparr>sv_registry := Registry_store (sv_registry sv) ?s\<rparr>)"
    using assms
    by (auto simp: serve_pending_def Registry_Refresh_def Let_def pending_at_def refresh_with_origin)
  moreover have "sn_host ?s = host" "sn_origin ?s = Some u"
    using assms(1,3) refresh_with_origin [of "se_x e" "se_net e 1" "sv_registry sv" snap u "clk 6"]
    by (simp_all add: pending_at_def)
  ultimately show ?thesis by blast
qed

text \<open>
  C11. A host the node has never seen and that has no origin record gets the setup page, and the page
  names the two records of this very host. When DNS answers the name shown on the page with records
  of which the first valid one is an origin, the first visit more than five seconds later is
  proxied to that origin: the page, the resolver and the router agree on the name.
\<close>

theorem onboarding:
  assumes "hostOnly (rq_host r) = host" and "customer_host sv host" and "Registry_Lookup (sv_registry sv) host = None"
    and "\<And>k. net_TXT (se_net e k) (rg_resolver (sv_registry sv)) (OriginRecordPrefix @ host) = TxtNotFound"
    and "se_setup e = setup_html f" and "route e clk new_writer r sv = (sv1, w1, panic)"
    and "hostOnly (rq_host r') = host"
    and "net_TXT (se_net e' 1) (rg_resolver (sv_registry sv)) (OriginRecordPrefix @ host) = TxtRecords recs"
    and "first_origin (x_urlParse (se_x e')) recs = Inr u"
    and "5 * second < time_sub (clk' 5) (clk 4)" and "5 * second < time_sub (clk' 5) (clk 6)"
  shows "\<not> panic \<and> w_status w1 = 200 \<and>
    w_body w1 = page_html f (SetupPage host (OriginRecordPrefix @ host) (ConfigRecordPrefix @ host)) \<and>
    (\<exists>sv2 snap. route e' clk' w r' sv1 = serve_proxy e' clk' w r' snap sv2 \<and>
       sn_host snap = host \<and> sn_origin snap = Some u)"
proof -
  have none: "Resolver_Origin (x_urlParse (se_x e)) (se_net e k) (rg_resolver (sv_registry sv)) host = Inl ErrNoOrigin" for k
    using assms(4) by (simp add: Resolver_Origin_def)
  let ?sv = "sv\<lparr>sv_proxy := bump (\<lambda>m. m\<lparr>m_TotalRequests := m_TotalRequests m + 1\<rparr>) (sv_proxy sv)\<rparr>"
  obtain sva snap where dom: "find_domain e clk host ?sv = (sva, snap)" by fastforce
  have "Registry_Lookup (sv_registry ?sv) host = None"
    "Resolver_Origin (x_urlParse (se_x e)) (se_net e 0) (rg_resolver (sv_registry ?sv)) host = Inl ErrNoOrigin"
    using assms(3) none by simp_all
  note seen = first_sight [OF this dom]
  have "Resolver_Origin (x_urlParse (se_x e)) (se_net e 1) (rg_resolver (sv_registry sva)) host = Inl ErrNoOrigin"
    using none seen(2) by simp
  from still_pending [OF seen(1) this] obtain svb snap' where
    pend: "serve_pending e clk new_writer r host snap sva = (svb, RenderSetup e new_writer snap', False)"
      "pending_at svb host {clk 6, clk 4} snap'" "rg_resolver (sv_registry svb) = rg_resolver (sv_registry sv)"
      "sv_cfg svb = sv_cfg sv"
    using seen(2,3) by force
  have "route e clk new_writer r sv = serve_pending e clk new_writer r host snap sva"
    using assms(1,2) dom seen(1) by (simp add: route_def Let_def customer_host_def pending_at_def)
  with pend(1) assms(6) have first: "sv1 = svb" "w1 = RenderSetup e new_writer snap'" "\<not> panic" by simp_all
  have host: "sn_host snap' = host" using pend(2) by (simp add: pending_at_def)
  let ?sv1 = "sv1\<lparr>sv_proxy := bump (\<lambda>m. m\<lparr>m_TotalRequests := m_TotalRequests m + 1\<rparr>) (sv_proxy sv1)\<rparr>"
  have pend1: "pending_at ?sv1 host {clk 6, clk 4} snap'" using pend(2) first(1) by (simp add: pending_at_def)
  then have dom1: "find_domain e' clk' host ?sv1 = (?sv1, snap')" by (simp add: find_domain_def pending_at_def)
  have "Resolver_Origin (x_urlParse (se_x e')) (se_net e' 1) (rg_resolver (sv_registry ?sv1)) host = Inr u"
    using assms(8,9) pend(3) first(1) by (simp add: Resolver_Origin_def)
  from activated [OF pend1 _ this] assms(10,11) obtain sv2 snap'' where
    second: "serve_pending e' clk' w r' host snap' ?sv1 = serve_proxy e' clk' w r' snap'' sv2"
      "sn_host snap'' = host" "sn_origin snap'' = Some u" by blast
  have "route e' clk' w r' sv1 = serve_pending e' clk' w r' host snap' ?sv1"
    using assms(2,7) dom1 pend1 pend(4) first(1)
    by (simp add: route_def Let_def customer_host_def pending_at_def)
  with second first host show ?thesis
    by (auto simp: RenderSetup_def writeHTML_def w_WriteHeader_def new_writer_def assms(5))
qed

theorem onboarding_witness:
  "\<exists>sv1 (w1 :: writer) sv2 snap.
     w_body w1 = page_html (escapes_of (sample_runtime None))
       (SetupPage ''a.com'' ''hubcdn.v1.origin.a.com'' ''hubcdn.v1.config.a.com'') \<and>
     route (sample_server_env sample_reply) (\<lambda>_. 100 * second) new_writer (sample_request ''GET'') sv1 =
       serve_proxy (sample_server_env sample_reply) (\<lambda>_. 100 * second) new_writer (sample_request ''GET'') snap sv2 \<and>
     sn_origin snap \<noteq> None"
proof -
  let ?f = "escapes_of (sample_runtime None)"
  let ?e = "(sample_server_env sample_reply)\<lparr>se_net := \<lambda>_. \<lparr>net_TXT = \<lambda>_ _. TxtNotFound, net_IP = \<lambda>_ _. Inr []\<rparr>,
     se_setup := setup_html ?f\<rparr>"
  obtain sv1 w1 panic where run: "route ?e (\<lambda>_. 0) new_writer (sample_request ''GET'') sample_node = (sv1, w1, panic)"
    by (metis prod.collapse)
  have host: "customer_host sample_node ''a.com''" using sample_host by (simp add: customer_host_def sample_node_parts)
  have unseen: "Registry_Lookup (sv_registry sample_node) ''a.com'' = None"
    by (simp add: Registry_Lookup_def sample_node_parts)
  have no_record: "\<And>k. net_TXT (se_net ?e k) (rg_resolver (sv_registry sample_node)) (OriginRecordPrefix @ ''a.com'') = TxtNotFound"
    by simp
  have page: "se_setup ?e = setup_html ?f" by simp
  have visit: "hostOnly (rq_host r') = ''a.com'' \<Longrightarrow>
      net_TXT (se_net e' 1) (rg_resolver (sv_registry sample_node)) (OriginRecordPrefix @ ''a.com'') = TxtRecords recs \<Longrightarrow>
      first_origin (x_urlParse (se_x e')) recs = Inr u \<Longrightarrow> 5 * second < time_sub (clk' 5) 0 \<Longrightarrow>
      \<not> panic \<and> w_status w1 = 200 \<and>
      w_body w1 = page_html ?f (SetupPage ''a.com'' (OriginRecordPrefix @ ''a.com'') (ConfigRecordPrefix @ ''a.com'')) \<and>
      (\<exists>sv2 snap. route e' clk' new_writer r' sv1 = serve_proxy e' clk' new_writer r' snap sv2 \<and>
         sn_host snap = ''a.com'' \<and> sn_origin snap = Some u)" for r' e' recs u clk'
    by (rule onboarding [OF sample_host(1) host unseen no_record page run])
  have "\<not> isl (first_origin (x_urlParse plain) [''o.example.org''])" by code_simp
  then obtain u where origin: "first_origin (x_urlParse (se_x (sample_server_env sample_reply))) [''o.example.org''] = Inr u"
    by (cases "first_origin (x_urlParse plain) [''o.example.org'']") simp_all
  have answer: "net_TXT (se_net (sample_server_env sample_reply) 1) rs (OriginRecordPrefix @ ''a.com'') =
      TxtRecords [''o.example.org'']" for rs
    by (simp add: sample_server_env_def sample_network_def OriginRecordPrefix_def)
  have later: "5 * second < time_sub ((\<lambda>_. 100 * second) (5 :: nat)) 0" by (simp add: time_sub_def second_def)
  obtain sv2 snap where both: "w_body w1 = page_html ?f (SetupPage ''a.com'' (OriginRecordPrefix @ ''a.com'') (ConfigRecordPrefix @ ''a.com''))"
    "route (sample_server_env sample_reply) (\<lambda>_. 100 * second) new_writer (sample_request ''GET'') sv1 =
       serve_proxy (sample_server_env sample_reply) (\<lambda>_. 100 * second) new_writer (sample_request ''GET'') snap sv2"
    "sn_origin snap = Some u"
    using visit [OF sample_host(1) [of "''GET''"] answer origin later] by (elim conjE exE) (rule that)
  have names: "OriginRecordPrefix @ ''a.com'' = ''hubcdn.v1.origin.a.com''" "ConfigRecordPrefix @ ''a.com'' = ''hubcdn.v1.config.a.com''"
    by (simp_all add: OriginRecordPrefix_def ConfigRecordPrefix_def)
  have known: "sn_origin snap \<noteq> None" using both(3) by simp
  show ?thesis
    by (rule exI [of _ sv1], rule exI [of _ w1], rule exI [of _ sv2], rule exI [of _ snap], intro conjI)
      (rule both(1,2) [unfolded names] known)+
qed

section \<open>Origins are not checked\<close>

text \<open>
  An origin record may name an address the image endpoint would refuse: the link-local address at
  which clouds serve credentials is taken as an origin like any other, and requests are rewritten
  to it.
\<close>

theorem private_origin_accepted:
  assumes "urlParse ''http://169.254.169.254'' = Some
    \<lparr>u_scheme = ''http'', u_user = None, u_host = ''169.254.169.254'', u_path = [], u_rawQuery = [], u_fragment = []\<rparr>"
  shows "\<exists>u out ip. first_origin urlParse [''http://169.254.169.254''] = Inr u \<and>
    Rewrite e (snap\<lparr>sn_origin := Some u\<rparr>) r = Some out \<and> or_urlHost out = ''169.254.169.254'' \<and>
    ParseIP (or_urlHost out) = Some ip \<and> \<not> isPublicIP ip"
proof -
  let ?u = "\<lparr>u_scheme = ''http'', u_user = None, u_host = ''169.254.169.254'', u_path = [], u_rawQuery = [], u_fragment = []\<rparr> :: url"
  have "trimSpace ''http://169.254.169.254'' = ''http://169.254.169.254''" "contains ''http://169.254.169.254'' ''://''"
    "url_Hostname ?u \<noteq> []"
    by code_simp+
  then have "first_origin urlParse [''http://169.254.169.254''] = Inr ?u"
    using assms by (simp add: ParseOrigin_def Let_def)
  moreover have "ParseIP ''169.254.169.254'' = Some (v4_mapped [169, 254, 169, 254])" by code_simp
  moreover have "\<not> isPublicIP (v4_mapped [169, 254, 169, 254])" by (simp add: isPublicIP_v4)
  ultimately show ?thesis by (simp add: Rewrite_def Let_def)
qed

end
