(* ===== verification/Node.thy ===== *)
theory Node
  imports ConfigProps BunnyProps
begin

text \<open>
  \<open>cmd/hubcdn/main.go\<close> and \<open>healthcheck.go\<close>: the command line, the health check and the life of a
  node around the server: registration in DNS before it runs, heartbeats while it runs,
  deregistration after it. Making the data directory, assembling and running the server and
  dialling are parameters; signals, telemetry and log lines are left out. A heartbeat that is
  under way when the node stops is taken to end before deregistration starts.
\<close>

section \<open>The health check\<close>

definition defaultHTTPSAddr :: string where "defaultHTTPSAddr = '':4403''"

definition resolveHTTPSAddr :: "environ \<Rightarrow> string" where
  "resolveHTTPSAddr getenv =
     (if getenv ''HUBCDN_HTTPS_ADDR'' \<noteq> [] then getenv ''HUBCDN_HTTPS_ADDR''
      else
        let port = trimSpace (getenv ''HUBCDN_HTTPS_PORT'') in
        if port \<noteq> [] then '':'' @ trimPrefix port '':''
        else defaultHTTPSAddr)"

definition probe_addr :: "environ \<Rightarrow> string" where
  "probe_addr getenv =
     (let addr = resolveHTTPSAddr getenv in
      if hasPrefix addr '':'' then ''127.0.0.1'' @ addr else addr)"


section \<open>The program\<close>




section \<open>Properties\<close>

text \<open>
  With \<open>HUBCDN_HTTPS_ADDR\<close> set, the health check probes the address the server listens on, on the
  loopback host when it names none. Without it the two disagree: the server listens on port 443,
  the probe goes to \<open>HUBCDN_HTTPS_PORT\<close> or 4403.
\<close>

theorem healthcheck_address:
  "if getenv ''HUBCDN_HTTPS_ADDR'' \<noteq> []
   then probe_addr getenv = (if hasPrefix (cfg_HTTPSAddr (read_env getenv)) '':''
          then ''127.0.0.1'' @ cfg_HTTPSAddr (read_env getenv) else cfg_HTTPSAddr (read_env getenv))
   else cfg_HTTPSAddr (read_env getenv) = '':443'' \<and>
     probe_addr getenv = (if trimSpace (getenv ''HUBCDN_HTTPS_PORT'') = [] then ''127.0.0.1:4403''
          else ''127.0.0.1:'' @ trimPrefix (trimSpace (getenv ''HUBCDN_HTTPS_PORT'')) '':'')"
  by (simp add: probe_addr_def resolveHTTPSAddr_def read_env_def envStr_def defaultHTTPSAddr_def Let_def
      hasPrefix_def)









end
