(* ===== verification/Telemetry.thy ===== *)
theory Telemetry
  imports Config
begin

text \<open>
  \<open>internal/telemetry/devlite.go\<close>: the log handler that forwards structured fields to the DevLite
  SDK next to the normal output, and the decision whether the SDK is enabled and with which options.
  The reported figures are in \<open>ServerRun\<close>; the SDK and its request middleware are not modelled.
\<close>

section \<open>Enabling\<close>

definition envOr :: "environ \<Rightarrow> string \<Rightarrow> string \<Rightarrow> string" where
  "envOr getenv key fallback =
     (let v = trimSpace (getenv key) in if v \<noteq> [] then v else fallback)"

text \<open>\<open>Init\<close>: the options the SDK is started with, or \<open>None\<close> when it stays disabled.\<close>

record sdk_options =
  so_apiKey :: string
  so_service :: string
  so_environment :: string
  so_release :: string
  so_captureBody :: bool
  so_maxQueueSize :: nat
  so_maxBatchSize :: nat
  so_requestTimeoutMs :: nat
  so_maxRetries :: nat

definition maxBatchWithoutSyncFlush :: nat where "maxBatchWithoutSyncFlush = 2 ^ 30"

definition telemetry_Init :: "environ \<Rightarrow> (sdk_options \<Rightarrow> bool) \<Rightarrow> sdk_options option" where
  "telemetry_Init getenv starts =
     (let key = trimSpace (getenv ''DEVLITE_API_KEY'') in
      if key = [] then None
      else
        let opts = \<lparr>so_apiKey = key, so_service = ''hubcdn'',
                    so_environment = envOr getenv ''DEVLITE_ENVIRONMENT'' ''production'',
                    so_release = getenv ''DEVLITE_RELEASE'', so_captureBody = False, so_maxQueueSize = 5000,
                    so_maxBatchSize = maxBatchWithoutSyncFlush, so_requestTimeoutMs = 2000, so_maxRetries = 1\<rparr>
        in if starts opts then Some opts else None)"

section \<open>Attributes and fields\<close>

datatype 'v attr = Attr string "'v attr_value"
  and 'v attr_value = Leaf 'v | Group "'v attr list"

datatype 'v field = FieldValue 'v | FieldMap "(string \<times> 'v field) list"

definition qualify :: "string list \<Rightarrow> string \<Rightarrow> string" where
  "qualify groups key = foldr (\<lambda>g k. g @ ''.'' @ k) groups key"

fun addAttr :: "(string \<times> 'v field) list \<Rightarrow> string list \<Rightarrow> 'v attr \<Rightarrow> (string \<times> 'v field) list"
  and addAttrs :: "(string \<times> 'v field) list \<Rightarrow> string list \<Rightarrow> 'v attr list \<Rightarrow> (string \<times> 'v field) list"
where
  "addAttr acc groups (Attr key (Group children)) =
     (if key = [] then acc else AList.update key (FieldMap (addAttrs [] [] children)) acc)"
| "addAttr acc groups (Attr key (Leaf v)) =
     (if key = [] then acc else AList.update (qualify groups key) (FieldValue v) acc)"
| "addAttrs acc groups [] = acc"
| "addAttrs acc groups (a # as) = addAttrs (addAttr acc groups a) groups as"

section \<open>The handler\<close>

record 'v log_handler =
  lh_attrs :: "'v attr list"
  lh_groups :: "string list"

definition WithAttrs :: "'v attr list \<Rightarrow> 'v log_handler \<Rightarrow> 'v log_handler" where
  "WithAttrs as h = h\<lparr>lh_attrs := lh_attrs h @ as\<rparr>"

definition WithGroup :: "string \<Rightarrow> 'v log_handler \<Rightarrow> 'v log_handler" where
  "WithGroup name h = h\<lparr>lh_groups := lh_groups h @ [name]\<rparr>"

text \<open>What the normal output gets, the attributes of the record, and the fields the SDK gets.\<close>

definition Handle :: "'v log_handler \<Rightarrow> 'v attr list \<Rightarrow> 'v attr list \<times> (string \<times> 'v field) list" where
  "Handle h rec = (rec, addAttrs (addAttrs [] (lh_groups h) (lh_attrs h)) (lh_groups h) rec)"

section \<open>The contract of a handler\<close>

text \<open>
  \<open>log/slog\<close> qualifies an attribute by the groups that are open when it is added. The reference
  keeps every attribute with these groups.
\<close>

datatype 'v with_op = AddAttrs "'v attr list" | OpenGroup string

fun apply_with :: "'v with_op \<Rightarrow> 'v log_handler \<Rightarrow> 'v log_handler" where
  "apply_with (AddAttrs as) h = WithAttrs as h"
| "apply_with (OpenGroup g) h = WithGroup g h"

fun slog_fields ::
  "(string \<times> 'v field) list \<Rightarrow> string list \<Rightarrow> 'v with_op list \<Rightarrow> 'v attr list \<Rightarrow> (string \<times> 'v field) list" where
  "slog_fields acc groups [] rec = addAttrs acc groups rec"
| "slog_fields acc groups (AddAttrs as # ops) rec = slog_fields (addAttrs acc groups as) groups ops rec"
| "slog_fields acc groups (OpenGroup g # ops) rec = slog_fields acc (groups @ [g]) ops rec"

definition new_handler :: "'v log_handler" where
  "new_handler = \<lparr>lh_attrs = [], lh_groups = []\<rparr>"

lemma addAttrs_append: "addAttrs acc groups (as @ bs) = addAttrs (addAttrs acc groups as) groups bs"
  by (induction as arbitrary: acc) simp_all

lemma with_groups:
  "fold apply_with (map OpenGroup gs) h = h\<lparr>lh_groups := lh_groups h @ gs\<rparr>"
  by (induction gs arbitrary: h) (simp_all add: WithGroup_def)

lemma with_attrs:
  "fold apply_with (map AddAttrs ass) h = h\<lparr>lh_attrs := lh_attrs h @ concat ass\<rparr>"
  by (induction ass arbitrary: h) (simp_all add: WithAttrs_def)

lemma slog_groups: "slog_fields acc groups (map OpenGroup gs @ ops) rec = slog_fields acc (groups @ gs) ops rec"
  by (induction gs arbitrary: groups) simp_all

lemma slog_attrs:
  "slog_fields acc groups (map AddAttrs ass) rec = addAttrs (addAttrs acc groups (concat ass)) groups rec"
  by (induction ass arbitrary: acc) (simp_all add: addAttrs_append)

text \<open>
  The forwarded fields are those \<open>slog\<close> prescribes when every group is opened before the first
  attribute is added. When one is opened later it also qualifies the attributes added before.
\<close>

theorem handler_fields:
  "snd (Handle (fold apply_with (map OpenGroup gs @ map AddAttrs ass) new_handler) rec)
     = slog_fields [] [] (map OpenGroup gs @ map AddAttrs ass) rec
   \<and> snd (Handle (fold apply_with [AddAttrs [Attr ''a'' (Leaf v)], OpenGroup ''g''] new_handler) [])
     = [(''g.a'', FieldValue v)]
   \<and> slog_fields [] [] [AddAttrs [Attr ''a'' (Leaf v)], OpenGroup ''g''] [] = [(''a'', FieldValue v)]"
proof -
  have "snd (Handle (fold apply_with (map OpenGroup gs @ map AddAttrs ass) new_handler) rec)
     = slog_fields [] [] (map OpenGroup gs @ map AddAttrs ass) rec"
    by (simp add: with_groups with_attrs slog_groups slog_attrs Handle_def new_handler_def)
  then show ?thesis
    by (simp add: Handle_def WithAttrs_def WithGroup_def new_handler_def qualify_def)
qed

end
