(* ===== verification/Spec2Isabelle.thy ===== *)
theory Spec2Isabelle
  imports CacheProps ObjectStore Memory PolicyProps IssuanceProps DnsxProps RegistryProps ProxyProps ImageProps
    ConfigProps BunnyProps ImgCdnProps ImgFlightProps ServerRun MetricsProps Onboarding Node Telemetry
begin

text \<open>
  Verification of hubCDN, a self-hosted CDN node written in Go (\<open>src/\<close>).

  \<^bold>\<open>The program.\<close> A node listens for HTTPS only (\<open>internal/server\<close>). A request for a customer's
  domain is looked up in the registry of domains (\<open>internal/domain\<close>), which learns origin and
  settings from TXT records (\<open>internal/dnsx\<close>) and keeps them fresh in the background; the caching
  proxy (\<open>internal/proxy\<close>) answers from the in-memory cache (\<open>internal/cache\<close>) or forwards to the
  origin and records what the caching policy allows. A request for the node itself gets one of its
  pages or the image endpoint (\<open>internal/imgcdn\<close>), which fetches a public image, transforms it
  (\<open>internal/imageproc\<close>) and keeps it in the same cache. Certificates are ordered on demand behind
  budgets (\<open>internal/certguard\<close>). The node reads its configuration from the environment
  (\<open>internal/config\<close>), registers its addresses in DNS while it runs (\<open>internal/bunny\<close>,
  \<open>cmd/hubcdn\<close>) and may forward its logs (\<open>internal/telemetry\<close>).

  \<^bold>\<open>Conventions.\<close> A Go string is a list of bytes; \<open>int\<close> and \<open>int64\<close> are integers, with
  \<open>wrap64\<close> written out where an operation can overflow; counters and image data are machine
  words. A Go map is an association list or a map, a struct a record, an error a value of a sum or
  option type, and a panic is a result of its own (\<open>None\<close> or a flag). State is passed explicitly
  and a handler returns the new state, the client's response writer and whether it panicked. What
  the code reads from outside (clock, environment, DNS, origins, file system, the API of the DNS
  provider) is an argument, so a theorem holds for every behaviour of the outside world. Locks are
  the atomicity of the operations; where goroutines interleave between critical sections
  (\<open>RegistryInv.reg_step\<close>, \<open>Issuance.issue_step\<close>, \<open>ProxyInv.proxy_step\<close>,
  \<open>ImgFlight.endpoint_step\<close>, \<open>Server.server_step\<close>) the steps are those sections.

  \<^bold>\<open>The language and its library.\<close> \<open>Prelude\<close> (integers, time, headers, lists), \<open>GoStrings\<close>
  (strings, \<open>strconv\<close>), \<open>GoTime\<close> (\<open>time.ParseDuration\<close>), \<open>F64\<close>, \<open>F64Bounds\<close> and \<open>GoFloat\<close>
  (double precision as rationals with rounding), \<open>GoNet\<close> (\<open>net.ParseIP\<close>, address classes,
  \<open>SplitHostPort\<close>), \<open>Http\<close> (requests and response writers).

  \<^bold>\<open>Interfaces.\<close> \<open>step_invariant\<close> and \<open>growing_steps\<close> (\<open>Prelude\<close>) carry an invariant through all
  reachable states; the registry, the data plane, the concurrent image endpoint and the assembled
  node are instances.
  \<open>header_writer\<close>, \<open>response_writer\<close> and \<open>writer_layer\<close> (\<open>Http\<close>) are the contracts of
  \<open>http.ResponseWriter\<close>; the client's writer, the recorder and the writer the proxy hands on are
  instances. \<open>object_store\<close> (\<open>ObjectStore\<close>) is what the proxy and the image endpoint rely on in
  the cache.

  \<^bold>\<open>Cache\<close> (\<open>cache.go\<close>, \<open>memory.go\<close>). \<open>CacheKey\<close>: keys and shards. \<open>Cache\<close>: the shards with map,
  recency list and byte counts, as the code has them. \<open>CacheInv\<close>, \<open>CacheOps\<close>: the invariant and
  every operation in closed form. \<open>CacheSpec\<close>: one list per shard as the specification and the
  refinement. \<open>CacheRuns\<close>, \<open>CacheProps\<close>: runs of operations. \<open>ObjectStore\<close>: the contract of the
  cache with its clients as a locale, interpreted on the model. \<open>Memory\<close>: sizing and watchdog.

  \<^bold>\<open>Policy and settings\<close> (\<open>policy.go\<close>, \<open>domain.go\<close>). \<open>Policy\<close>, \<open>PolicyProps\<close>: what may be cached and
  for how long. \<open>Domain\<close>, \<open>DomainProps\<close>: the settings a customer writes into DNS.

  \<^bold>\<open>Certificates\<close> (\<open>certguard.go\<close>). \<open>CertGuard\<close>: the sliding windows and their file. \<open>Issuance\<close>,
  \<open>IssuanceProps\<close>: orders in flight, failures and restarts as a step relation, and the bound on
  what is issued in any window.

  \<^bold>\<open>Domains\<close> (\<open>dnsx.go\<close>, \<open>registry.go\<close>). \<open>Dnsx\<close>, \<open>DnsxProps\<close>: records, origins, host names.
  \<open>Registry\<close>, \<open>RegistryInv\<close>, \<open>RegistryProps\<close>: snapshots, refresh, persistence, interleaving.

  \<^bold>\<open>Proxy\<close> (\<open>proxy.go\<close>, \<open>recorder.go\<close>, \<open>metrics.go\<close>). \<open>Recorder\<close>, \<open>Metrics\<close>, \<open>Proxy\<close>: the recording
  writer, the counters, the handler and the background revalidation. \<open>ProxyInv\<close>, \<open>ProxyProps\<close>:
  what the cache holds, single flight, transparency of recording, and a miss followed by a hit.

  \<^bold>\<open>Images\<close> (\<open>params.go\<close>, \<open>transform.go\<close>, \<open>imgcdn.go\<close>). \<open>ImageParams\<close>, \<open>Transform\<close>: options and the
  pixel operations. \<open>TransformInv\<close>, \<open>BlurInv\<close>, \<open>ResizeInv\<close>, \<open>ImageProps\<close>: flips, the running sum of
  the blur against the mean of a window, the box of a resize. \<open>ImgFetch\<close>: the guarded client.
  \<open>ImgCdn\<close>, \<open>ImgCdnProps\<close>: the endpoint, where it may connect to, its errors and its cache.
  \<open>ImgFlight\<close>, \<open>ImgFlightProps\<close>: concurrent requests that share flights and compete for the slots of
  the semaphore; every request is answered once, no flight starves, and a request that is alone goes
  through the steps with the outcome of the sequential handler.

  \<^bold>\<open>Pages\<close> (\<open>web/views/*_templ.go\<close>). \<open>ViewText\<close>: the static texts, byte for byte. \<open>Views\<close>: the
  generated components on an abstract templ runtime, with an early return after every write.
  \<open>Rendering\<close>: the pages as texts and that each view appends its text, or a first part of it when a
  write fails. \<open>Markup\<close>, \<open>PageProps\<close>: a tokenizer for HTML, and that no value can change the markup
  of a page. \<open>Onboarding\<close>: from the page a new customer sees, over the record it names, to the origin.

  \<^bold>\<open>The node\<close> (\<open>config.go\<close>, \<open>bunny.go\<close>, \<open>server.go\<close>, \<open>web.go\<close>, \<open>cmd/hubcdn\<close>, \<open>devlite.go\<close>).
  \<open>Config\<close>, \<open>ConfigProps\<close>: reading the environment and what values do downstream. \<open>Bunny\<close>,
  \<open>BunnyProps\<close>: registration against a service that behaves as documented. \<open>Server\<close>,
  \<open>ServerInv\<close>, \<open>ServerProps\<close>: assembly, routing, certificate gate, middleware, and the invariant
  of every reachable state, put together from the invariants of the parts. \<open>MetricsProps\<close>: what the
  request counters count. \<open>Paths\<close>: the files in the data directory. \<open>ServerRun\<close>: the TLS set-up, the
  listener, the end of \<open>Run\<close> and the reported figures. \<open>Node\<close>: command line, health check and the
  life of a node in DNS, where the \<open>stopped\<close> of \<open>run_main\<close> is that \<open>ServerRun.Run_end\<close> has no error.
  \<open>Telemetry\<close>: options and the log handler.

  \<^bold>\<open>Termination.\<close> Every definition is total. The groups of a duration shorten the text, the parser
  of IPv6 counts the groups that are left, and the client that follows redirects is bounded by
  \<open>maxRedirects\<close>; no definition needs fuel.

  \<^bold>\<open>Assumptions.\<close> Parameters stand for code that is not in the repository: \<open>url.Parse\<close>,
  \<open>URL.String\<close> and \<open>URL.ResolveReference\<close>, the public suffix list, \<open>encoding/json\<close>, SHA-256,
  \<open>http.ParseTime\<close>, \<open>http.ServeContent\<close>, the image codecs and the resampling filter, the templ
  runtime and the embedded assets. Facts about them that a theorem needs (no collision of the keys
  at hand, a decoder that inverts its encoder, a DNS service as documented) are hypotheses, and
  the witnesses instantiate them. Floating point is that of amd64, without fused operations.
  Case folding and trimming are those of ASCII text.

  \<^bold>\<open>Not modelled.\<close> The embedded files (\<open>web/static\<close> has declarations of them only); what certmagic,
  \<open>net/http\<close> and the telemetry SDK do with the configuration, requests and figures they are handed,
  whose code is not in the repository; contexts and timeouts other than as failures of the step they
  end; log lines; HTTP trailers and upgraded connections after the handshake; the race between the
  end of the program and the last writes of its background loops.
\<close>

end
